(* ===== verification/Prelude.thy ===== *)
theory Prelude
  imports Main "HOL-Library.Word"
begin

text \<open>
  Shared vocabulary of the development: the machine types the Rust code uses, the vectors of
  bytes it stores, the storage maps of FRAME as partial functions, and the lemma collections the
  component theories fill; and Rust's \<^verbatim>\<open>?\<close> on computations with state.

  A storage map declared by \<^verbatim>\<open>decl_storage!\<close> is a partial function \<^typ>\<open>'k \<Rightarrow> 'v option\<close>:
  \<^verbatim>\<open>contains_key\<close>, \<^verbatim>\<open>get\<close> (which answers the value type's default for an absent key),
  \<^verbatim>\<open>insert\<close>, \<^verbatim>\<open>take\<close> and \<^verbatim>\<open>remove\<close> are the operations the pallet calls on it. What the
  pallet relies on is stated once, in the locale \<open>storage_map\<close>, and discharged for these
  definitions.
\<close>

section \<open>Types and collections\<close>

type_synonym u8 = "8 word"
type_synonym u32 = "32 word"
type_synonym u64 = "64 word"
type_synonym bytes = "u8 list"

text \<open>
  \<open>guard_simps\<close>: the result of an operation on each branch of its guards.
  \<open>frame_simps\<close>: the storage items an operation leaves alone.
\<close>

named_theorems guard_simps
named_theorems frame_simps

section \<open>Operations of a storage map\<close>

definition contains_key :: "('k \<Rightarrow> 'v option) \<Rightarrow> 'k \<Rightarrow> bool" where
  "contains_key m k \<longleftrightarrow> m k \<noteq> None"

definition storage_get :: "'v \<Rightarrow> ('k \<Rightarrow> 'v option) \<Rightarrow> 'k \<Rightarrow> 'v" where
  "storage_get dflt m k = (case m k of None \<Rightarrow> dflt | Some v \<Rightarrow> v)"

definition storage_insert :: "('k \<Rightarrow> 'v option) \<Rightarrow> 'k \<Rightarrow> 'v \<Rightarrow> ('k \<Rightarrow> 'v option)" where
  "storage_insert m k v = m(k := Some v)"

definition storage_remove :: "('k \<Rightarrow> 'v option) \<Rightarrow> 'k \<Rightarrow> ('k \<Rightarrow> 'v option)" where
  "storage_remove m k = m(k := None)"

definition storage_take ::
    "'v \<Rightarrow> ('k \<Rightarrow> 'v option) \<Rightarrow> 'k \<Rightarrow> 'v \<times> ('k \<Rightarrow> 'v option)" where
  "storage_take dflt m k = (storage_get dflt m k, storage_remove m k)"

text \<open>
  The idiom the pallet repeats for its vector-valued maps: take the vector, push one entry, put
  it back; or start a new vector when the key is absent.
\<close>

definition push_entry :: "('k \<Rightarrow> 'v list option) \<Rightarrow> 'k \<Rightarrow> 'v \<Rightarrow> ('k \<Rightarrow> 'v list option)" where
  "push_entry m k x =
     (if contains_key m k
      then (case storage_take [] m k of (xs, m') \<Rightarrow> storage_insert m' k (xs @ [x]))
      else storage_insert m k [x])"

section \<open>The interface of a storage map\<close>

locale storage_map =
  fixes has :: "'m \<Rightarrow> 'k \<Rightarrow> bool"
    and lookup :: "'m \<Rightarrow> 'k \<Rightarrow> 'v"
    and put :: "'m \<Rightarrow> 'k \<Rightarrow> 'v \<Rightarrow> 'm"
    and pop :: "'m \<Rightarrow> 'k \<Rightarrow> 'v \<times> 'm"
    and dflt :: 'v
  assumes has_put: "has (put m k v) k' \<longleftrightarrow> k' = k \<or> has m k'"
    and lookup_put: "lookup (put m k v) k' = (if k' = k then v else lookup m k')"
    and lookup_absent: "\<not> has m k \<Longrightarrow> lookup m k = dflt"
    and pop_value: "fst (pop m k) = lookup m k"
    and has_pop: "has (snd (pop m k)) k' \<longleftrightarrow> k' \<noteq> k \<and> has m k'"
    and lookup_pop: "k' \<noteq> k \<Longrightarrow> lookup (snd (pop m k)) k' = lookup m k'"
begin

text \<open>Taking a vector and putting it back with a change is a change in place.\<close>

lemma pop_put_lookup:
  "lookup (put (snd (pop m k)) k v) k' = (if k' = k then v else lookup m k')"
  by (simp add: lookup_put lookup_pop)

lemma pop_put_has: "has (put (snd (pop m k)) k v) k' \<longleftrightarrow> k' = k \<or> has m k'"
  by (auto simp: has_put has_pop)

text \<open>
  Taking a value and not putting it back loses it: the key is absent afterwards and reads as the
  default.
\<close>

lemma pop_lost: "\<not> has (snd (pop m k)) k \<and> lookup (snd (pop m k)) k = dflt"
  using lookup_absent [of "snd (pop m k)" k] by (simp add: has_pop)

end

lemma contains_key_simps [simp]:
  "contains_key (storage_insert m k v) k' \<longleftrightarrow> k' = k \<or> contains_key m k'"
  "contains_key (storage_remove m k) k' \<longleftrightarrow> k' \<noteq> k \<and> contains_key m k'"
  by (auto simp: contains_key_def storage_insert_def storage_remove_def)

lemma storage_get_simps [simp]:
  "storage_get d (storage_insert m k v) k' = (if k' = k then v else storage_get d m k')"
  "storage_get d (storage_remove m k) k' = (if k' = k then d else storage_get d m k')"
  by (auto simp: storage_get_def storage_insert_def storage_remove_def)

lemma storage_get_upd [simp]:
  "storage_get d (m(k := Some v)) k' = (if k' = k then v else storage_get d m k')"
  by (simp add: storage_get_def)

lemma storage_get_absent: "\<not> contains_key m k \<Longrightarrow> storage_get d m k = d"
  by (simp add: contains_key_def storage_get_def)

lemma storage_get_Some: "m k = Some v \<Longrightarrow> storage_get d m k = v"
  by (simp add: storage_get_def)

lemma contains_keyE: "contains_key m k \<Longrightarrow> (\<And>v. m k = Some v \<Longrightarrow> P) \<Longrightarrow> P"
  by (auto simp: contains_key_def)

interpretation smap: storage_map contains_key "storage_get d" storage_insert "storage_take d" d
  for d :: 'v
  by unfold_locales (auto simp: storage_take_def storage_get_absent)

lemma storage_insert_apply [simp]:
  "storage_insert m k v k' = (if k' = k then Some v else m k')"
  by (simp add: storage_insert_def)

lemma storage_remove_apply [simp]: "storage_remove m k k' = (if k' = k then None else m k')"
  by (simp add: storage_remove_def)

text \<open>The push idiom in one equation.\<close>

lemma push_entry_apply [simp]:
  "push_entry m k x k' = (if k' = k then Some (storage_get [] m k @ [x]) else m k')"
  by (auto simp: push_entry_def storage_take_def storage_get_absent)

lemma push_entry_get [simp]:
  "storage_get [] (push_entry m k x) k' =
     (if k' = k then storage_get [] m k @ [x] else storage_get [] m k')"
  by (simp add: storage_get_def)

section \<open>Lists\<close>

lemma list_ex_image: "list_ex (\<lambda>x. f x = y) xs \<longleftrightarrow> y \<in> f ` set xs"
  by (auto simp: list_ex_iff)

lemma distinct_snoc: "distinct (xs @ [x]) \<longleftrightarrow> distinct xs \<and> x \<notin> set xs"
  by auto

section \<open>Words\<close>

text \<open>Widening a block number to 64 bits keeps its value.\<close>

lemma unat_ucast_u64: "unat (ucast (n :: u32) :: u64) = unat n"
proof -
  have "unat n < 2 ^ 32" using unsigned_less [of n] by simp
  then show ?thesis by (simp add: unsigned_ucast_eq take_bit_nat_eq_self)
qed

section \<open>The question mark\<close>

text \<open>Rust's \<^verbatim>\<open>?\<close> on a computation with state: an error ends it with the state it has.\<close>

definition and_then ::
    "('e + 'x) \<times> 's \<Rightarrow> ('x \<Rightarrow> 's \<Rightarrow> ('e + 'y) \<times> 's) \<Rightarrow> ('e + 'y) \<times> 's" where
  "and_then m f = (case m of (Inl e, s) \<Rightarrow> (Inl e, s) | (Inr x, s) \<Rightarrow> f x s)"

lemma and_then_simps [simp]:
  "and_then (Inl e, s) f = (Inl e, s)"
  "and_then (Inr x, s) f = f x s"
  by (simp_all add: and_then_def)

lemma and_then_Inr:
  "and_then m f = (Inr y, s') \<longleftrightarrow> (\<exists>x s. m = (Inr x, s) \<and> f x s = (Inr y, s'))"
  by (cases m; cases "fst m") (auto simp: and_then_def)

text \<open>A relation on states that the parts keep, the whole keeps.\<close>

lemma and_then_keeps:
  assumes "P (snd m)" and "\<And>x s. m = (Inr x, s) \<Longrightarrow> P s \<Longrightarrow> P (snd (f x s))"
  shows "P (snd (and_then m f))"
proof (cases m)
  case (Pair r s)
  with assms show ?thesis by (cases r) auto
qed

end
