(* ===== verification/Abc_Data.thy ===== *)
theory Abc_Data
  imports Prelude
begin

text \<open>
  The data of the errand pallet (\<^verbatim>\<open>pallets/abc-demo/src/lib.rs\<close>): its structs, events and
  errors, its storage as a record, the chain state the dispatchables run on, and the parameter
  record \<open>Trait\<close> that stands for \<^verbatim>\<open>trait Trait\<close>: the account type's codec, the currency and the
  hashing primitives, all of them code of other crates.
\<close>

section \<open>Types of the pallet\<close>

type_synonym ClientAccountId = bytes
type_synonym ErrandId = bytes
type_synonym Cid = bytes
type_synonym NetAddress = bytes
type_synonym DelegatorName = bytes

text \<open>The runtime's block number and balance (\<^verbatim>\<open>u32\<close> and \<^verbatim>\<open>u128\<close>). A balance is only ever made
  here from a \<^verbatim>\<open>u32\<close> fee, exactly; its arithmetic is the currency's.\<close>

type_synonym BlockNumber = u32
type_synonym Balance = nat

text \<open>
  \<^verbatim>\<open>AccountId32\<close>: an array of 32 bytes. \<open>account_of\<close> is \<^verbatim>\<open>AccountId32::from\<close> on a slice of that
  length; the pallet never builds one from another length.
\<close>

typedef AccountId32 = "{bs :: bytes. length bs = 32}"
  morphisms account_bytes Abs_account
  by (rule exI [of _ "replicate 32 0"]) simp

definition account_of :: "bytes \<Rightarrow> AccountId32" where
  "account_of bs = Abs_account (if length bs = 32 then bs else replicate 32 0)"

lemma account_abstype [code abstype]: "Abs_account (account_bytes a) = a"
  by (rule account_bytes_inverse)

lemma account_bytes_of [code abstract]:
  "account_bytes (account_of bs) = (if length bs = 32 then bs else replicate 32 0)"
  by (auto simp: account_of_def intro!: Abs_account_inverse)

lemma length_account_bytes [simp]: "length (account_bytes a) = 32"
  using account_bytes [of a] by simp

lemma account_of_bytes [simp]: "account_of (account_bytes a) = a"
  by (simp add: account_of_def account_bytes_inverse)

lemma account_of_inject:
  "length bs = 32 \<Longrightarrow> length cs = 32 \<Longrightarrow> account_of bs = account_of cs \<longleftrightarrow> bs = cs"
  by (metis account_bytes_of)

instantiation AccountId32 :: equal
begin

definition equal_AccountId32 :: "AccountId32 \<Rightarrow> AccountId32 \<Rightarrow> bool" where
  "equal_AccountId32 a b \<longleftrightarrow> account_bytes a = account_bytes b"

instance
  by standard (simp add: equal_AccountId32_def account_bytes_inject)

end

instance AccountId32 :: finite
proof
  have "finite {bs :: bytes. set bs \<subseteq> UNIV \<and> length bs = 32}" by (rule finite_lists_length_eq) simp
  moreover have "range account_bytes \<subseteq> {bs. set bs \<subseteq> UNIV \<and> length bs = 32}" by auto
  ultimately have "finite (range account_bytes)" by (rule finite_subset [rotated])
  then show "finite (UNIV :: AccountId32 set)" by (rule finite_imageD) (simp add: inj_def account_bytes_inject)
qed

datatype ErrandStatus = Processing | Done

record Errand =
  e_account_id :: ClientAccountId
  e_errand_id :: ErrandId
  e_description_cid :: Cid
  e_status :: ErrandStatus
  e_result :: Cid

record TaskInfo =
  t_client :: ClientAccountId
  t_delegator :: DelegatorName
  t_description_cid :: Cid
  t_errand_id :: ErrandId
  t_fee :: u32

definition MIN_UPDATE_RESULT_ACCOUNT :: nat where
  "MIN_UPDATE_RESULT_ACCOUNT = 2"

section \<open>Events and errors\<close>

datatype 'a Event =
    DelegateRequested 'a DelegatorName
  | DelegateUpdated 'a
  | TaskBegan 'a bytes 'a
  | ErrandInited 'a bytes
  | ErrandUpdated bytes bytes

datatype Error =
    NoneValue
  | StorageOverflow
  | InsufficientFee
  | SendErrandTaskError
  | QueryErrandResultError
  | ResponseParsingError
  | ErrandAlreadyExecuted
  | ErrandTaskNotExist
  | ErrandTaskCompleted
  | ErrandItemIsNone
  | ProcessingErrandNotExist
  | ApplyDelegateError
  | ClientAlreadyExists
  | ClientNotExist
  | ClientNotReady
  | ClientDelegatorNotExist
  | NoRightToUpdateDelegate
  | NoRightToInitErrand
  | NoRightToUpdateErrand
  | AccountId32ConvertionError
  | LocalStorageError

text \<open>
  A dispatchable fails with a bad origin, with an error of this pallet, or with an error the
  currency hands back (another pallet's module index and error number).
\<close>

datatype DispatchError = BadOrigin | Abc Error | Foreign u8 u8

type_synonym DispatchResult = "DispatchError + unit"

section \<open>Storage and chain state\<close>

record 'a storage =
  Errands :: "Cid \<Rightarrow> Errand option"
  Delegates :: "'a \<Rightarrow> bool option"
  CompletedErrands :: "Cid \<Rightarrow> 'a list option"
  ClientTaskFee :: "'a \<Rightarrow> u32 option"
  ClientDelegate :: "'a \<Rightarrow> 'a option"
  DelegateNetAddress :: "'a \<Rightarrow> NetAddress option"
  DelegateAccounts :: "DelegatorName \<Rightarrow> 'a option"
  Tasks :: "BlockNumber \<Rightarrow> TaskInfo list option"
  DelegatesApplys :: "BlockNumber \<Rightarrow> (DelegatorName \<times> 'a) list option"
  ProcessingErrands :: "Cid list"
  DevelopmentMode :: bool
  UpdateResultAccounts :: "AccountId32 list"

text \<open>
  The chain state adds what the dispatchables read from the other pallets: the block number, the
  index of the running extrinsic and the random seed, the currency's own state, and the events
  deposited so far.
\<close>

record ('a, 'c) chain = "'a storage" +
  block_number :: BlockNumber
  extrinsic_index :: "u32 option"
  random_seed :: bytes
  currency :: 'c
  events :: "'a Event list"

text \<open>The genesis configuration and its \<^verbatim>\<open>build\<close>: two values are put, every map is empty.\<close>

record AbcConfig =
  development_mode :: bool
  update_result_accounts :: "AccountId32 list"

definition genesis_build :: "AbcConfig \<Rightarrow> 'c \<Rightarrow> ('a, 'c) chain" where
  "genesis_build config cur =
     \<lparr> Errands = (\<lambda>_. None), Delegates = (\<lambda>_. None), CompletedErrands = (\<lambda>_. None),
       ClientTaskFee = (\<lambda>_. None), ClientDelegate = (\<lambda>_. None),
       DelegateNetAddress = (\<lambda>_. None), DelegateAccounts = (\<lambda>_. None),
       Tasks = (\<lambda>_. None), DelegatesApplys = (\<lambda>_. None), ProcessingErrands = [],
       DevelopmentMode = development_mode config,
       UpdateResultAccounts = update_result_accounts config,
       block_number = 0, extrinsic_index = None, random_seed = [], currency = cur,
       events = [] \<rparr>"

section \<open>The configuration trait\<close>

text \<open>
  \<^item> \<open>encode\<close>, \<open>decode\<close>, \<open>default_account\<close>: \<^verbatim>\<open>T::AccountId\<close> with its \<^verbatim>\<open>Encode\<close>, \<^verbatim>\<open>Decode\<close> and
    \<^verbatim>\<open>Default\<close>; the last is what a map of accounts answers for an absent key;
  \<^item> \<open>free_balance\<close> to \<open>minimum_balance\<close>: \<^verbatim>\<open>T::Currency\<close>, a \<^verbatim>\<open>ReservableCurrency\<close>, on its
    own state \<open>'c\<close>;
  \<^item> \<open>encode_payload\<close>, \<open>blake2_128\<close>: the encoding of the payload tuple and its hash;
  \<^item> \<open>uuid_set_variant\<close>, \<open>uuid_set_version\<close>, \<open>uuid_encode_lower\<close>: the crate \<^verbatim>\<open>uuid\<close>, the two setters of its
    \<^verbatim>\<open>Builder\<close> on the sixteen bytes and \<^verbatim>\<open>to_hyphenated().encode_lower\<close>.
\<close>

datatype UuidVariant = NCS | RFC4122 | Microsoft | Future

datatype UuidVersion = NilVersion | Mac | Dce | Md5 | Random | Sha1

record ('a, 'c) Trait =
  encode :: "'a \<Rightarrow> bytes"
  decode :: "bytes \<Rightarrow> 'a option"
  default_account :: 'a
  free_balance :: "'c \<Rightarrow> 'a \<Rightarrow> Balance"
  reserved_balance :: "'c \<Rightarrow> 'a \<Rightarrow> Balance"
  reserve :: "'a \<Rightarrow> Balance \<Rightarrow> 'c \<Rightarrow> DispatchError + 'c"
  unreserve_funds :: "'a \<Rightarrow> Balance \<Rightarrow> 'c \<Rightarrow> Balance \<times> 'c"
  repatriate_reserved :: "'a \<Rightarrow> 'a \<Rightarrow> Balance \<Rightarrow> 'c \<Rightarrow> (DispatchError + Balance) \<times> 'c"
  minimum_balance :: Balance
  encode_payload :: "bytes \<times> 'a \<times> u32 option \<Rightarrow> bytes"
  blake2_128 :: "bytes \<Rightarrow> bytes"
  uuid_set_variant :: "UuidVariant \<Rightarrow> bytes \<Rightarrow> bytes"
  uuid_set_version :: "UuidVersion \<Rightarrow> bytes \<Rightarrow> bytes"
  uuid_encode_lower :: "bytes \<Rightarrow> bytes"

section \<open>Origins, events, accounts\<close>

datatype 'a Origin = Root | Signed 'a | NoOrigin

fun ensure_signed :: "'a Origin \<Rightarrow> DispatchError + 'a" where
  "ensure_signed (Signed who) = Inr who"
| "ensure_signed _ = Inl BadOrigin"

definition deposit_event :: "'a Event \<Rightarrow> ('a, 'c) chain \<Rightarrow> ('a, 'c) chain" where
  "deposit_event e w = w\<lparr>events := events w @ [e]\<rparr>"

definition account_to_bytes :: "('a, 'c) Trait \<Rightarrow> 'a \<Rightarrow> Error + AccountId32" where
  "account_to_bytes T account =
     (let account_vec = encode T account
      in if length account_vec \<noteq> 32 then Inl AccountId32ConvertionError
         else Inr (account_of account_vec))"

definition bytes_to_account :: "('a, 'c) Trait \<Rightarrow> bytes \<Rightarrow> Error + 'a" where
  "bytes_to_account T raw =
     (case decode T raw of
        Some client \<Rightarrow> Inr client
      | None \<Rightarrow> Inl AccountId32ConvertionError)"

definition generate_errand_id :: "('a, 'c) Trait \<Rightarrow> 'a \<Rightarrow> ('a, 'c) chain \<Rightarrow> bytes" where
  "generate_errand_id T sender w =
     (let payload = (random_seed w, sender, extrinsic_index w);
          uuid = uuid_set_version T Random (uuid_set_variant T RFC4122 (blake2_128 T (encode_payload T payload)))
      in uuid_encode_lower T uuid)"

section \<open>Basic facts\<close>

lemma ensure_signed_Inr [simp]: "ensure_signed origin = Inr who \<longleftrightarrow> origin = Signed who"
  by (cases origin) auto

lemma ensure_signed_Inl: "ensure_signed origin = Inl e \<Longrightarrow> e = BadOrigin \<and> (\<forall>who. origin \<noteq> Signed who)"
  by (cases origin) auto

lemma deposit_event_frame [simp]:
  "Errands (deposit_event e w) = Errands w"
  "Delegates (deposit_event e w) = Delegates w"
  "CompletedErrands (deposit_event e w) = CompletedErrands w"
  "ClientTaskFee (deposit_event e w) = ClientTaskFee w"
  "ClientDelegate (deposit_event e w) = ClientDelegate w"
  "DelegateNetAddress (deposit_event e w) = DelegateNetAddress w"
  "DelegateAccounts (deposit_event e w) = DelegateAccounts w"
  "Tasks (deposit_event e w) = Tasks w"
  "DelegatesApplys (deposit_event e w) = DelegatesApplys w"
  "ProcessingErrands (deposit_event e w) = ProcessingErrands w"
  "DevelopmentMode (deposit_event e w) = DevelopmentMode w"
  "UpdateResultAccounts (deposit_event e w) = UpdateResultAccounts w"
  "block_number (deposit_event e w) = block_number w"
  "extrinsic_index (deposit_event e w) = extrinsic_index w"
  "random_seed (deposit_event e w) = random_seed w"
  "currency (deposit_event e w) = currency w"
  by (simp_all add: deposit_event_def)

lemma events_deposit_event [simp]: "events (deposit_event e w) = events w @ [e]"
  by (simp add: deposit_event_def)

lemma account_to_bytes_Inr:
  "account_to_bytes T a = Inr b \<longleftrightarrow> b = account_of (encode T a) \<and> length (encode T a) = 32"
  by (auto simp: account_to_bytes_def Let_def)

lemma account_to_bytes_Inl:
  "account_to_bytes T a = Inl e \<longleftrightarrow>
     e = AccountId32ConvertionError \<and> length (encode T a) \<noteq> 32"
  by (auto simp: account_to_bytes_def Let_def)

end
