(* ===== verification/Currency.thy ===== *)
theory Currency
  imports Abc_Data
begin

text \<open>
  The contract the pallet has with \<^verbatim>\<open>T::Currency\<close> (\<^verbatim>\<open>frame_support::traits::ReservableCurrency\<close>)
  and with the account codec, as locales. The laws are the documented ones:
  \<^item> \<^verbatim>\<open>minimum_balance\<close>, the existential deposit of \<^verbatim>\<open>pallet_balances\<close>, is what the free and the reserved balance of an
    account must have together for the account to exist; an account that falls below it is removed with what it
    still has, which is burnt where \<^verbatim>\<open>DustRemoval\<close> is \<^verbatim>\<open>()\<close>;
  \<^item> \<^verbatim>\<open>reserve\<close> moves the value from the free to the reserved balance, or moves nothing and fails
    when the free balance is lower than the value;
  \<^item> \<^verbatim>\<open>unreserve\<close> never fails: it moves as much as there is, and returns what was missing;
  \<^item> \<^verbatim>\<open>repatriate_reserved\<close> with status \<^verbatim>\<open>Free\<close> moves as much as there is from the reserved balance
    of one account to the free balance of another and returns what was missing, or fails (the
    beneficiary does not exist) and moves nothing. It is the one of the three that changes what accounts have
    in all, so the one after which an account may be removed.
\<close>

section \<open>Reservable currencies\<close>

text \<open>What an account has left of a free and a reserved balance, given the minimum: all of it, or nothing.\<close>

fun kept :: "Balance \<Rightarrow> Balance \<times> Balance \<Rightarrow> Balance \<times> Balance" where
  "kept minimum (f, h) = (if f + h < minimum then (0, 0) else (f, h))"

locale reservable_currency =
  fixes free :: "'c \<Rightarrow> 'a \<Rightarrow> Balance"
    and held :: "'c \<Rightarrow> 'a \<Rightarrow> Balance"
    and hold :: "'a \<Rightarrow> Balance \<Rightarrow> 'c \<Rightarrow> DispatchError + 'c"
    and release :: "'a \<Rightarrow> Balance \<Rightarrow> 'c \<Rightarrow> Balance \<times> 'c"
    and pay_held :: "'a \<Rightarrow> 'a \<Rightarrow> Balance \<Rightarrow> 'c \<Rightarrow> (DispatchError + Balance) \<times> 'c"
    and minimum :: Balance
  assumes above_minimum: "free c a + held c a = 0 \<or> minimum \<le> free c a + held c a"
    and hold_ok: "hold who v c = Inr c' \<Longrightarrow>
      v \<le> free c who \<and> free c' = (free c)(who := free c who - v) \<and>
      held c' = (held c)(who := held c who + v)"
    and hold_short: "free c who < v \<Longrightarrow> \<exists>e. hold who v c = Inl e"
    and release_moves: "release who v c = (rest, c') \<Longrightarrow>
      rest = v - min v (held c who) \<and>
      free c' = (free c)(who := free c who + min v (held c who)) \<and>
      held c' = (held c)(who := held c who - min v (held c who))"
    and pay_ok: "pay_held s b v c = (Inr rest, c') \<Longrightarrow>
      rest = v - min v (held c s) \<and>
      (\<forall>a. (free c' a, held c' a) = kept minimum
             (free c a + (if a = b then min v (held c s) else 0), held c a - (if a = s then min v (held c s) else 0)))"
    and pay_err: "pay_held s b v c = (Inl e, c') \<Longrightarrow> free c' = free c \<and> held c' = held c"
begin

text \<open>Reserving moves funds between the two balances of one account.\<close>

lemma hold_total: "hold who v c = Inr c' \<Longrightarrow> free c' a + held c' a = free c a + held c a"
  by (drule hold_ok) auto

lemma hold_others: "hold who v c = Inr c' \<Longrightarrow> a \<noteq> who \<Longrightarrow> free c' a = free c a \<and> held c' a = held c a"
  by (drule hold_ok) auto

text \<open>
  What paying out of the reserve does to one account: its free balance does not fall and its reserve falls by at most the
  value, and only if it is the one that pays; or it is that one and is removed, because the payment leaves it below
  the minimum.
\<close>

lemma pay_account:
  assumes "pay_held s b v c = (r, c')"
  shows "free c a \<le> free c' a \<and> held c a \<le> held c' a + (if a = s then v else 0) \<and> held c' a \<le> held c a \<or>
         a = s \<and> free c' a = 0 \<and> held c' a = 0 \<and> free c a + held c a < v + minimum"
proof (cases r)
  case (Inl e)
  with assms pay_err show ?thesis by simp
next
  case (Inr rest)
  let ?m = "min v (held c s)"
  from assms Inr have "(free c' a, held c' a) = kept minimum
      (free c a + (if a = b then ?m else 0), held c a - (if a = s then ?m else 0))"
    using pay_ok [of s b v c rest c'] by blast
  with above_minimum [of c a] show ?thesis by (auto split: if_splits)
qed

text \<open>What all accounts have: nothing is made, and less than the minimum of each of the two accounts is lost.\<close>

lemma pay_total:
  assumes "finite A" and "s \<in> A" and "b \<in> A" and "pay_held s b v c = (r, c')"
  shows "(\<Sum>a\<in>A. free c' a + held c' a) \<le> (\<Sum>a\<in>A. free c a + held c a)"
    and "(\<Sum>a\<in>A. free c a + held c a) \<le> (\<Sum>a\<in>A. free c' a + held c' a) + 2 * (minimum - 1)"
proof -
  let ?t = "\<lambda>c a. free c a + held c a" and ?S = "\<lambda>f. sum f A"
  have "?S (?t c') \<le> ?S (?t c) \<and> ?S (?t c) \<le> ?S (?t c') + 2 * (minimum - 1)"
  proof (cases r)
    case (Inl e)
    with assms(4) pay_err show ?thesis by simp
  next
    case (Inr rest)
    let ?m = "min v (held c s)" and ?d = "\<lambda>x a. if a = x then minimum - 1 else 0"
    let ?in = "\<lambda>a. if a = b then ?m else 0" and ?out = "\<lambda>a. if a = s then ?m else 0"
    have k: "(free c' a, held c' a) = kept minimum (free c a + ?in a, held c a - ?out a)" for a
      using pay_ok [of s b v c rest c'] assms(4) Inr by blast
    have "?t c' a + ?out a \<le> ?t c a + ?in a \<and> ?t c a + ?in a \<le> ?t c' a + ?out a + (?d s a + ?d b a)" for a
      using k [of a] above_minimum [of c a] by (auto split: if_splits)
    then have "?S (\<lambda>a. ?t c' a + ?out a) \<le> ?S (\<lambda>a. ?t c a + ?in a)"
      "?S (\<lambda>a. ?t c a + ?in a) \<le> ?S (\<lambda>a. ?t c' a + ?out a + (?d s a + ?d b a))"
      by (intro sum_mono; blast)+
    then show ?thesis using assms(1-3) by (simp add: sum.distrib sum.delta)
  qed
  then show "?S (?t c') \<le> ?S (?t c)" "?S (?t c) \<le> ?S (?t c') + 2 * (minimum - 1)" by blast+
qed

end

section \<open>The pallet's configuration\<close>

text \<open>A configuration of the pallet: its currency keeps the contract, and decoding an encoded
  account gives the account back.\<close>

locale abc_trait = reservable_currency "free_balance T" "reserved_balance T" "reserve T"
    "unreserve_funds T" "repatriate_reserved T" "minimum_balance T"
  for T :: "('a, 'c) Trait" +
  assumes decode_encode: "decode T (encode T a) = Some a"
begin

text \<open>The laws of the currency, under the name of the configuration.\<close>

lemmas
  keeps_minimum = above_minimum and
  reserve_law = hold_ok and
  reserve_funds = hold_total and
  unreserve_law = release_moves and
  repatriate_law = pay_ok and
  repatriate_refused = pay_err and
  repatriate_account = pay_account and
  repatriate_funds = pay_total

lemma bytes_to_account_encode: "bytes_to_account T (encode T a) = Inr a"
  by (simp add: bytes_to_account_def decode_encode)

lemma encode_inject: "encode T a = encode T b \<longleftrightarrow> a = b"
  by (metis decode_encode option.inject)

end

end
