(* ===== verification/Uuid_Text.thy ===== *)
theory Uuid_Text
  imports Prelude
begin

text \<open>
  The text of a version 4 UUID, as RFC 4122 has it: what the documentation of the crate \<^verbatim>\<open>uuid\<close> promises for
  \<^verbatim>\<open>to_hyphenated().encode_lower\<close>, and the shape of the text of a random UUID. The laws of the pallet's configuration
  are stated with it, and the reference configuration computes it.
\<close>

section \<open>Hexadecimal digits\<close>

definition hex_digit :: "nat \<Rightarrow> u8" where
  "hex_digit n = (if n < 10 then of_nat (48 + n) else of_nat (87 + n))"

definition hex_lower :: "bytes \<Rightarrow> bytes" where
  "hex_lower bs = concat (map (\<lambda>b. [hex_digit (unat b div 16), hex_digit (unat b mod 16)]) bs)"

definition lower_hex :: "u8 \<Rightarrow> bool" where
  "lower_hex c \<longleftrightarrow> 48 \<le> c \<and> c \<le> 57 \<or> 97 \<le> c \<and> c \<le> 102"

definition hyphen :: u8 where "hyphen = 45"

text \<open>The sixteen bytes in groups of 4, 2, 2, 2 and 6, as digits, with hyphens between the groups.\<close>

definition hyphenated :: "bytes \<Rightarrow> bytes" where
  "hyphenated bs =
     hex_lower (take 4 bs) @ [hyphen] @ hex_lower (take 2 (drop 4 bs)) @ [hyphen] @
     hex_lower (take 2 (drop 6 bs)) @ [hyphen] @ hex_lower (take 2 (drop 8 bs)) @ [hyphen] @
     hex_lower (drop 10 bs)"

section \<open>The text of a random UUID\<close>

text \<open>One predicate for each character: the third group begins with the version 4, the fourth with the two bits of
  the variant.\<close>

definition uuid_v4_pattern :: "(u8 \<Rightarrow> bool) list" where
  "uuid_v4_pattern =
     replicate 8 lower_hex @ [\<lambda>c. c = hyphen] @ replicate 4 lower_hex @ [\<lambda>c. c = hyphen] @
     [\<lambda>c. c = 52] @ replicate 3 lower_hex @ [\<lambda>c. c = hyphen] @
     [\<lambda>c. c \<in> {56, 57, 97, 98}] @ replicate 3 lower_hex @ [\<lambda>c. c = hyphen] @ replicate 12 lower_hex"

definition uuid_v4_text :: "bytes \<Rightarrow> bool" where
  "uuid_v4_text t \<longleftrightarrow> list_all2 (\<lambda>matches c. matches c) uuid_v4_pattern t"

lemma hex_digit_lower: "n < 16 \<Longrightarrow> lower_hex (hex_digit n)"
proof -
  have "list_all (\<lambda>n. lower_hex (hex_digit n)) [0..<16]" by code_simp
  then show "n < 16 \<Longrightarrow> lower_hex (hex_digit n)" by (auto simp: list_all_iff)
qed

lemma hex_digits_lower [simp]:
  "lower_hex (hex_digit (unat (b :: u8) div 16))" "lower_hex (hex_digit (unat (b :: u8) mod 16))"
  using unsigned_less [of b, where ?'a = nat] by (auto intro!: hex_digit_lower)

lemma hex_digit_four: "hex_digit 4 = 52"
  by (simp add: hex_digit_def)

lemma hex_digit_variant: "n div 4 = 2 \<Longrightarrow> hex_digit n \<in> {56, 57, 97, 98}"
proof -
  assume "n div 4 = 2"
  then have "n = 8 \<or> n = 9 \<or> n = 10 \<or> n = 11" by presburger
  then show ?thesis by (auto simp: hex_digit_def)
qed

lemma hex_lower_digits: "list_all lower_hex (hex_lower bs)"
  by (auto simp: hex_lower_def list_all_iff)

lemma length_hex_lower [simp]: "length (hex_lower bs) = 2 * length bs"
  by (induction bs) (simp_all add: hex_lower_def)

lemma hex_lower_two:
  assumes "i + 2 \<le> length bs"
  obtains t where "hex_lower (take 2 (drop i bs)) = [hex_digit (unat (bs ! i) div 16)] @ t"
    and "list_all lower_hex t" and "length t = 3"
proof -
  have "take 2 (drop i bs) = [bs ! i, bs ! Suc i]"
    using assms by (simp add: Cons_nth_drop_Suc [symmetric] numeral_2_eq_2)
  then show thesis
    by (intro that [of "hex_digit (unat (bs ! i) mod 16) # hex_lower [bs ! Suc i]"])
      (simp_all add: hex_lower_def)
qed

lemma matches_replicate: "list_all P cs \<Longrightarrow> length cs = n \<Longrightarrow> list_all2 (\<lambda>m c. m c) (replicate n P) cs"
  by (auto simp: list_all2_conv_all_nth list_all_length)

text \<open>A UUID whose version and variant bits are set has such a text.\<close>

lemma hyphenated_v4:
  assumes "length bs = 16" and "unat (bs ! 6) div 16 = 4" and "unat (bs ! 8) div 64 = 2"
  shows "uuid_v4_text (hyphenated bs)"
proof -
  have "unat (bs ! 8) div 16 div 4 = 2" using assms(3) by (simp add: div_mult2_eq [symmetric])
  then have v: "hex_digit (unat (bs ! 8) div 16) \<in> {56, 57, 97, 98}" by (rule hex_digit_variant)
  have f: "hex_digit (unat (bs ! 6) div 16) = 52" using assms(2) by (simp add: hex_digit_four)
  obtain t3 where t3: "hex_lower (take 2 (drop 6 bs)) = [hex_digit (unat (bs ! 6) div 16)] @ t3"
    "list_all lower_hex t3" "length t3 = 3" by (rule hex_lower_two [of 6 bs]) (use assms(1) in simp)
  obtain t4 where t4: "hex_lower (take 2 (drop 8 bs)) = [hex_digit (unat (bs ! 8) div 16)] @ t4"
    "list_all lower_hex t4" "length t4 = 3" by (rule hex_lower_two [of 8 bs]) (use assms(1) in simp)
  show ?thesis
    unfolding uuid_v4_text_def uuid_v4_pattern_def hyphenated_def t3(1) t4(1) append_assoc
    by (intro list_all2_appendI matches_replicate hex_lower_digits t3(2) t4(2))
      (use assms(1) t3(3) t4(3) v f in simp_all)
qed

text \<open>Such a text has 36 characters, all of them ASCII letters, digits or hyphens.\<close>

lemma uuid_v4_length: "uuid_v4_text t \<Longrightarrow> length t = 36"
  by (auto simp: uuid_v4_text_def uuid_v4_pattern_def dest: list_all2_lengthD)

definition id_char :: "u8 \<Rightarrow> bool" where
  "id_char c \<longleftrightarrow> lower_hex c \<or> c = hyphen"

lemma uuid_v4_chars: "uuid_v4_text t \<Longrightarrow> list_all id_char t"
proof -
  assume "uuid_v4_text t"
  moreover have "list_all (\<lambda>m. \<forall>c. m c \<longrightarrow> id_char c) uuid_v4_pattern"
    by (simp add: uuid_v4_pattern_def id_char_def list_all_iff) (auto simp: lower_hex_def hyphen_def)
  ultimately show ?thesis
    unfolding uuid_v4_text_def by (auto simp: list_all2_conv_all_nth list_all_length)
qed

section \<open>Setting the bits\<close>

definition rfc4122_variant :: "bytes \<Rightarrow> bytes" where
  "rfc4122_variant bs = bs[8 := of_nat (unat (bs ! 8) mod 64 + 128)]"

definition random_version :: "bytes \<Rightarrow> bytes" where
  "random_version bs = bs[6 := of_nat (unat (bs ! 6) mod 16 + 64)]"

lemma set_bits:
  "unat (of_nat (n mod 64 + 128) :: u8) div 64 = 2" "unat (of_nat (n mod 16 + 64) :: u8) div 16 = 4"
proof -
  have "n mod 64 < 64" "n mod 16 < 16" by simp_all
  then show "unat (of_nat (n mod 64 + 128) :: u8) div 64 = 2" "unat (of_nat (n mod 16 + 64) :: u8) div 16 = 4"
    unfolding unat_of_nat by (simp_all add: take_bit_nat_eq_self)
qed

end
