(* ===== verification/Reference_Runtime.thy ===== *)
theory Reference_Runtime
  imports Currency Uuid_Text
begin

text \<open>
  A configuration of the pallet in which everything computes, on the account type the runtime uses
  (\<^verbatim>\<open>AccountId32\<close>). The ledger implements the documented behaviour of a reservable currency, the
  codec is the one of a 32-byte array, and the UUID text is the one of RFC 4122. The payload encoding and the hash have
  no law the pallet relies on beyond the hash's size; simple functions stand for them. The
  configuration shows that the contracts of theory \<open>Currency\<close> can hold together, and the witnesses
  of the properties run on it.
\<close>

section \<open>A ledger\<close>

record 'a ledger =
  l_free :: "'a \<Rightarrow> Balance"
  l_reserved :: "'a \<Rightarrow> Balance"

text \<open>The existential deposit of the runtime. An entry below it is read as nothing.\<close>

definition ref_minimum :: Balance where
  "ref_minimum = 500"

definition ledger_free :: "'a ledger \<Rightarrow> 'a \<Rightarrow> Balance" where
  "ledger_free c a = fst (kept ref_minimum (l_free c a, l_reserved c a))"

definition ledger_reserved :: "'a ledger \<Rightarrow> 'a \<Rightarrow> Balance" where
  "ledger_reserved c a = snd (kept ref_minimum (l_free c a, l_reserved c a))"

definition ledger_put :: "'a \<Rightarrow> Balance \<Rightarrow> Balance \<Rightarrow> 'a ledger \<Rightarrow> 'a ledger" where
  "ledger_put who f h c = c\<lparr>l_free := (l_free c)(who := f), l_reserved := (l_reserved c)(who := h)\<rparr>"

definition ledger_reserve :: "'a \<Rightarrow> Balance \<Rightarrow> 'a ledger \<Rightarrow> DispatchError + 'a ledger" where
  "ledger_reserve who v c =
     (if ledger_free c who < v then Inl (Foreign 5 3)
      else Inr (ledger_put who (ledger_free c who - v) (ledger_reserved c who + v) c))"

definition ledger_unreserve :: "'a \<Rightarrow> Balance \<Rightarrow> 'a ledger \<Rightarrow> Balance \<times> 'a ledger" where
  "ledger_unreserve who v c =
     (let m = min v (ledger_reserved c who)
      in (v - m, ledger_put who (ledger_free c who + m) (ledger_reserved c who - m) c))"

definition ledger_repatriate ::
    "'a \<Rightarrow> 'a \<Rightarrow> Balance \<Rightarrow> 'a ledger \<Rightarrow> (DispatchError + Balance) \<times> 'a ledger" where
  "ledger_repatriate s b v c =
     (if ledger_free c b = 0 \<and> ledger_reserved c b = 0 then (Inl (Foreign 5 8), c)
      else let m = min v (ledger_reserved c s);
               c1 = ledger_put b (ledger_free c b + m) (ledger_reserved c b) c
           in (Inr (v - m), ledger_put s (ledger_free c1 s) (ledger_reserved c1 s - m) c1))"

text \<open>Reading after writing.\<close>

lemma ledger_above: "ledger_free c a + ledger_reserved c a = 0 \<or> ref_minimum \<le> ledger_free c a + ledger_reserved c a"
  by (auto simp: ledger_free_def ledger_reserved_def)

lemma ledger_put_read:
  "ledger_free (ledger_put who f h c) a = (if a = who then fst (kept ref_minimum (f, h)) else ledger_free c a)"
  "ledger_reserved (ledger_put who f h c) a = (if a = who then snd (kept ref_minimum (f, h)) else ledger_reserved c a)"
  by (simp_all add: ledger_put_def ledger_free_def ledger_reserved_def)

lemma ledger_reserve_law:
  "ledger_reserve who v c = Inr c' \<Longrightarrow> v \<le> ledger_free c who \<and>
     ledger_free c' = (ledger_free c)(who := ledger_free c who - v) \<and>
     ledger_reserved c' = (ledger_reserved c)(who := ledger_reserved c who + v)"
  using ledger_above [of c who] by (auto simp: ledger_reserve_def fun_eq_iff ledger_put_read split: if_splits)

lemma ledger_unreserve_law:
  "ledger_unreserve who v c = (rest, c') \<Longrightarrow> rest = v - min v (ledger_reserved c who) \<and>
     ledger_free c' = (ledger_free c)(who := ledger_free c who + min v (ledger_reserved c who)) \<and>
     ledger_reserved c' = (ledger_reserved c)(who := ledger_reserved c who - min v (ledger_reserved c who))"
  using ledger_above [of c who] by (auto simp: ledger_unreserve_def Let_def fun_eq_iff ledger_put_read)

lemma ledger_repatriate_law:
  assumes "ledger_repatriate s b v c = (Inr rest, c')"
  shows "rest = v - min v (ledger_reserved c s) \<and>
     (\<forall>a. (ledger_free c' a, ledger_reserved c' a) = kept ref_minimum
        (ledger_free c a + (if a = b then min v (ledger_reserved c s) else 0),
         ledger_reserved c a - (if a = s then min v (ledger_reserved c s) else 0)))"
proof -
  let ?m = "min v (ledger_reserved c s)"
  let ?c1 = "ledger_put b (ledger_free c b + ?m) (ledger_reserved c b) c"
  have c: "rest = v - ?m" "c' = ledger_put s (ledger_free ?c1 s) (ledger_reserved ?c1 s - ?m) ?c1"
    "ledger_free c b \<noteq> 0 \<or> ledger_reserved c b \<noteq> 0"
    using assms by (auto simp: ledger_repatriate_def Let_def split: if_splits)
  have "(ledger_free c' a, ledger_reserved c' a) = kept ref_minimum
      (ledger_free c a + (if a = b then ?m else 0), ledger_reserved c a - (if a = s then ?m else 0))" for a
    using ledger_above [of c a] ledger_above [of c b] c(3) by (auto simp: c(2) ledger_put_read)
  with c(1) show ?thesis by blast
qed

definition account_decode :: "bytes \<Rightarrow> AccountId32 option" where
  "account_decode bs = (if length bs < 32 then None else Some (account_of (take 32 bs)))"

definition ref_trait :: "(AccountId32, AccountId32 ledger) Trait" where
  "ref_trait =
     \<lparr> encode = account_bytes, decode = account_decode,
       default_account = account_of (replicate 32 0),
       free_balance = ledger_free, reserved_balance = ledger_reserved, reserve = ledger_reserve,
       unreserve_funds = ledger_unreserve, repatriate_reserved = ledger_repatriate,
       minimum_balance = ref_minimum,
       encode_payload = (\<lambda>(seed, who, ix). seed @ account_bytes who),
       blake2_128 = (\<lambda>bs. take 16 (bs @ replicate 16 0)),
       uuid_set_variant = (\<lambda>_. rfc4122_variant), uuid_set_version = (\<lambda>_. random_version),
       uuid_encode_lower = hyphenated \<rparr>"

interpretation ledger: reservable_currency ledger_free ledger_reserved ledger_reserve ledger_unreserve
  ledger_repatriate ref_minimum
proof unfold_locales
  show "ledger_free c who < v \<Longrightarrow> \<exists>e. ledger_reserve who v c = Inl e" for c who v
    by (simp add: ledger_reserve_def)
  show "ledger_repatriate s b v c = (Inl e, c') \<Longrightarrow> ledger_free c' = ledger_free c \<and> ledger_reserved c' = ledger_reserved c"
    for s b v c e c' by (auto simp: ledger_repatriate_def Let_def split: if_splits)
qed (rule ledger_above, (erule ledger_reserve_law ledger_unreserve_law ledger_repatriate_law)+)

lemma account_decode_bytes: "account_decode (account_bytes a) = Some a"
  by (simp add: account_decode_def)

interpretation rt: abc_trait ref_trait
proof -
  have "abc_trait_axioms ref_trait"
    by (rule abc_trait_axioms.intro) (simp add: ref_trait_def account_decode_bytes)
  then show "abc_trait ref_trait"
    by (rule abc_trait.intro [rotated]) (simp add: ref_trait_def ledger.reservable_currency_axioms)
qed

section \<open>Accounts and balances of the witnesses\<close>

definition alice :: AccountId32 where "alice = account_of (replicate 32 1)"
definition bob :: AccountId32 where "bob = account_of (replicate 32 2)"
definition carol :: AccountId32 where "carol = account_of (replicate 32 3)"

definition demo_ledger :: "AccountId32 ledger" where
  "demo_ledger = \<lparr>l_free = (\<lambda>_. 1000), l_reserved = (\<lambda>_. 0)\<rparr>"

end
