(* ===== verification/Delegation.thy ===== *)
theory Delegation
  imports Currency Reference_Runtime
begin

text \<open>
  Delegates: the dispatchables \<^verbatim>\<open>request_delegate\<close>, \<^verbatim>\<open>update_delegate_status\<close> and \<^verbatim>\<open>unreserve\<close> of
  \<^verbatim>\<open>pallets/abc-demo/src/lib.rs\<close>, what each does on every branch, and the life of a delegate
  entry: absent, requested (\<^const>\<open>False\<close>), ready (\<^const>\<open>True\<close>).

  A dispatchable returns its result together with the state it leaves. In the version of FRAME the
  lock file pins, the writes made before an error are kept, so an error carries a state too.
\<close>

section \<open>Dispatchables\<close>

definition request_delegate ::
    "'a Origin \<Rightarrow> DelegatorName \<Rightarrow> NetAddress \<Rightarrow> ('a, 'c) chain \<Rightarrow> DispatchResult \<times> ('a, 'c) chain"
  where
  "request_delegate origin delegator_name net_address w =
     (case ensure_signed origin of
        Inl e \<Rightarrow> (Inl e, w)
      | Inr sender \<Rightarrow>
          if contains_key (Delegates w) sender then (Inl (Abc ClientAlreadyExists), w)
          else
            let w1 = w\<lparr>DelegatesApplys :=
                         push_entry (DelegatesApplys w) (block_number w) (delegator_name, sender)\<rparr>;
                w2 = w1\<lparr>Delegates := storage_insert (Delegates w1) sender False\<rparr>;
                w3 = w2\<lparr>DelegateNetAddress :=
                          storage_insert (DelegateNetAddress w2) sender net_address\<rparr>;
                w4 = w3\<lparr>DelegateAccounts :=
                          storage_insert (DelegateAccounts w3) delegator_name sender\<rparr>
            in (Inr (), deposit_event (DelegateRequested sender delegator_name) w4))"

definition update_delegate_status ::
    "'a Origin \<Rightarrow> 'a \<Rightarrow> ('a, 'c) chain \<Rightarrow> DispatchResult \<times> ('a, 'c) chain" where
  "update_delegate_status origin updater w =
     (case ensure_signed origin of
        Inl e \<Rightarrow> (Inl e, w)
      | Inr sender \<Rightarrow>
          if sender \<noteq> updater then (Inl (Abc NoRightToUpdateDelegate), w)
          else if \<not> contains_key (Delegates w) sender then (Inl (Abc ClientNotExist), w)
          else (Inr (), deposit_event (DelegateUpdated sender)
                          (w\<lparr>Delegates := storage_insert (Delegates w) sender True\<rparr>)))"

text \<open>\<^verbatim>\<open>unreserve\<close> binds its origin and never looks at it.\<close>

definition unreserve ::
    "('a, 'c) Trait \<Rightarrow> 'a Origin \<Rightarrow> DelegatorName \<Rightarrow> 'a \<Rightarrow> ('a, 'c) chain \<Rightarrow>
     DispatchResult \<times> ('a, 'c) chain" where
  "unreserve T origin delegator_name client w =
     (let w1 = w\<lparr>Delegates := storage_remove (Delegates w) client\<rparr>;
          w2 = w1\<lparr>ClientDelegate := storage_remove (ClientDelegate w1) client\<rparr>;
          delegator = storage_get (default_account T) (DelegateAccounts w2) delegator_name;
          w3 = w2\<lparr>DelegateNetAddress := storage_remove (DelegateNetAddress w2) delegator\<rparr>
      in (Inr (), w3\<lparr>DelegateAccounts := storage_remove (DelegateAccounts w3) delegator_name\<rparr>))"

lemmas delegation_defs = request_delegate_def update_delegate_status_def unreserve_def

section \<open>What each dispatchable leaves alone\<close>

lemma request_delegate_frame [frame_simps]:
  "Errands (snd (request_delegate origin n addr w)) = Errands w"
  "CompletedErrands (snd (request_delegate origin n addr w)) = CompletedErrands w"
  "ClientTaskFee (snd (request_delegate origin n addr w)) = ClientTaskFee w"
  "ClientDelegate (snd (request_delegate origin n addr w)) = ClientDelegate w"
  "Tasks (snd (request_delegate origin n addr w)) = Tasks w"
  "ProcessingErrands (snd (request_delegate origin n addr w)) = ProcessingErrands w"
  "DevelopmentMode (snd (request_delegate origin n addr w)) = DevelopmentMode w"
  "UpdateResultAccounts (snd (request_delegate origin n addr w)) = UpdateResultAccounts w"
  "block_number (snd (request_delegate origin n addr w)) = block_number w"
  "currency (snd (request_delegate origin n addr w)) = currency w"
  by (simp_all add: request_delegate_def Let_def split: sum.split)

lemma update_delegate_status_frame [frame_simps]:
  "Errands (snd (update_delegate_status origin u w)) = Errands w"
  "CompletedErrands (snd (update_delegate_status origin u w)) = CompletedErrands w"
  "ClientTaskFee (snd (update_delegate_status origin u w)) = ClientTaskFee w"
  "ClientDelegate (snd (update_delegate_status origin u w)) = ClientDelegate w"
  "DelegateNetAddress (snd (update_delegate_status origin u w)) = DelegateNetAddress w"
  "DelegateAccounts (snd (update_delegate_status origin u w)) = DelegateAccounts w"
  "Tasks (snd (update_delegate_status origin u w)) = Tasks w"
  "DelegatesApplys (snd (update_delegate_status origin u w)) = DelegatesApplys w"
  "ProcessingErrands (snd (update_delegate_status origin u w)) = ProcessingErrands w"
  "DevelopmentMode (snd (update_delegate_status origin u w)) = DevelopmentMode w"
  "UpdateResultAccounts (snd (update_delegate_status origin u w)) = UpdateResultAccounts w"
  "block_number (snd (update_delegate_status origin u w)) = block_number w"
  "currency (snd (update_delegate_status origin u w)) = currency w"
  by (simp_all add: update_delegate_status_def split: sum.split)

lemma unreserve_frame [frame_simps]:
  "Errands (snd (unreserve T origin n c w)) = Errands w"
  "CompletedErrands (snd (unreserve T origin n c w)) = CompletedErrands w"
  "ClientTaskFee (snd (unreserve T origin n c w)) = ClientTaskFee w"
  "Tasks (snd (unreserve T origin n c w)) = Tasks w"
  "DelegatesApplys (snd (unreserve T origin n c w)) = DelegatesApplys w"
  "ProcessingErrands (snd (unreserve T origin n c w)) = ProcessingErrands w"
  "DevelopmentMode (snd (unreserve T origin n c w)) = DevelopmentMode w"
  "UpdateResultAccounts (snd (unreserve T origin n c w)) = UpdateResultAccounts w"
  "block_number (snd (unreserve T origin n c w)) = block_number w"
  "currency (snd (unreserve T origin n c w)) = currency w"
  by (simp_all add: unreserve_def Let_def)

section \<open>Outcome of each dispatchable\<close>

lemma request_delegate_result [guard_simps]:
  "fst (request_delegate origin n addr w) =
     (case origin of
        Signed s \<Rightarrow> if contains_key (Delegates w) s then Inl (Abc ClientAlreadyExists) else Inr ()
      | _ \<Rightarrow> Inl BadOrigin)"
  by (cases origin) (auto simp: request_delegate_def Let_def)

lemma update_delegate_status_result [guard_simps]:
  "fst (update_delegate_status origin u w) =
     (case origin of
        Signed s \<Rightarrow> if s \<noteq> u then Inl (Abc NoRightToUpdateDelegate)
                    else if contains_key (Delegates w) s then Inr () else Inl (Abc ClientNotExist)
      | _ \<Rightarrow> Inl BadOrigin)"
  by (cases origin) (auto simp: update_delegate_status_def)

lemma delegation_err_unchanged:
  "fst (request_delegate origin n addr w) = Inl e \<Longrightarrow> snd (request_delegate origin n addr w) = w"
  "fst (update_delegate_status origin u w) = Inl e \<Longrightarrow> snd (update_delegate_status origin u w) = w"
  by (auto simp: request_delegate_def update_delegate_status_def Let_def
      split: sum.splits if_splits)

end
