(* ===== verification/Errand_Flow.thy ===== *)
theory Errand_Flow
  imports Currency Reference_Runtime
begin

text \<open>
  Errands: the dispatchables \<^verbatim>\<open>begin_task\<close>, \<^verbatim>\<open>init_errand\<close> and \<^verbatim>\<open>update_errand\<close> of
  \<^verbatim>\<open>pallets/abc-demo/src/lib.rs\<close> with the functions they call, and what each does on every
  branch.
\<close>

section \<open>Helpers of the module\<close>

definition add_processing :: "Cid \<Rightarrow> ('a, 'c) chain \<Rightarrow> ('a, 'c) chain" where
  "add_processing description_cid w =
     w\<lparr>ProcessingErrands := ProcessingErrands w @ [description_cid]\<rparr>"

definition remove_processing :: "Cid \<Rightarrow> ('a, 'c) chain \<Rightarrow> ('a, 'c) chain" where
  "remove_processing description_cid w =
     w\<lparr>ProcessingErrands := filter (\<lambda>item. item \<noteq> description_cid) (ProcessingErrands w)\<rparr>"

text \<open>The two nested loops of \<^verbatim>\<open>allow_to_update_result\<close>, outer over the configured accounts.\<close>

fun allowed_by :: "AccountId32 \<Rightarrow> AccountId32 list \<Rightarrow> bool" where
  "allowed_by a [] = False"
| "allowed_by a (i # accounts) = (if a = i then True else allowed_by a accounts)"

fun any_allowed :: "AccountId32 list \<Rightarrow> AccountId32 list \<Rightarrow> bool" where
  "any_allowed [] accounts = False"
| "any_allowed (a # as) accounts = (if allowed_by a accounts then True else any_allowed as accounts)"

definition allow_to_update_result :: "AccountId32 list \<Rightarrow> ('a, 'c) chain \<Rightarrow> bool" where
  "allow_to_update_result accounts w = any_allowed (UpdateResultAccounts w) accounts"

text \<open>Reserving the fee of a task, as both branches of \<^verbatim>\<open>begin_task\<close> do it.\<close>

definition reserve_task_fee ::
    "('a, 'c) Trait \<Rightarrow> 'a \<Rightarrow> u32 \<Rightarrow> ('a, 'c) chain \<Rightarrow> DispatchResult \<times> ('a, 'c) chain" where
  "reserve_task_fee T client fee w =
     (if \<not> 0 < fee then (Inl (Abc InsufficientFee), w)
      else case reserve T client (unat fee) (currency w) of
             Inl e \<Rightarrow> (Inl e, w)
           | Inr cur \<Rightarrow>
               (let w1 = w\<lparr>currency := cur\<rparr>
                in (Inr (), w1\<lparr>ClientTaskFee := storage_insert (ClientTaskFee w1) client fee\<rparr>)))"

text \<open>
  Entering a task in the list of its block. Where the block has a list, it is taken out of storage
  first and only put back once every check has passed.
\<close>

definition enter_task ::
    "('a, 'c) Trait \<Rightarrow> 'a \<Rightarrow> TaskInfo \<Rightarrow> ('a, 'c) chain \<Rightarrow> DispatchResult \<times> ('a, 'c) chain" where
  "enter_task T client task_info w =
     (let height = block_number w; fee = t_fee task_info
      in if contains_key (Tasks w) height
         then case storage_take [] (Tasks w) height of
                (task_array, tasks) \<Rightarrow>
                  let w1 = w\<lparr>Tasks := tasks\<rparr>
                  in if list_ex (\<lambda>task. t_description_cid task = t_description_cid task_info) task_array
                     then (Inl (Abc ErrandAlreadyExecuted), w1)
                     else case reserve_task_fee T client fee w1 of
                            (Inl e, w2) \<Rightarrow> (Inl e, w2)
                          | (Inr _, w2) \<Rightarrow>
                              (Inr (), w2\<lparr>Tasks := storage_insert (Tasks w2) height
                                                     (task_array @ [task_info])\<rparr>)
         else case reserve_task_fee T client fee w of
                (Inl e, w1) \<Rightarrow> (Inl e, w1)
              | (Inr _, w1) \<Rightarrow> (Inr (), w1\<lparr>Tasks := storage_insert (Tasks w1) height [task_info]\<rparr>))"

section \<open>Dispatchables\<close>

definition begin_task ::
    "('a, 'c) Trait \<Rightarrow> 'a Origin \<Rightarrow> DelegatorName \<Rightarrow> Cid \<Rightarrow> u32 \<Rightarrow> ('a, 'c) chain \<Rightarrow>
     DispatchResult \<times> ('a, 'c) chain" where
  "begin_task T origin delegator_name description_cid fee w =
     (case ensure_signed origin of
        Inl e \<Rightarrow> (Inl e, w)
      | Inr client \<Rightarrow>
          if \<not> contains_key (DelegateAccounts w) delegator_name
          then (Inl (Abc ClientDelegatorNotExist), w)
          else if \<not> contains_key (Delegates w)
                     (storage_get (default_account T) (DelegateAccounts w) delegator_name)
          then (Inl (Abc ClientNotExist), w)
          else
            let delegator = storage_get (default_account T) (DelegateAccounts w) delegator_name
            in if \<not> storage_get False (Delegates w) delegator then (Inl (Abc ClientNotReady), w)
               else if contains_key (Errands w) description_cid
               then (Inl (Abc ErrandAlreadyExecuted), w)
               else
                 let task_info = \<lparr> t_client = encode T client, t_delegator = delegator_name,
                                   t_description_cid = description_cid,
                                   t_errand_id = generate_errand_id T delegator w, t_fee = fee \<rparr>
                 in case enter_task T client task_info w of
                      (Inl e, w1) \<Rightarrow> (Inl e, w1)
                    | (Inr _, w1) \<Rightarrow>
                        (Inr (), deposit_event (TaskBegan client description_cid delegator)
                           (w1\<lparr>ClientDelegate := storage_insert (ClientDelegate w1) client delegator\<rparr>)))"

definition init_errand ::
    "('a, 'c) Trait \<Rightarrow> 'a Origin \<Rightarrow> 'a \<Rightarrow> ErrandId \<Rightarrow> Cid \<Rightarrow> ('a, 'c) chain \<Rightarrow>
     DispatchResult \<times> ('a, 'c) chain" where
  "init_errand T origin client errand_id description_cid w =
     (case ensure_signed origin of
        Inl e \<Rightarrow> (Inl e, w)
      | Inr sender \<Rightarrow>
          if \<not> contains_key (ClientDelegate w) client then (Inl (Abc ClientDelegatorNotExist), w)
          else if sender \<noteq> storage_get (default_account T) (ClientDelegate w) client
          then (Inl (Abc ClientDelegatorNotExist), w)
          else
            let errand = \<lparr> e_account_id = encode T client, e_errand_id = errand_id,
                           e_description_cid = description_cid, e_status = Processing,
                           e_result = [] \<rparr>;
                w1 = w\<lparr>Errands := storage_insert (Errands w) description_cid errand\<rparr>
            in (Inr (), deposit_event (ErrandInited client description_cid)
                          (add_processing description_cid w1)))"

text \<open>Paying the delegate out of the client's reserve; the result is only logged.\<close>

definition settle_errand ::
    "('a, 'c) Trait \<Rightarrow> 'a \<Rightarrow> ('a, 'c) chain \<Rightarrow> ('a, 'c) chain" where
  "settle_errand T c w =
     (let delegator = storage_get (default_account T) (ClientDelegate w) c;
          fee = storage_get 0 (ClientTaskFee w) c
      in case repatriate_reserved T c delegator (unat fee) (currency w) of
           (_, cur) \<Rightarrow> w\<lparr>currency := cur\<rparr>)"

definition complete_errand :: "Cid \<Rightarrow> Errand \<Rightarrow> Errand" where
  "complete_errand res errand = errand\<lparr>e_status := Done, e_result := res\<rparr>"

definition update_errand_result ::
    "('a, 'c) Trait \<Rightarrow> Cid \<Rightarrow> bytes \<Rightarrow> ('a, 'c) chain \<Rightarrow> ('a, 'c) chain" where
  "update_errand_result T description_cid res w =
     (let w1 = w\<lparr>Errands := (Errands w)(description_cid :=
                   map_option (complete_errand res) (Errands w description_cid))\<rparr>;
          w2 = remove_processing description_cid w1
      in case Errands w2 description_cid of
           Some errand \<Rightarrow>
             (case bytes_to_account T (e_account_id errand) of
                Inr c \<Rightarrow> settle_errand T c w2
              | Inl _ \<Rightarrow> w2)
         | None \<Rightarrow> w2)"

definition update_errand ::
    "('a, 'c) Trait \<Rightarrow> 'a Origin \<Rightarrow> Cid \<Rightarrow> bytes \<Rightarrow> ('a, 'c) chain \<Rightarrow>
     DispatchResult \<times> ('a, 'c) chain" where
  "update_errand T origin description_cid res w =
     (case ensure_signed origin of
        Inl e \<Rightarrow> (Inl e, w)
      | Inr sender \<Rightarrow>
          if \<not> contains_key (Errands w) description_cid then (Inl (Abc ErrandTaskNotExist), w)
          else case account_to_bytes T sender of
            Inl e \<Rightarrow> (Inl (Abc e), w)
          | Inr sender_account \<Rightarrow>
              if \<not> allow_to_update_result [sender_account] w
              then (Inl (Abc NoRightToUpdateErrand), w)
              else if DevelopmentMode w
              then (Inr (), deposit_event (ErrandUpdated description_cid res)
                              (update_errand_result T description_cid res w))
              else
                let w1 = w\<lparr>CompletedErrands := push_entry (CompletedErrands w) description_cid sender\<rparr>
                in if (case Errands w1 description_cid of
                         Some errand \<Rightarrow> e_status errand \<noteq> Processing
                       | None \<Rightarrow> False)
                   then (Inl (Abc ErrandTaskCompleted), w1)
                   else if MIN_UPDATE_RESULT_ACCOUNT
                             \<le> length (storage_get [] (CompletedErrands w1) description_cid)
                   then (Inr (), deposit_event (ErrandUpdated description_cid res)
                                   (update_errand_result T description_cid res w1))
                   else (Inr (), w1))"

lemmas errand_defs = begin_task_def init_errand_def update_errand_def enter_task_def
  reserve_task_fee_def add_processing_def remove_processing_def settle_errand_def
  update_errand_result_def complete_errand_def

section \<open>Authorisation\<close>

lemma allowed_by_iff: "allowed_by a accounts \<longleftrightarrow> a \<in> set accounts"
  by (induction accounts) auto

lemma any_allowed_iff: "any_allowed as accounts \<longleftrightarrow> set as \<inter> set accounts \<noteq> {}"
  by (induction as) (auto simp: allowed_by_iff)

text \<open>The nested loops decide whether the two lists of accounts meet.\<close>

lemma allow_to_update_result_iff:
  "allow_to_update_result accounts w \<longleftrightarrow> set (UpdateResultAccounts w) \<inter> set accounts \<noteq> {}"
  by (simp add: allow_to_update_result_def any_allowed_iff)

text \<open>An account that may vote on results: its encoding is 32 bytes long and configured.\<close>

definition approver :: "('a, 'c) Trait \<Rightarrow> ('a, 'c) chain \<Rightarrow> 'a \<Rightarrow> bool" where
  "approver T w a \<longleftrightarrow>
     length (encode T a) = 32 \<and> account_of (encode T a) \<in> set (UpdateResultAccounts w)"

lemma allow_single [simp]:
  "allow_to_update_result [acc] w \<longleftrightarrow> acc \<in> set (UpdateResultAccounts w)"
  by (simp add: allow_to_update_result_iff)

section \<open>Entering a task\<close>

text \<open>The tasks of the current block, and the state once they have been taken out of storage.\<close>

abbreviation block_tasks :: "('a, 'c) chain \<Rightarrow> TaskInfo list" where
  "block_tasks w \<equiv> storage_get [] (Tasks w) (block_number w)"

abbreviation without_tasks :: "('a, 'c) chain \<Rightarrow> ('a, 'c) chain" where
  "without_tasks w \<equiv> w\<lparr>Tasks := storage_remove (Tasks w) (block_number w)\<rparr>"

lemma without_tasks_absent: "\<not> contains_key (Tasks w) (block_number w) \<Longrightarrow> without_tasks w = w"
  by (simp add: contains_key_def storage_remove_def fun_upd_idem)

lemma without_tasks_insert:
  "storage_insert (storage_remove m k) k v = storage_insert m k v"
  by (simp add: storage_insert_def storage_remove_def)

text \<open>Both branches in one: take the list, check, reserve, and put the longer list back.\<close>

lemma enter_task_eq:
  "enter_task T client ti w =
     (if t_description_cid ti \<in> t_description_cid ` set (block_tasks w)
      then (Inl (Abc ErrandAlreadyExecuted), without_tasks w)
      else case reserve_task_fee T client (t_fee ti) (without_tasks w) of
             (Inl e, w2) \<Rightarrow> (Inl e, w2)
           | (Inr _, w2) \<Rightarrow>
               (Inr (), w2\<lparr>Tasks := storage_insert (Tasks w2) (block_number w) (block_tasks w @ [ti])\<rparr>))"
proof (cases "contains_key (Tasks w) (block_number w)")
  case True
  then show ?thesis
    by (simp add: enter_task_def Let_def storage_take_def list_ex_image)
next
  case False
  then show ?thesis
    by (simp add: enter_task_def Let_def without_tasks_absent storage_get_absent
        split: prod.split sum.split)
qed

text \<open>Every branch, with the state it leaves.\<close>

lemma enter_task_outcome:
  "enter_task T client ti w =
     (if t_description_cid ti \<in> t_description_cid ` set (block_tasks w)
      then (Inl (Abc ErrandAlreadyExecuted), without_tasks w)
      else if \<not> 0 < t_fee ti then (Inl (Abc InsufficientFee), without_tasks w)
      else case reserve T client (unat (t_fee ti)) (currency w) of
             Inl e \<Rightarrow> (Inl e, without_tasks w)
           | Inr cur \<Rightarrow>
               (Inr (), w\<lparr> Tasks := storage_insert (Tasks w) (block_number w) (block_tasks w @ [ti]),
                           ClientTaskFee := storage_insert (ClientTaskFee w) client (t_fee ti),
                           currency := cur \<rparr>))"
  by (simp add: enter_task_eq reserve_task_fee_def Let_def without_tasks_insert split: sum.split)

section \<open>Outcome of begin\_task\<close>

definition task_of :: "('a, 'c) Trait \<Rightarrow> ('a, 'c) chain \<Rightarrow> 'a \<Rightarrow> DelegatorName \<Rightarrow> 'a \<Rightarrow> Cid \<Rightarrow> u32 \<Rightarrow> TaskInfo"
  where
  "task_of T w client n d cid fee =
     \<lparr> t_client = encode T client, t_delegator = n, t_description_cid = cid,
       t_errand_id = generate_errand_id T d w, t_fee = fee \<rparr>"

text \<open>The state a successful \<^verbatim>\<open>begin_task\<close> leaves.\<close>

definition task_begun ::
    "('a, 'c) Trait \<Rightarrow> 'a \<Rightarrow> DelegatorName \<Rightarrow> 'a \<Rightarrow> Cid \<Rightarrow> u32 \<Rightarrow> 'c \<Rightarrow> ('a, 'c) chain \<Rightarrow> ('a, 'c) chain"
  where
  "task_begun T client n d cid fee cur w =
     deposit_event (TaskBegan client cid d)
       (w\<lparr> Tasks := storage_insert (Tasks w) (block_number w)
                     (block_tasks w @ [task_of T w client n d cid fee]),
           ClientTaskFee := storage_insert (ClientTaskFee w) client fee,
           ClientDelegate := storage_insert (ClientDelegate w) client d,
           currency := cur \<rparr>)"

definition task_startable ::
    "('a, 'c) Trait \<Rightarrow> 'a \<Rightarrow> DelegatorName \<Rightarrow> 'a \<Rightarrow> Cid \<Rightarrow> u32 \<Rightarrow> ('a, 'c) chain \<Rightarrow> bool" where
  "task_startable T client n d cid fee w \<longleftrightarrow>
     DelegateAccounts w n = Some d \<and> Delegates w d = Some True \<and> Errands w cid = None \<and>
     cid \<notin> t_description_cid ` set (block_tasks w) \<and> 0 < fee"

lemma begin_task_signed:
  "begin_task T (Signed client) n cid fee w =
     (case DelegateAccounts w n of
        None \<Rightarrow> (Inl (Abc ClientDelegatorNotExist), w)
      | Some d \<Rightarrow>
          (case Delegates w d of
             None \<Rightarrow> (Inl (Abc ClientNotExist), w)
           | Some ready \<Rightarrow>
               if \<not> ready then (Inl (Abc ClientNotReady), w)
               else if Errands w cid \<noteq> None then (Inl (Abc ErrandAlreadyExecuted), w)
               else case enter_task T client (task_of T w client n d cid fee) w of
                      (Inl e, w1) \<Rightarrow> (Inl e, w1)
                    | (Inr _, w1) \<Rightarrow>
                        (Inr (), deposit_event (TaskBegan client cid d)
                           (w1\<lparr>ClientDelegate := storage_insert (ClientDelegate w1) client d\<rparr>))))"
  by (simp add: begin_task_def Let_def contains_key_def storage_get_def task_of_def
      split: option.split)

lemma begin_task_ok_iff:
  "begin_task T origin n cid fee w = (Inr (), w') \<longleftrightarrow>
     (\<exists>client d cur. origin = Signed client \<and> task_startable T client n d cid fee w \<and>
        reserve T client (unat fee) (currency w) = Inr cur \<and>
        w' = task_begun T client n d cid fee cur w)"
proof (cases origin)
  case (Signed client)
  then show ?thesis
    by (auto simp: begin_task_signed task_startable_def task_begun_def enter_task_outcome task_of_def
        split: option.splits if_splits sum.splits)
qed (simp_all add: begin_task_def)

text \<open>A failed \<^verbatim>\<open>begin_task\<close> either changes nothing or drops the task list of the current block.\<close>

lemma begin_task_err_state:
  "begin_task T origin n cid fee w = (Inl e, w') \<Longrightarrow> w' = w \<or> w' = without_tasks w"
proof (cases origin)
  case (Signed client)
  moreover assume "begin_task T origin n cid fee w = (Inl e, w')"
  ultimately show ?thesis
    by (auto simp: begin_task_signed enter_task_outcome
        split: option.splits if_splits sum.splits)
qed (simp_all add: begin_task_def)

lemma begin_task_cases:
  obtains (ok) client d cur where "origin = Signed client"
      and "task_startable T client n d cid fee w"
      and "reserve T client (unat fee) (currency w) = Inr cur"
      and "begin_task T origin n cid fee w = (Inr (), task_begun T client n d cid fee cur w)"
  | (err) e where "begin_task T origin n cid fee w = (Inl e, w)"
  | (lost) e where "begin_task T origin n cid fee w = (Inl e, without_tasks w)"
proof (cases "begin_task T origin n cid fee w")
  case (Pair r w')
  show thesis
  proof (cases r)
    case (Inl e)
    with Pair begin_task_err_state [of T origin n cid fee w e w'] err lost show thesis by auto
  next
    case (Inr u)
    with Pair have "begin_task T origin n cid fee w = (Inr (), w')" by simp
    with begin_task_ok_iff [of T origin n cid fee w w'] ok show thesis by auto
  qed
qed

section \<open>Outcome of init\_errand\<close>

definition errand_inited ::
    "('a, 'c) Trait \<Rightarrow> 'a \<Rightarrow> ErrandId \<Rightarrow> Cid \<Rightarrow> ('a, 'c) chain \<Rightarrow> ('a, 'c) chain" where
  "errand_inited T client eid cid w =
     deposit_event (ErrandInited client cid)
       (w\<lparr> Errands := storage_insert (Errands w) cid
             \<lparr> e_account_id = encode T client, e_errand_id = eid, e_description_cid = cid,
               e_status = Processing, e_result = [] \<rparr>,
           ProcessingErrands := ProcessingErrands w @ [cid] \<rparr>)"

lemma init_errand_outcome:
  "init_errand T origin client eid cid w =
     (case origin of
        Signed s \<Rightarrow> if ClientDelegate w client = Some s then (Inr (), errand_inited T client eid cid w)
                    else (Inl (Abc ClientDelegatorNotExist), w)
      | _ \<Rightarrow> (Inl BadOrigin, w))"
  by (cases origin)
    (auto simp: init_errand_def errand_inited_def add_processing_def Let_def contains_key_def
      storage_get_def split: option.split)

lemma init_errand_cases:
  obtains (ok) s where "origin = Signed s" and "ClientDelegate w client = Some s"
      and "init_errand T origin client eid cid w = (Inr (), errand_inited T client eid cid w)"
  | (err) e where "init_errand T origin client eid cid w = (Inl e, w)"
proof (cases origin)
  case (Signed s)
  with ok err show thesis
    by (cases "ClientDelegate w client = Some s") (simp_all add: init_errand_outcome)
qed (use err in \<open>simp_all add: init_errand_outcome\<close>)

section \<open>Outcome of update\_errand\<close>

lemma settle_errand_frame [simp]:
  "Errands (settle_errand T c w) = Errands w"
  "Delegates (settle_errand T c w) = Delegates w"
  "CompletedErrands (settle_errand T c w) = CompletedErrands w"
  "ClientTaskFee (settle_errand T c w) = ClientTaskFee w"
  "ClientDelegate (settle_errand T c w) = ClientDelegate w"
  "DelegateNetAddress (settle_errand T c w) = DelegateNetAddress w"
  "DelegateAccounts (settle_errand T c w) = DelegateAccounts w"
  "Tasks (settle_errand T c w) = Tasks w"
  "DelegatesApplys (settle_errand T c w) = DelegatesApplys w"
  "ProcessingErrands (settle_errand T c w) = ProcessingErrands w"
  "DevelopmentMode (settle_errand T c w) = DevelopmentMode w"
  "UpdateResultAccounts (settle_errand T c w) = UpdateResultAccounts w"
  "block_number (settle_errand T c w) = block_number w"
  "events (settle_errand T c w) = events w"
  by (simp_all add: settle_errand_def Let_def split: prod.split)

lemma update_errand_result_frame [simp]:
  "Delegates (update_errand_result T cid res w) = Delegates w"
  "CompletedErrands (update_errand_result T cid res w) = CompletedErrands w"
  "ClientTaskFee (update_errand_result T cid res w) = ClientTaskFee w"
  "ClientDelegate (update_errand_result T cid res w) = ClientDelegate w"
  "DelegateNetAddress (update_errand_result T cid res w) = DelegateNetAddress w"
  "DelegateAccounts (update_errand_result T cid res w) = DelegateAccounts w"
  "Tasks (update_errand_result T cid res w) = Tasks w"
  "DelegatesApplys (update_errand_result T cid res w) = DelegatesApplys w"
  "DevelopmentMode (update_errand_result T cid res w) = DevelopmentMode w"
  "UpdateResultAccounts (update_errand_result T cid res w) = UpdateResultAccounts w"
  "block_number (update_errand_result T cid res w) = block_number w"
  "events (update_errand_result T cid res w) = events w"
  by (simp_all add: update_errand_result_def remove_processing_def Let_def
      split: option.split sum.split)

lemma update_errand_result_Errands [simp]:
  "Errands (update_errand_result T cid res w) =
     (Errands w)(cid := map_option (complete_errand res) (Errands w cid))"
  by (simp add: update_errand_result_def remove_processing_def Let_def
      split: option.split sum.split)

lemma update_errand_result_Processing [simp]:
  "ProcessingErrands (update_errand_result T cid res w) =
     filter (\<lambda>c. c \<noteq> cid) (ProcessingErrands w)"
  by (simp add: update_errand_result_def remove_processing_def Let_def
      split: option.split sum.split)

text \<open>The state after the sender's vote has been recorded.\<close>

abbreviation voted :: "Cid \<Rightarrow> 'a \<Rightarrow> ('a, 'c) chain \<Rightarrow> ('a, 'c) chain" where
  "voted cid s w \<equiv> w\<lparr>CompletedErrands := push_entry (CompletedErrands w) cid s\<rparr>"

abbreviation votes :: "('a, 'c) chain \<Rightarrow> Cid \<Rightarrow> 'a list" where
  "votes w cid \<equiv> storage_get [] (CompletedErrands w) cid"

definition errand_updated ::
    "('a, 'c) Trait \<Rightarrow> Cid \<Rightarrow> bytes \<Rightarrow> ('a, 'c) chain \<Rightarrow> ('a, 'c) chain" where
  "errand_updated T cid res w =
     deposit_event (ErrandUpdated cid res) (update_errand_result T cid res w)"

lemma update_errand_outcome:
  "update_errand T origin cid res w =
     (case origin of
        Signed s \<Rightarrow>
          (case Errands w cid of
             None \<Rightarrow> (Inl (Abc ErrandTaskNotExist), w)
           | Some e \<Rightarrow>
               if length (encode T s) \<noteq> 32 then (Inl (Abc AccountId32ConvertionError), w)
               else if \<not> approver T w s then (Inl (Abc NoRightToUpdateErrand), w)
               else if DevelopmentMode w then (Inr (), errand_updated T cid res w)
               else if e_status e \<noteq> Processing then (Inl (Abc ErrandTaskCompleted), voted cid s w)
               else if votes w cid \<noteq> [] then (Inr (), errand_updated T cid res (voted cid s w))
               else (Inr (), voted cid s w))
      | _ \<Rightarrow> (Inl BadOrigin, w))"
proof (cases origin)
  case (Signed s)
  then show ?thesis
    by (auto simp: update_errand_def errand_updated_def approver_def account_to_bytes_def Let_def
        contains_key_def MIN_UPDATE_RESULT_ACCOUNT_def Suc_le_eq split: option.split)
qed (simp_all add: update_errand_def)

lemma update_errand_cases:
  obtains (rejected) e where "update_errand T origin cid res w = (Inl e, w)"
  | (late) s e where "origin = Signed s" and "approver T w s" and "Errands w cid = Some e"
      and "e_status e = Done" and "\<not> DevelopmentMode w"
      and "update_errand T origin cid res w = (Inl (Abc ErrandTaskCompleted), voted cid s w)"
  | (dev) s e where "origin = Signed s" and "approver T w s" and "Errands w cid = Some e"
      and "DevelopmentMode w"
      and "update_errand T origin cid res w = (Inr (), errand_updated T cid res w)"
  | (reached) s e where "origin = Signed s" and "approver T w s" and "Errands w cid = Some e"
      and "e_status e = Processing" and "\<not> DevelopmentMode w" and "votes w cid \<noteq> []"
      and "update_errand T origin cid res w = (Inr (), errand_updated T cid res (voted cid s w))"
  | (pending) s e where "origin = Signed s" and "approver T w s" and "Errands w cid = Some e"
      and "e_status e = Processing" and "\<not> DevelopmentMode w" and "votes w cid = []"
      and "update_errand T origin cid res w = (Inr (), voted cid s w)"
proof (cases origin)
  case (Signed s)
  show thesis
  proof (cases "Errands w cid")
    case None
    with Signed rejected show thesis by (simp add: update_errand_outcome)
  next
    case (Some e)
    note outcome = update_errand_outcome [of T origin cid res w]
    show thesis
    proof (cases "approver T w s")
      case False
      with Signed Some rejected outcome show thesis
        by (cases "length (encode T s) = 32") simp_all
    next
      case True
      then have "length (encode T s) = 32" by (simp add: approver_def)
      with outcome Signed True Some have eq: "update_errand T origin cid res w =
          (if DevelopmentMode w then (Inr (), errand_updated T cid res w)
           else if e_status e \<noteq> Processing then (Inl (Abc ErrandTaskCompleted), voted cid s w)
           else if votes w cid \<noteq> [] then (Inr (), errand_updated T cid res (voted cid s w))
           else (Inr (), voted cid s w))"
        by simp
      show thesis
      proof (cases "DevelopmentMode w")
        case True
        with eq show thesis by (intro dev [OF Signed \<open>approver T w s\<close> Some]) simp_all
      next
        case prod: False
        show thesis
        proof (cases "e_status e")
          case Done
          with prod eq show thesis by (intro late [OF Signed True Some]) simp_all
        next
          case Processing
          show thesis
          proof (cases "votes w cid = []")
            case first: True
            from Processing prod first eq show thesis
              by (intro pending [OF Signed True Some]) simp_all
          next
            case more: False
            from Processing prod more eq show thesis
              by (intro reached [OF Signed True Some]) simp_all
          qed
        qed
      qed
    qed
  qed
qed (use rejected in \<open>simp_all add: update_errand_outcome\<close>)

section \<open>What each dispatchable leaves alone\<close>

lemma task_begun_frame [frame_simps]:
  "Errands (task_begun T client n d cid fee cur w) = Errands w"
  "Delegates (task_begun T client n d cid fee cur w) = Delegates w"
  "CompletedErrands (task_begun T client n d cid fee cur w) = CompletedErrands w"
  "DelegateNetAddress (task_begun T client n d cid fee cur w) = DelegateNetAddress w"
  "DelegateAccounts (task_begun T client n d cid fee cur w) = DelegateAccounts w"
  "DelegatesApplys (task_begun T client n d cid fee cur w) = DelegatesApplys w"
  "ProcessingErrands (task_begun T client n d cid fee cur w) = ProcessingErrands w"
  "DevelopmentMode (task_begun T client n d cid fee cur w) = DevelopmentMode w"
  "UpdateResultAccounts (task_begun T client n d cid fee cur w) = UpdateResultAccounts w"
  "block_number (task_begun T client n d cid fee cur w) = block_number w"
  by (simp_all add: task_begun_def)

lemma begin_task_frame [frame_simps]:
  "Errands (snd (begin_task T origin n cid fee w)) = Errands w"
  "Delegates (snd (begin_task T origin n cid fee w)) = Delegates w"
  "CompletedErrands (snd (begin_task T origin n cid fee w)) = CompletedErrands w"
  "DelegateNetAddress (snd (begin_task T origin n cid fee w)) = DelegateNetAddress w"
  "DelegateAccounts (snd (begin_task T origin n cid fee w)) = DelegateAccounts w"
  "DelegatesApplys (snd (begin_task T origin n cid fee w)) = DelegatesApplys w"
  "ProcessingErrands (snd (begin_task T origin n cid fee w)) = ProcessingErrands w"
  "DevelopmentMode (snd (begin_task T origin n cid fee w)) = DevelopmentMode w"
  "UpdateResultAccounts (snd (begin_task T origin n cid fee w)) = UpdateResultAccounts w"
  by (cases rule: begin_task_cases [of origin T n cid fee w]; simp add: task_begun_frame)+

lemma init_errand_frame [frame_simps]:
  "Delegates (snd (init_errand T origin client eid cid w)) = Delegates w"
  "CompletedErrands (snd (init_errand T origin client eid cid w)) = CompletedErrands w"
  "ClientTaskFee (snd (init_errand T origin client eid cid w)) = ClientTaskFee w"
  "ClientDelegate (snd (init_errand T origin client eid cid w)) = ClientDelegate w"
  "DelegateNetAddress (snd (init_errand T origin client eid cid w)) = DelegateNetAddress w"
  "DelegateAccounts (snd (init_errand T origin client eid cid w)) = DelegateAccounts w"
  "Tasks (snd (init_errand T origin client eid cid w)) = Tasks w"
  "DelegatesApplys (snd (init_errand T origin client eid cid w)) = DelegatesApplys w"
  "DevelopmentMode (snd (init_errand T origin client eid cid w)) = DevelopmentMode w"
  "UpdateResultAccounts (snd (init_errand T origin client eid cid w)) = UpdateResultAccounts w"
  "currency (snd (init_errand T origin client eid cid w)) = currency w"
  by (cases rule: init_errand_cases [of origin w client T eid cid]; simp add: errand_inited_def)+

lemma update_errand_frame [frame_simps]:
  "Delegates (snd (update_errand T origin cid res w)) = Delegates w"
  "ClientTaskFee (snd (update_errand T origin cid res w)) = ClientTaskFee w"
  "ClientDelegate (snd (update_errand T origin cid res w)) = ClientDelegate w"
  "DelegateNetAddress (snd (update_errand T origin cid res w)) = DelegateNetAddress w"
  "DelegateAccounts (snd (update_errand T origin cid res w)) = DelegateAccounts w"
  "Tasks (snd (update_errand T origin cid res w)) = Tasks w"
  "DelegatesApplys (snd (update_errand T origin cid res w)) = DelegatesApplys w"
  "DevelopmentMode (snd (update_errand T origin cid res w)) = DevelopmentMode w"
  "UpdateResultAccounts (snd (update_errand T origin cid res w)) = UpdateResultAccounts w"
  by (cases rule: update_errand_cases [of T origin cid res w]; simp add: errand_updated_def)+

end
