(* ===== verification/Chain.thy ===== *)
theory Chain
  imports Delegation Errand_Flow
begin

text \<open>
  The pallet as a state machine. \<open>Call\<close> is the call enum \<^verbatim>\<open>decl_module!\<close> generates from the six
  dispatchables, \<open>dispatch\<close> runs one of them, and a step of the chain is an extrinsic (whatever its
  result), a new block, or a change the other pallets make (the random seed, the extrinsic index,
  balances). \<open>reachable\<close> states are those a genesis configuration leads to.

  Invariants are stated through the locale \<open>chain_invariant\<close>: a predicate that genesis establishes
  and every step keeps holds in every reachable state.
\<close>

section \<open>Calls and steps\<close>

datatype 'a Call =
    RequestDelegate DelegatorName NetAddress
  | UpdateDelegateStatus 'a
  | BeginTask DelegatorName Cid u32
  | InitErrand 'a ErrandId Cid
  | UpdateErrand Cid bytes
  | Unreserve DelegatorName 'a

fun dispatch ::
    "('a, 'c) Trait \<Rightarrow> 'a Origin \<Rightarrow> 'a Call \<Rightarrow> ('a, 'c) chain \<Rightarrow> DispatchResult \<times> ('a, 'c) chain"
  where
  "dispatch T origin (RequestDelegate n addr) w = request_delegate origin n addr w"
| "dispatch T origin (UpdateDelegateStatus u) w = update_delegate_status origin u w"
| "dispatch T origin (BeginTask n cid fee) w = begin_task T origin n cid fee w"
| "dispatch T origin (InitErrand client eid cid) w = init_errand T origin client eid cid w"
| "dispatch T origin (UpdateErrand cid res) w = update_errand T origin cid res w"
| "dispatch T origin (Unreserve n client) w = unreserve T origin n client w"

definition new_block :: "('a, 'c) chain \<Rightarrow> ('a, 'c) chain" where
  "new_block w = w\<lparr>block_number := block_number w + 1, events := []\<rparr>"

inductive step :: "('a, 'c) Trait \<Rightarrow> ('a, 'c) chain \<Rightarrow> ('a, 'c) chain \<Rightarrow> bool" for T where
  extrinsic: "step T w (snd (dispatch T origin call w))"
| new_block: "step T w (new_block w)"
| environment: "step T w (w\<lparr>extrinsic_index := ix, random_seed := seed, currency := cur\<rparr>)"

inductive reachable :: "('a, 'c) Trait \<Rightarrow> AbcConfig \<Rightarrow> ('a, 'c) chain \<Rightarrow> bool" for T config where
  genesis: "reachable T config (genesis_build config cur)"
| step: "reachable T config w \<Longrightarrow> step T w w' \<Longrightarrow> reachable T config w'"

text \<open>A list of signed extrinsics, run in order.\<close>

fun run_extrinsics ::
    "('a, 'c) Trait \<Rightarrow> ('a Origin \<times> 'a Call) list \<Rightarrow> ('a, 'c) chain \<Rightarrow> ('a, 'c) chain" where
  "run_extrinsics T [] w = w"
| "run_extrinsics T ((origin, call) # xs) w = run_extrinsics T xs (snd (dispatch T origin call w))"

inductive_cases stepE: "step T w w'"

lemma reachable_dispatch: "reachable T config w \<Longrightarrow> reachable T config (snd (dispatch T origin call w))"
  by (rule reachable.step [OF _ step.extrinsic])

lemma reachable_run: "reachable T config w \<Longrightarrow> reachable T config (run_extrinsics T xs w)"
  by (induction xs arbitrary: w) (auto simp: reachable_dispatch)

section \<open>Invariants of the chain\<close>

locale chain_invariant =
  fixes T :: "('a, 'c) Trait" and config :: AbcConfig and inv :: "('a, 'c) chain \<Rightarrow> bool"
  assumes inv_genesis: "inv (genesis_build config cur)"
    and inv_dispatch: "inv w \<Longrightarrow> inv (snd (dispatch T origin call w))"
    and inv_new_block: "inv w \<Longrightarrow> inv (new_block w)"
    and inv_environment: "inv w \<Longrightarrow> inv (w\<lparr>extrinsic_index := ix, random_seed := seed, currency := cur\<rparr>)"
begin

lemma inv_step: "step T w w' \<Longrightarrow> inv w \<Longrightarrow> inv w'"
  by (auto elim!: stepE intro: inv_dispatch inv_new_block inv_environment)

lemma inv_reachable: "reachable T config w \<Longrightarrow> inv w"
  by (induction rule: reachable.induct) (auto intro: inv_genesis inv_step)

lemma inv_run: "inv w \<Longrightarrow> inv (run_extrinsics T xs w)"
  by (induction xs arbitrary: w) (auto simp: inv_dispatch)

end

text \<open>The genesis configuration never changes afterwards.\<close>

definition config_inv :: "AbcConfig \<Rightarrow> ('a, 'c) chain \<Rightarrow> bool" where
  "config_inv config w \<longleftrightarrow>
     DevelopmentMode w = development_mode config \<and>
     UpdateResultAccounts w = update_result_accounts config"

text \<open>
  Errands: the list of errands in progress names exactly the errands with status
  \<^verbatim>\<open>Processing\<close>; an errand is stored under its own description, belongs to an encoded account and
  has no result before it is done.
\<close>

definition errand_inv :: "('a, 'c) Trait \<Rightarrow> ('a, 'c) chain \<Rightarrow> bool" where
  "errand_inv T w \<longleftrightarrow>
     (\<forall>cid. cid \<in> set (ProcessingErrands w) \<longleftrightarrow>
        (\<exists>e. Errands w cid = Some e \<and> e_status e = Processing)) \<and>
     (\<forall>cid e. Errands w cid = Some e \<longrightarrow>
        e_description_cid e = cid \<and> (\<exists>c. e_account_id e = encode T c) \<and>
        (e_status e = Processing \<longrightarrow> e_result e = []))"

text \<open>
  Votes: every recorded vote is an approver's, on a known errand; in production mode an errand is
  only done after at least \<^const>\<open>MIN_UPDATE_RESULT_ACCOUNT\<close> recorded votes, in development mode no
  vote is recorded.
\<close>

definition vote_inv :: "('a, 'c) Trait \<Rightarrow> ('a, 'c) chain \<Rightarrow> bool" where
  "vote_inv T w \<longleftrightarrow>
     (\<forall>cid. \<forall>a \<in> set (votes w cid). approver T w a) \<and>
     (\<forall>cid. votes w cid \<noteq> [] \<longrightarrow> Errands w cid \<noteq> None) \<and>
     (DevelopmentMode w \<longrightarrow> (\<forall>cid. votes w cid = [])) \<and>
     (\<not> DevelopmentMode w \<longrightarrow> (\<forall>cid e. Errands w cid = Some e \<and> e_status e = Done \<longrightarrow>
        MIN_UPDATE_RESULT_ACCOUNT \<le> length (votes w cid)))"

text \<open>
  Tasks: the list of a block is never stored empty, its descriptions are distinct, its fees
  positive; a client's fee is positive and a client with a delegate has one.
\<close>

definition task_inv :: "('a, 'c) chain \<Rightarrow> bool" where
  "task_inv w \<longleftrightarrow>
     (\<forall>b l. Tasks w b = Some l \<longrightarrow>
        l \<noteq> [] \<and> distinct (map t_description_cid l) \<and> (\<forall>t \<in> set l. 0 < t_fee t)) \<and>
     (\<forall>c f. ClientTaskFee w c = Some f \<longrightarrow> 0 < f) \<and>
     (\<forall>c. ClientDelegate w c \<noteq> None \<longrightarrow> ClientTaskFee w c \<noteq> None)"

text \<open>
  Delegates: an account is a delegate, or the account behind a name, only if a request of it is on
  record.
\<close>

definition requested :: "('a, 'c) chain \<Rightarrow> DelegatorName \<Rightarrow> 'a \<Rightarrow> bool" where
  "requested w n a \<longleftrightarrow> (\<exists>b. (n, a) \<in> set (storage_get [] (DelegatesApplys w) b))"

definition delegate_inv :: "('a, 'c) chain \<Rightarrow> bool" where
  "delegate_inv w \<longleftrightarrow>
     (\<forall>b. DelegatesApplys w b \<noteq> Some []) \<and>
     (\<forall>a. Delegates w a \<noteq> None \<longrightarrow> (\<exists>n. requested w n a)) \<and>
     (\<forall>n a. DelegateAccounts w n = Some a \<longrightarrow> requested w n a)"

section \<open>Every dispatchable keeps the invariants\<close>

lemma dispatch_config [simp]:
  "DevelopmentMode (snd (dispatch T origin call w)) = DevelopmentMode w"
  "UpdateResultAccounts (snd (dispatch T origin call w)) = UpdateResultAccounts w"
  by (cases call; simp add: frame_simps)+

interpretation cfg: chain_invariant T config "config_inv config" for T :: "('a, 'c) Trait" and config
  by unfold_locales (simp_all add: config_inv_def genesis_build_def new_block_def)

text \<open>Errands.\<close>

lemma errand_inv_inited: "errand_inv T w \<Longrightarrow> errand_inv T (errand_inited T client eid cid w)"
  by (auto simp: errand_inv_def errand_inited_def)

lemma errand_inv_updated: "errand_inv T w \<Longrightarrow> errand_inv T (errand_updated T cid res w)"
  by (fastforce simp: errand_inv_def errand_updated_def complete_errand_def)

lemma errand_inv_dispatch: "errand_inv T w \<Longrightarrow> errand_inv T (snd (dispatch T origin call w))"
proof (cases call)
  case (InitErrand client eid cid)
  assume "errand_inv T w"
  with InitErrand show ?thesis
    by (cases rule: init_errand_cases [of origin w client T eid cid]) (simp_all add: errand_inv_inited)
next
  case (UpdateErrand cid res)
  assume inv: "errand_inv T w"
  then have "errand_inv T (voted cid s w)" for s by (simp add: errand_inv_def)
  with inv UpdateErrand show ?thesis
    by (cases rule: update_errand_cases [of T origin cid res w]) (simp_all add: errand_inv_updated)
qed (simp_all add: frame_simps errand_inv_def)

interpretation errand: chain_invariant T config "errand_inv T" for T :: "('a, 'c) Trait" and config
  by unfold_locales
    (simp_all add: errand_inv_dispatch, simp_all add: errand_inv_def genesis_build_def new_block_def)

text \<open>Votes.\<close>

lemma vote_inv_inited: "vote_inv T w \<Longrightarrow> vote_inv T (errand_inited T client eid cid w)"
  by (auto simp: vote_inv_def errand_inited_def approver_def)

lemma vote_inv_voted:
  "vote_inv T w \<Longrightarrow> approver T w s \<Longrightarrow> Errands w cid \<noteq> None \<Longrightarrow> \<not> DevelopmentMode w \<Longrightarrow>
   vote_inv T (voted cid s w)"
  by (auto simp: vote_inv_def approver_def intro: le_SucI)

lemma vote_inv_updated:
  "vote_inv T w \<Longrightarrow> DevelopmentMode w \<or> MIN_UPDATE_RESULT_ACCOUNT \<le> length (votes w cid) \<Longrightarrow>
   vote_inv T (errand_updated T cid res w)"
  by (auto simp: vote_inv_def errand_updated_def approver_def)

lemma vote_inv_dispatch: "vote_inv T w \<Longrightarrow> vote_inv T (snd (dispatch T origin call w))"
proof (cases call)
  case (InitErrand client eid cid)
  assume "vote_inv T w"
  with InitErrand show ?thesis
    by (cases rule: init_errand_cases [of origin w client T eid cid]) (simp_all add: vote_inv_inited)
next
  case (UpdateErrand cid res)
  assume inv: "vote_inv T w"
  show ?thesis
  proof (cases rule: update_errand_cases [of T origin cid res w])
    case (reached s e)
    with inv have "vote_inv T (voted cid s w)" by (simp add: vote_inv_voted)
    moreover from reached have "MIN_UPDATE_RESULT_ACCOUNT \<le> length (votes (voted cid s w) cid)"
      by (simp add: MIN_UPDATE_RESULT_ACCOUNT_def Suc_le_eq)
    ultimately show ?thesis using reached UpdateErrand by (simp add: vote_inv_updated)
  qed (use inv UpdateErrand in \<open>simp_all add: vote_inv_voted vote_inv_updated\<close>)
qed (simp_all add: frame_simps vote_inv_def approver_def)

interpretation vote: chain_invariant T config "vote_inv T" for T :: "('a, 'c) Trait" and config
  by unfold_locales
    (simp_all add: vote_inv_dispatch, simp_all add: vote_inv_def genesis_build_def new_block_def
      storage_get_def approver_def)

text \<open>Tasks.\<close>

lemma task_inv_without: "task_inv w \<Longrightarrow> task_inv (without_tasks w)"
  by (auto simp: task_inv_def)

lemma task_inv_begun:
  "task_inv w \<Longrightarrow> task_startable T client n d cid fee w \<Longrightarrow>
   task_inv (task_begun T client n d cid fee cur w)"
  by (auto simp: task_inv_def task_begun_def task_startable_def task_of_def storage_get_def
      split: option.splits)

lemma task_inv_dispatch: "task_inv w \<Longrightarrow> task_inv (snd (dispatch T origin call w))"
proof (cases call)
  case (BeginTask n cid fee)
  assume "task_inv w"
  with BeginTask show ?thesis
    by (cases rule: begin_task_cases [of origin T n cid fee w])
      (simp_all add: task_inv_begun task_inv_without)
next
  case (Unreserve n client)
  assume "task_inv w"
  with Unreserve show ?thesis by (auto simp: task_inv_def unreserve_def Let_def)
qed (simp_all add: frame_simps task_inv_def)

interpretation task: chain_invariant T config task_inv for T :: "('a, 'c) Trait" and config
  by unfold_locales
    (simp_all add: task_inv_dispatch, simp_all add: task_inv_def genesis_build_def new_block_def)

text \<open>Delegates.\<close>

lemma requested_push:
  "DelegatesApplys w' = push_entry (DelegatesApplys w) b (n', a') \<Longrightarrow>
   requested w' n a \<longleftrightarrow> requested w n a \<or> (n, a) = (n', a')"
  by (auto simp: requested_def)

lemma delegate_inv_request:
  "delegate_inv w \<Longrightarrow> delegate_inv (snd (request_delegate origin n addr w))"
proof (cases "\<exists>s. origin = Signed s \<and> \<not> contains_key (Delegates w) s")
  case True
  then obtain s where "origin = Signed s" and "\<not> contains_key (Delegates w) s" by blast
  moreover assume "delegate_inv w"
  ultimately show ?thesis
    by (auto simp: request_delegate_def Let_def delegate_inv_def requested_push)
next
  case False
  moreover assume "delegate_inv w"
  ultimately show ?thesis by (cases origin) (auto simp: request_delegate_def)
qed

lemma delegate_inv_dispatch: "delegate_inv w \<Longrightarrow> delegate_inv (snd (dispatch T origin call w))"
proof (cases call)
  case (RequestDelegate n addr)
  assume "delegate_inv w"
  with RequestDelegate show ?thesis by (simp add: delegate_inv_request)
next
  case (UpdateDelegateStatus u)
  assume "delegate_inv w"
  with UpdateDelegateStatus show ?thesis
    by (cases origin)
      (auto simp: update_delegate_status_def delegate_inv_def requested_def contains_key_def)
next
  case (Unreserve n client)
  assume "delegate_inv w"
  with Unreserve show ?thesis
    by (auto simp: unreserve_def Let_def delegate_inv_def requested_def)
qed (simp_all add: frame_simps delegate_inv_def requested_def)

interpretation delegate: chain_invariant T config delegate_inv for T :: "('a, 'c) Trait" and config
  by unfold_locales
    (simp_all add: delegate_inv_dispatch, simp_all add: delegate_inv_def requested_def
      genesis_build_def new_block_def)

end
