(* ===== verification/Scenario.thy ===== *)
theory Scenario
  imports Chain
begin

text \<open>
  Concrete runs of the pallet on the reference configuration, for the witnesses: bob asks to be a
  delegate and becomes ready, alice begins a task with him, he opens the errand; alice and carol
  may vote on results.
\<close>

definition demo_name :: DelegatorName where "demo_name = [98, 111, 98]"
definition demo_cid :: Cid where "demo_cid = [5]"

definition prod_config :: AbcConfig where
  "prod_config = \<lparr>development_mode = False, update_result_accounts = [alice, carol]\<rparr>"

definition demo_start :: "(AccountId32, AccountId32 ledger) chain" where
  "demo_start = genesis_build prod_config demo_ledger"

definition demo_ready :: "(AccountId32, AccountId32 ledger) chain" where
  "demo_ready = run_extrinsics ref_trait
     [(Signed bob, RequestDelegate demo_name [49]), (Signed bob, UpdateDelegateStatus bob)]
     demo_start"

definition demo_begun :: "(AccountId32, AccountId32 ledger) chain" where
  "demo_begun = run_extrinsics ref_trait [(Signed alice, BeginTask demo_name demo_cid 40)] demo_ready"

definition demo_inited :: "(AccountId32, AccountId32 ledger) chain" where
  "demo_inited = run_extrinsics ref_trait [(Signed bob, InitErrand alice [9] demo_cid)] demo_begun"

definition demo_done :: "(AccountId32, AccountId32 ledger) chain" where
  "demo_done = run_extrinsics ref_trait
     [(Signed alice, UpdateErrand demo_cid [1]), (Signed carol, UpdateErrand demo_cid [2])]
     demo_inited"

lemma demo_reachable:
  "reachable ref_trait prod_config demo_start"
  "reachable ref_trait prod_config demo_ready"
  "reachable ref_trait prod_config demo_begun"
  "reachable ref_trait prod_config demo_inited"
  "reachable ref_trait prod_config demo_done"
  unfolding demo_start_def demo_ready_def demo_begun_def demo_inited_def demo_done_def
  by (intro reachable_run reachable.genesis)+

end
