(* ===== verification/Errand_Spec.thy ===== *)
theory Errand_Spec
  imports Scenario
begin

text \<open>
  The abstract errand: what the pallet promises about one errand, without storage, fees and
  events. An errand is absent, in progress or finished with a result, and has a list of votes; a
  vote of an approver adds to the list and, once \<^const>\<open>MIN_UPDATE_RESULT_ACCOUNT\<close> votes are there
  (or at once in development mode), fixes the result.

  \<open>view\<close> maps the storage to the abstract errand. \<^verbatim>\<open>update_errand\<close> computes \<open>vote_spec\<close>, and every
  call is a step of the abstract machine; the locale \<open>errand_machine\<close> draws the consequences for
  runs, and is interpreted on the chain.
\<close>

section \<open>The abstract errand\<close>

datatype phase = Absent | InProgress | Finished bytes

type_synonym 'a errand_view = "phase \<times> 'a list"

fun phase_of :: "Errand option \<Rightarrow> phase" where
  "phase_of None = Absent"
| "phase_of (Some e) = (case e_status e of Processing \<Rightarrow> InProgress | Done \<Rightarrow> Finished (e_result e))"

definition view :: "('a, 'c) chain \<Rightarrow> Cid \<Rightarrow> 'a errand_view" where
  "view w cid = (phase_of (Errands w cid), votes w cid)"

fun vote_spec :: "bool \<Rightarrow> 'a \<Rightarrow> bytes \<Rightarrow> 'a errand_view \<Rightarrow> 'a errand_view" where
  "vote_spec dev s res (Absent, vs) = (Absent, vs)"
| "vote_spec True s res (p, vs) = (Finished res, vs)"
| "vote_spec False s res (InProgress, vs) =
     (if MIN_UPDATE_RESULT_ACCOUNT \<le> length (vs @ [s]) then Finished res else InProgress, vs @ [s])"
| "vote_spec False s res (Finished r, vs) = (Finished r, vs @ [s])"

inductive errand_step :: "('a \<Rightarrow> bool) \<Rightarrow> bool \<Rightarrow> 'a errand_view \<Rightarrow> 'a errand_view \<Rightarrow> bool"
  for may_vote dev where
  stutter: "errand_step may_vote dev v v"
| opened: "errand_step may_vote dev (p, vs) (InProgress, vs)"
| vote: "may_vote s \<Longrightarrow> errand_step may_vote dev v (vote_spec dev s res v)"

inductive_cases errand_stepE: "errand_step may_vote dev v v'"

text \<open>Steps of the abstract machine only append votes, by accounts that may vote.\<close>

lemma vote_spec_votes: "\<exists>vs. snd (vote_spec dev s res v) = snd v @ vs \<and> set vs \<subseteq> {s}"
  by (cases "(dev, s, res, v)" rule: vote_spec.cases) auto

lemma errand_step_votes:
  "errand_step P dev v v' \<Longrightarrow> \<exists>vs. snd v' = snd v @ vs \<and> (\<forall>a \<in> set vs. P a)"
proof (elim errand_stepE)
  fix s res
  assume "P s" and "v' = vote_spec dev s res v"
  with vote_spec_votes [of dev s res v] show ?thesis by auto
qed auto

locale errand_machine =
  fixes next_state :: "'e \<Rightarrow> 's \<Rightarrow> 's"
    and look :: "'s \<Rightarrow> Cid \<Rightarrow> 'a errand_view"
    and may_vote :: "'s \<Rightarrow> 'a \<Rightarrow> bool"
    and dev :: "'s \<Rightarrow> bool"
  assumes simulates: "errand_step (may_vote s) (dev s) (look s cid) (look (next_state e s) cid)"
    and may_vote_fixed: "may_vote (next_state e s) = may_vote s"
begin

lemma votes_append:
  "\<exists>vs. snd (look (fold next_state es s) cid) = snd (look s cid) @ vs \<and> (\<forall>a \<in> set vs. may_vote s a)"
proof (induction es arbitrary: s)
  case (Cons e es)
  from Cons.IH [of "next_state e s"] obtain vs where
    "snd (look (fold next_state es (next_state e s)) cid) = snd (look (next_state e s) cid) @ vs"
    and "\<forall>a \<in> set vs. may_vote s a"
    by (auto simp: may_vote_fixed)
  moreover from errand_step_votes [OF simulates [of s cid e]] obtain us where
    "snd (look (next_state e s) cid) = snd (look s cid) @ us" and "\<forall>a \<in> set us. may_vote s a"
    by blast
  ultimately show ?case by (intro exI [of _ "us @ vs"]) auto
qed simp

end

section \<open>The storage implements the abstract errand\<close>

lemma update_errand_view:
  assumes "approver T w s"
  shows "view (snd (update_errand T (Signed s) cid res w)) cid =
           vote_spec (DevelopmentMode w) s res (view w cid)"
    and "cid' \<noteq> cid \<Longrightarrow> view (snd (update_errand T (Signed s) cid res w)) cid' = view w cid'"
proof -
  from assms have len: "length (encode T s) = 32" by (simp add: approver_def)
  show "view (snd (update_errand T (Signed s) cid res w)) cid =
          vote_spec (DevelopmentMode w) s res (view w cid)"
  proof (cases "Errands w cid")
    case None
    then show ?thesis by (simp add: update_errand_outcome view_def)
  next
    case (Some e)
    then show ?thesis
      using assms len
      by (cases "DevelopmentMode w"; cases "e_status e")
        (auto simp: update_errand_outcome view_def errand_updated_def complete_errand_def
          MIN_UPDATE_RESULT_ACCOUNT_def Suc_le_eq)
  qed
  show "view (snd (update_errand T (Signed s) cid res w)) cid' = view w cid'" if "cid' \<noteq> cid"
    using that
    by (cases rule: update_errand_cases [of T "Signed s" cid res w])
      (simp_all add: view_def errand_updated_def)
qed

lemma update_errand_not_approver:
  "\<not> (\<exists>s. origin = Signed s \<and> approver T w s) \<Longrightarrow> snd (update_errand T origin cid res w) = w"
  by (cases rule: update_errand_cases [of T origin cid res w]) auto

lemma dispatch_view_other:
  assumes "\<And>client eid. call \<noteq> InitErrand client eid cid" and "\<And>res. call \<noteq> UpdateErrand cid res"
  shows "view (snd (dispatch T origin call w)) cid = view w cid"
proof (cases call)
  case (InitErrand client eid cid')
  with assms have "cid' \<noteq> cid" by blast
  with InitErrand show ?thesis
    by (cases rule: init_errand_cases [of origin w client T eid cid'])
      (simp_all add: view_def errand_inited_def)
next
  case (UpdateErrand cid' res)
  with assms have "cid' \<noteq> cid" by blast
  with UpdateErrand show ?thesis
    by (cases rule: update_errand_cases [of T origin cid' res w])
      (simp_all add: view_def errand_updated_def)
qed (simp_all add: view_def frame_simps)

lemma dispatch_errand_step:
  "errand_step (approver T w) (DevelopmentMode w) (view w cid) (view (snd (dispatch T origin call w)) cid)"
proof (cases "(\<exists>client eid. call = InitErrand client eid cid) \<or> (\<exists>res. call = UpdateErrand cid res)")
  case False
  then show ?thesis by (simp add: dispatch_view_other stutter)
next
  case True
  then consider (init) client eid where "call = InitErrand client eid cid"
    | (upd) res where "call = UpdateErrand cid res" by blast
  then show ?thesis
  proof cases
    case init
    then show ?thesis
      by (cases rule: init_errand_cases [of origin w client T eid cid])
        (simp_all add: view_def errand_inited_def stutter opened)
  next
    case upd
    show ?thesis
    proof (cases "\<exists>s. origin = Signed s \<and> approver T w s")
      case True
      with upd show ?thesis by (auto simp: update_errand_view intro: vote)
    next
      case False
      with upd show ?thesis by (simp add: update_errand_not_approver stutter)
    qed
  qed
qed

lemma approver_dispatch [simp]: "approver T (snd (dispatch T origin call w)) = approver T w"
  by (simp add: approver_def fun_eq_iff)

interpretation chain_errands: errand_machine
  "\<lambda>(origin, call) w. snd (dispatch T origin call w)" view "approver T" DevelopmentMode
  for T :: "('a, 'c) Trait"
  by unfold_locales (auto simp: dispatch_errand_step)

lemma run_extrinsics_fold:
  "run_extrinsics T xs w = fold (\<lambda>(origin, call) w. snd (dispatch T origin call w)) xs w"
  by (induction T xs w rule: run_extrinsics.induct) auto

section \<open>Properties\<close>

text \<open>
  C1: the vote of an approver does to the errand exactly what the abstract specification says, on
  every branch (unknown errand, development mode, first vote, deciding vote, late vote), and
  leaves every other errand alone.
\<close>

theorem update_errand_refines:
  assumes "approver T w s"
  shows "view (snd (update_errand T (Signed s) cid res w)) cid =
           vote_spec (DevelopmentMode w) s res (view w cid) \<and>
         (\<forall>cid'. cid' \<noteq> cid \<longrightarrow> view (snd (update_errand T (Signed s) cid res w)) cid' = view w cid')"
  using update_errand_view [OF assms] by blast

theorem update_errand_refines_witness:
  "approver ref_trait demo_inited alice \<and>
   view (snd (update_errand ref_trait (Signed alice) demo_cid [1] demo_inited)) demo_cid =
     (InProgress, [alice])"
proof -
  have a: "approver ref_trait demo_inited alice" by code_simp
  have "vote_spec (DevelopmentMode demo_inited) alice [1] (view demo_inited demo_cid) =
      (InProgress, [alice])"
    by code_simp
  with a update_errand_refines [OF a, of demo_cid "[1]"] show ?thesis by simp
qed

text \<open>
  C2: every call from every origin moves every errand by a step of the abstract machine: it is
  left alone, (re)opened with its votes kept, or voted on by an approver.
\<close>

theorem dispatch_refines_errands:
  "errand_step (approver T w) (DevelopmentMode w) (view w cid)
     (view (snd (dispatch T origin call w)) cid)"
  by (rule dispatch_errand_step)

text \<open>
  Along any sequence of extrinsics the votes on an errand are append-only, and every added
  vote is an approver's.
\<close>

theorem votes_append_only:
  "\<exists>vs. votes (run_extrinsics T xs w) cid = votes w cid @ vs \<and> (\<forall>a \<in> set vs. approver T w a)"
  using chain_errands.votes_append [of T xs w cid] by (simp add: run_extrinsics_fold view_def)

text \<open>Applied to the run from the opened to the finished errand.\<close>

theorem votes_append_only_witness:
  "\<exists>vs. votes (run_extrinsics ref_trait [(Signed alice, UpdateErrand demo_cid [1])] demo_inited) demo_cid
      = votes demo_inited demo_cid @ vs \<and> vs \<noteq> [] \<and> (\<forall>a \<in> set vs. approver ref_trait demo_inited a)"
proof -
  let ?xs = "[(Signed alice, UpdateErrand demo_cid [1])]"
  obtain vs where vs: "votes (run_extrinsics ref_trait ?xs demo_inited) demo_cid = votes demo_inited demo_cid @ vs"
    and ok: "\<forall>a \<in> set vs. approver ref_trait demo_inited a"
    using votes_append_only [of ref_trait ?xs demo_inited demo_cid] by blast
  have "votes (run_extrinsics ref_trait ?xs demo_inited) demo_cid = [alice]" by code_simp
  moreover have "votes demo_inited demo_cid = []" by code_simp
  ultimately have "vs \<noteq> []" using vs by auto
  with vs ok show ?thesis by blast
qed

text \<open>
  Outside development mode the result of a finished errand is stable: no call but an
  \<^verbatim>\<open>init_errand\<close> for the same description changes it.
\<close>

theorem finished_result_stable:
  assumes "\<not> DevelopmentMode w" and "view w cid = (Finished r, vs)"
    and "\<And>client eid. call \<noteq> InitErrand client eid cid"
  shows "fst (view (snd (dispatch T origin call w)) cid) = Finished r"
proof (cases "\<exists>res. call = UpdateErrand cid res")
  case True
  then obtain res where "call = UpdateErrand cid res" by blast
  with assms(1,2) show ?thesis
    by (cases "\<exists>s. origin = Signed s \<and> approver T w s")
      (auto simp: update_errand_view update_errand_not_approver)
next
  case False
  with assms show ?thesis by (simp add: dispatch_view_other)
qed

theorem finished_result_stable_witness:
  "view demo_done demo_cid = (Finished [2], [alice, carol]) \<and>
   fst (view (snd (dispatch ref_trait (Signed alice) (UpdateErrand demo_cid [3]) demo_done)) demo_cid)
     = Finished [2]"
proof -
  have v: "view demo_done demo_cid = (Finished [2], [alice, carol])" by code_simp
  have d: "\<not> DevelopmentMode demo_done" by code_simp
  from v finished_result_stable [OF d v, of "UpdateErrand demo_cid [3]" ref_trait "Signed alice"]
  show ?thesis by simp
qed

text \<open>
  The threshold counts votes, not accounts. A single approver that votes twice finishes an
  errand alone, with the second result.
\<close>

theorem one_approver_decides_alone:
  assumes "approver T w s" and "\<not> DevelopmentMode w" and "view w cid = (InProgress, [])"
  shows "view (run_extrinsics T [(Signed s, UpdateErrand cid r1), (Signed s, UpdateErrand cid r2)] w) cid
           = (Finished r2, [s, s])"
proof -
  let ?w1 = "snd (update_errand T (Signed s) cid r1 w)"
  have "approver T ?w1 s" and "\<not> DevelopmentMode ?w1"
    using assms by (simp_all add: approver_def frame_simps)
  moreover have "view ?w1 cid = (InProgress, [s])"
    using assms by (simp add: update_errand_view MIN_UPDATE_RESULT_ACCOUNT_def)
  ultimately show ?thesis by (simp add: update_errand_view MIN_UPDATE_RESULT_ACCOUNT_def)
qed

theorem one_approver_decides_alone_witness:
  "approver ref_trait demo_inited alice \<and>
   view (run_extrinsics ref_trait
       [(Signed alice, UpdateErrand demo_cid [1]), (Signed alice, UpdateErrand demo_cid [2])] demo_inited)
     demo_cid = (Finished [2], [alice, alice])"
proof -
  have a: "approver ref_trait demo_inited alice" by code_simp
  have d: "\<not> DevelopmentMode demo_inited" by code_simp
  have v: "view demo_inited demo_cid = (InProgress, [])" by code_simp
  from a one_approver_decides_alone [OF a d v] show ?thesis by simp
qed

text \<open>
  C31: a finished errand can be opened again by the delegate of any client, and since its votes are
  kept, the next single vote of an approver finishes it again with a new result.
\<close>

theorem reopened_errand_decided_at_once:
  assumes "approver T w s" and "\<not> DevelopmentMode w" and "view w cid = (Finished r, v # vs)"
    and "ClientDelegate w client = Some d"
  shows "view (run_extrinsics T [(Signed d, InitErrand client eid cid), (Signed s, UpdateErrand cid r')] w) cid
           = (Finished r', v # vs @ [s])"
proof -
  let ?w1 = "errand_inited T client eid cid w"
  have "approver T ?w1 s" and "\<not> DevelopmentMode ?w1"
    using assms by (simp_all add: approver_def errand_inited_def)
  moreover have "view ?w1 cid = (InProgress, v # vs)"
    using assms by (simp add: view_def errand_inited_def)
  ultimately show ?thesis
    using assms by (simp add: init_errand_outcome update_errand_view MIN_UPDATE_RESULT_ACCOUNT_def)
qed

theorem reopened_errand_decided_at_once_witness:
  "view demo_done demo_cid = (Finished [2], [alice, carol]) \<and>
   view (run_extrinsics ref_trait
       [(Signed bob, InitErrand alice [9] demo_cid), (Signed carol, UpdateErrand demo_cid [7])] demo_done)
     demo_cid = (Finished [7], [alice, carol, carol])"
proof -
  have a: "approver ref_trait demo_done carol" by code_simp
  have d: "\<not> DevelopmentMode demo_done" by code_simp
  have v: "view demo_done demo_cid = (Finished [2], [alice, carol])" by code_simp
  have c: "ClientDelegate demo_done alice = Some bob" by code_simp
  from v reopened_errand_decided_at_once [OF a d v c] show ?thesis by simp
qed

end
