(* ===== verification/Errand_Decision.thy ===== *)
theory Errand_Decision
  imports Errand_Spec
begin

text \<open>
  Voting on an errand comes to an end: a measure on the abstract errand, the number of votes still missing,
  falls with every vote whatever else happens between the votes.
\<close>

section \<open>Votes and what is missing\<close>

fun is_vote :: "('a, 'c) Trait \<Rightarrow> ('a, 'c) chain \<Rightarrow> Cid \<Rightarrow> 'a Origin \<times> 'a Call \<Rightarrow> bool" where
  "is_vote T w cid (Signed a, UpdateErrand c res) \<longleftrightarrow> approver T w a \<and> c = cid"
| "is_vote T w cid _ \<longleftrightarrow> False"

fun opens :: "Cid \<Rightarrow> 'a Origin \<times> 'a Call \<Rightarrow> bool" where
  "opens cid (_, InitErrand client eid c) \<longleftrightarrow> c = cid"
| "opens cid _ \<longleftrightarrow> False"

fun votes_missing :: "'a errand_view \<Rightarrow> nat" where
  "votes_missing (Finished r, vs) = 0"
| "votes_missing (_, vs) = max 1 (MIN_UPDATE_RESULT_ACCOUNT - length vs)"

lemma votes_missing_le: "votes_missing v \<le> MIN_UPDATE_RESULT_ACCOUNT"
  by (cases v rule: votes_missing.cases) (simp_all add: MIN_UPDATE_RESULT_ACCOUNT_def)

lemma votes_missing_zero: "votes_missing v = 0 \<longleftrightarrow> (\<exists>r. fst v = Finished r)"
  by (cases v rule: votes_missing.cases) simp_all

lemma vote_spec_missing:
  assumes "fst v \<noteq> Absent"
  shows "votes_missing (vote_spec dev a res v) \<le> votes_missing v - 1"
    and "fst (vote_spec dev a res v) \<noteq> Absent"
  using assms
  by (cases "(dev, a, res, v)" rule: vote_spec.cases; auto simp: MIN_UPDATE_RESULT_ACCOUNT_def)+

text \<open>One call: a vote lowers the measure, any other call but one that opens the errand keeps it.\<close>

lemma dispatch_missing:
  assumes "\<not> opens cid x" and "fst (view w cid) \<noteq> Absent"
  shows "votes_missing (view (snd (dispatch T (fst x) (snd x) w)) cid) \<le>
           votes_missing (view w cid) - (if is_vote T w cid x then 1 else 0)"
    and "fst (view (snd (dispatch T (fst x) (snd x) w)) cid) \<noteq> Absent"
proof -
  let ?w = "snd (dispatch T (fst x) (snd x) w)"
  have "(votes_missing (view ?w cid) \<le> votes_missing (view w cid) - (if is_vote T w cid x then 1 else 0)) \<and>
      fst (view ?w cid) \<noteq> Absent"
  proof (cases "is_vote T w cid x")
    case True
    then obtain a res where x: "x = (Signed a, UpdateErrand cid res)" "approver T w a"
      by (cases "(T, w, cid, x)" rule: is_vote.cases) auto
    with vote_spec_missing [OF assms(2)] update_errand_view(1) [OF x(2), of cid res] show ?thesis by simp
  next
    case False
    have "view ?w cid = view w cid"
    proof (cases "\<exists>res. snd x = UpdateErrand cid res")
      case True
      with False obtain res where "snd x = UpdateErrand cid res" "\<not> (\<exists>a. fst x = Signed a \<and> approver T w a)"
        by (cases x; cases "fst x") auto
      then show ?thesis by (simp add: update_errand_not_approver)
    next
      case False
      with assms(1) show ?thesis by (intro dispatch_view_other) (cases x; auto)+
    qed
    with False assms(2) show ?thesis by simp
  qed
  then show "votes_missing (view ?w cid) \<le> votes_missing (view w cid) - (if is_vote T w cid x then 1 else 0)"
    and "fst (view ?w cid) \<noteq> Absent" by blast+
qed

lemma is_vote_dispatch: "is_vote T (snd (dispatch T origin call w)) = is_vote T w"
proof (intro ext)
  show "is_vote T (snd (dispatch T origin call w)) cid x = is_vote T w cid x" for cid x
    by (cases "(T, w, cid, x)" rule: is_vote.cases) (simp_all add: approver_dispatch)
qed

lemma run_missing:
  assumes "list_all (\<lambda>x. \<not> opens cid x) xs" and "fst (view w cid) \<noteq> Absent"
  shows "votes_missing (view (run_extrinsics T xs w) cid) \<le>
           votes_missing (view w cid) - length (filter (is_vote T w cid) xs)"
  using assms
proof (induction xs arbitrary: w)
  case (Cons x xs)
  obtain origin call where x: "x = (origin, call)" by fastforce
  let ?w = "snd (dispatch T origin call w)"
  from Cons.prems x have step: "votes_missing (view ?w cid) \<le>
      votes_missing (view w cid) - (if is_vote T w cid x then 1 else 0)" "fst (view ?w cid) \<noteq> Absent"
    using dispatch_missing [of cid x w T] by auto
  from Cons.IH [of ?w] Cons.prems(1) step(2) have
    "votes_missing (view (run_extrinsics T xs ?w) cid) \<le>
       votes_missing (view ?w cid) - length (filter (is_vote T w cid) xs)"
    by (simp add: is_vote_dispatch)
  with step(1) x show ?case by (auto split: if_splits)
qed simp

section \<open>Properties\<close>

text \<open>
  C3: voting ends. For an errand on the chain, along any sequence of extrinsics in which it is not opened again:
  if at least \<^verbatim>\<open>MIN_UPDATE_RESULT_ACCOUNT\<close> of them are calls of \<^verbatim>\<open>update_errand\<close> for it by accounts that may update
  results, with whatever results and whatever calls between them, the errand is finished.
\<close>

theorem voting_ends:
  assumes "Errands w cid \<noteq> None" and "list_all (\<lambda>x. \<not> opens cid x) xs"
    and "MIN_UPDATE_RESULT_ACCOUNT \<le> length (filter (is_vote T w cid) xs)"
  shows "\<exists>e. Errands (run_extrinsics T xs w) cid = Some e \<and> e_status e = Done"
proof -
  let ?v = "view (run_extrinsics T xs w) cid"
  have "fst (view w cid) \<noteq> Absent" using assms(1) by (auto simp: view_def split: ErrandStatus.splits)
  from run_missing [OF assms(2) this, of T] votes_missing_le [of "view w cid"] assms(3)
  have "votes_missing ?v = 0" by simp
  then obtain r where "phase_of (Errands (run_extrinsics T xs w) cid) = Finished r"
    by (auto simp: votes_missing_zero view_def)
  then show ?thesis
    by (cases "Errands (run_extrinsics T xs w) cid") (auto split: ErrandStatus.splits)
qed

theorem voting_ends_witness:
  "\<exists>e. Errands (run_extrinsics ref_trait
     [(Signed alice, UpdateErrand demo_cid [1]), (Signed bob, UpdateErrand demo_cid [3]),
      (Signed carol, UpdateErrand demo_cid [2])] demo_inited) demo_cid = Some e \<and> e_status e = Done"
  by (rule voting_ends) code_simp+

end
