(* ===== verification/Settlement.thy ===== *)
theory Settlement
  imports Errand_Spec
begin

text \<open>
  Money: what the calls of the pallet do to balances, under the currency contract
  (\<open>abc_trait\<close>). A call reserves the fee of the caller's own task, or pays out of one client's
  reserve to its delegate, or touches no balance.
\<close>

section \<open>Balances\<close>

definition account_funds :: "('a, 'c) Trait \<Rightarrow> ('a, 'c) chain \<Rightarrow> 'a \<Rightarrow> Balance" where
  "account_funds T w a = free_balance T (currency w) a + reserved_balance T (currency w) a"

text \<open>An account without funds, as one that has been removed.\<close>

definition closed :: "('a, 'c) Trait \<Rightarrow> ('a, 'c) chain \<Rightarrow> 'a \<Rightarrow> bool" where
  "closed T w a \<longleftrightarrow> free_balance T (currency w) a = 0 \<and> reserved_balance T (currency w) a = 0"

text \<open>A vote, signed by an account that may update results, on an errand of an account.\<close>

definition votes_for :: "('a, 'c) Trait \<Rightarrow> ('a, 'c) chain \<Rightarrow> 'a Origin \<Rightarrow> 'a Call \<Rightarrow> 'a \<Rightarrow> bool" where
  "votes_for T w origin call a \<longleftrightarrow>
     (\<exists>s cid res e. origin = Signed s \<and> call = UpdateErrand cid res \<and> approver T w s \<and>
        Errands w cid = Some e \<and> decode T (e_account_id e) = Some a)"

context abc_trait
begin

lemma settle_currency:
  "currency (settle_errand T c w) =
     snd (repatriate_reserved T c (storage_get (default_account T) (ClientDelegate w) c)
            (unat (storage_get 0 (ClientTaskFee w) c)) (currency w))"
  by (simp add: settle_errand_def Let_def split: prod.split)

lemma update_errand_result_currency:
  "currency (update_errand_result T cid res w) =
     (case Errands w cid of
        None \<Rightarrow> currency w
      | Some e \<Rightarrow>
          (case decode T (e_account_id e) of
             None \<Rightarrow> currency w
           | Some c \<Rightarrow>
               snd (repatriate_reserved T c (storage_get (default_account T) (ClientDelegate w) c)
                      (unat (storage_get 0 (ClientTaskFee w) c)) (currency w))))"
  by (simp add: update_errand_result_def remove_processing_def Let_def settle_currency
      bytes_to_account_def complete_errand_def split: option.split)

text \<open>What a successful vote can do to the balances: nothing, or one payment.\<close>

lemma update_errand_currency:
  "currency (snd (update_errand T origin cid res w)) = currency w \<or>
   (\<exists>s e c. origin = Signed s \<and> approver T w s \<and> Errands w cid = Some e \<and>
      decode T (e_account_id e) = Some c \<and>
      currency (snd (update_errand T origin cid res w)) =
        snd (repatriate_reserved T c (storage_get (default_account T) (ClientDelegate w) c)
               (unat (storage_get 0 (ClientTaskFee w) c)) (currency w)))"
  by (cases rule: update_errand_cases [of T origin cid res w])
    (auto simp: errand_updated_def update_errand_result_currency split: option.split)

lemma begin_task_currency:
  "currency (snd (begin_task T origin n cid fee w)) = currency w \<or>
   (\<exists>s. origin = Signed s \<and>
      reserve T s (unat fee) (currency w) = Inr (currency (snd (begin_task T origin n cid fee w))))"
  by (cases rule: begin_task_cases [of origin T n cid fee w]) (auto simp: task_begun_def)

lemma dispatch_currency_cases:
  obtains (same) "currency (snd (dispatch T origin call w)) = currency w"
  | (hold) s n cid fee where "origin = Signed s" and "call = BeginTask n cid fee"
      and "reserve T s (unat fee) (currency w) = Inr (currency (snd (dispatch T origin call w)))"
  | (pay) s cid res e c where "origin = Signed s" and "call = UpdateErrand cid res"
      and "approver T w s" and "Errands w cid = Some e" and "decode T (e_account_id e) = Some c"
      and "currency (snd (dispatch T origin call w)) =
             snd (repatriate_reserved T c (storage_get (default_account T) (ClientDelegate w) c)
                    (unat (storage_get 0 (ClientTaskFee w) c)) (currency w))"
proof (cases call)
  case (BeginTask n cid fee)
  with begin_task_currency [of origin n cid fee w] same hold show thesis by auto
next
  case (UpdateErrand cid res)
  with update_errand_currency [of origin cid res w] same pay show thesis by auto
qed (use same in \<open>simp_all add: frame_simps\<close>)

text \<open>What a call does to one account: it begins a task itself, or votes settle an errand of it, or it loses nothing.\<close>

lemma account_cases:
  obtains (kept) "free_balance T (currency w) a \<le> free_balance T (currency (snd (dispatch T origin call w))) a"
      and "reserved_balance T (currency w) a \<le> reserved_balance T (currency (snd (dispatch T origin call w))) a"
  | (begun) n cid fee where "origin = Signed a" and "call = BeginTask n cid fee"
      and "free_balance T (currency w) a \<le> free_balance T (currency (snd (dispatch T origin call w))) a + unat fee"
      and "reserved_balance T (currency w) a \<le> reserved_balance T (currency (snd (dispatch T origin call w))) a"
  | (paid) "votes_for T w origin call a"
      and "free_balance T (currency w) a \<le> free_balance T (currency (snd (dispatch T origin call w))) a"
      and "reserved_balance T (currency w) a \<le>
             reserved_balance T (currency (snd (dispatch T origin call w))) a + unat (storage_get 0 (ClientTaskFee w) a)"
  | (closed) "votes_for T w origin call a" and "closed T (snd (dispatch T origin call w)) a"
      and "account_funds T w a < unat (storage_get 0 (ClientTaskFee w) a) + minimum_balance T"
proof (cases rule: dispatch_currency_cases [of origin call w])
  case same
  with kept show thesis by simp
next
  case (hold s n cid fee)
  with hold_ok [OF hold(3)] kept begun show thesis by (cases "a = s") auto
next
  case (pay s cid res e c)
  let ?d = "storage_get (default_account T) (ClientDelegate w) c"
  let ?v = "unat (storage_get 0 (ClientTaskFee w) c)" and ?cur = "currency (snd (dispatch T origin call w))"
  obtain r where r: "repatriate_reserved T c ?d ?v (currency w) = (r, ?cur)" using pay(6) by (metis prod.collapse)
  have v: "votes_for T w origin call c" using pay(1-5) by (auto simp: votes_for_def)
  from pay_account [OF r, of a] show thesis
  proof (elim disjE)
    assume "free_balance T (currency w) a \<le> free_balance T ?cur a \<and>
      reserved_balance T (currency w) a \<le> reserved_balance T ?cur a + (if a = c then ?v else 0) \<and>
      reserved_balance T ?cur a \<le> reserved_balance T (currency w) a"
    with kept paid v show thesis by (cases "a = c") simp_all
  next
    assume "a = c \<and> free_balance T ?cur a = 0 \<and> reserved_balance T ?cur a = 0 \<and>
      free_balance T (currency w) a + reserved_balance T (currency w) a < ?v + minimum_balance T"
    then have "a = c" and "closed T (snd (dispatch T origin call w)) a"
      and "account_funds T w a < ?v + minimum_balance T" by (auto simp: closed_def account_funds_def)
    with closed v show thesis by simp
  qed
qed

text \<open>The reserve of an account falls only when an approver's vote completes an errand of it, by
  at most the fee on record, unless the payment closes the account.\<close>

lemma held_drop:
  assumes "reserved_balance T (currency (snd (dispatch T origin call w))) a < reserved_balance T (currency w) a"
  shows "votes_for T w origin call a \<and>
    (reserved_balance T (currency w) a \<le>
       reserved_balance T (currency (snd (dispatch T origin call w))) a + unat (storage_get 0 (ClientTaskFee w) a) \<or>
     closed T (snd (dispatch T origin call w)) a \<and>
       account_funds T w a < unat (storage_get 0 (ClientTaskFee w) a) + minimum_balance T)"
  by (rule account_cases [where a = a and w = w and origin = origin and call = call]) (use assms in auto)

text \<open>The deciding vote, and what it does to the balances.\<close>

lemma deciding_vote:
  assumes s: "approver T w s" and prod: "\<not> DevelopmentMode w"
    and e: "Errands w cid = Some e" "e_status e = Processing" "e_account_id e = encode T c"
    and v: "votes w cid \<noteq> []"
    and rec: "ClientDelegate w c = Some d" "ClientTaskFee w c = Some fee"
  shows "fst (update_errand T (Signed s) cid res w) = Inr ()"
    and "view (snd (update_errand T (Signed s) cid res w)) cid = (Finished res, votes w cid @ [s])"
    and "currency (snd (update_errand T (Signed s) cid res w)) =
           snd (repatriate_reserved T c d (unat fee) (currency w))"
proof -
  have "length (encode T s) = 32" using s by (simp add: approver_def)
  with s prod e v have u: "update_errand T (Signed s) cid res w = (Inr (), errand_updated T cid res (voted cid s w))"
    by (simp add: update_errand_outcome)
  then show "fst (update_errand T (Signed s) cid res w) = Inr ()" by simp
  show "view (snd (update_errand T (Signed s) cid res w)) cid = (Finished res, votes w cid @ [s])"
    using e by (simp add: u errand_updated_def view_def complete_errand_def)
  show "currency (snd (update_errand T (Signed s) cid res w)) = snd (repatriate_reserved T c d (unat fee) (currency w))"
    using e rec by (simp add: u errand_updated_def update_errand_result_currency decode_encode storage_get_def)
qed

end

section \<open>All the money there is\<close>

definition total_funds :: "('a :: finite, 'c) Trait \<Rightarrow> ('a, 'c) chain \<Rightarrow> Balance" where
  "total_funds T w = (\<Sum>a\<in>UNIV. account_funds T w a)"

text \<open>What one payment can leave behind in the two accounts it touches, each below the minimum.\<close>

definition dust_bound :: "('a, 'c) Trait \<Rightarrow> Balance" where
  "dust_bound T = 2 * (minimum_balance T - 1)"

fun is_vote :: "'a Call \<Rightarrow> bool" where
  "is_vote (UpdateErrand cid res) = True"
| "is_vote call = False"

lemma dispatch_total_funds:
  fixes T :: "('a :: finite, 'c) Trait"
  assumes "abc_trait T"
  shows "total_funds T (snd (dispatch T origin call w)) \<le> total_funds T w"
    and "total_funds T w \<le> total_funds T (snd (dispatch T origin call w)) + (if is_vote call then dust_bound T else 0)"
proof -
  let ?w = "snd (dispatch T origin call w)"
  have "total_funds T ?w \<le> total_funds T w \<and> total_funds T w \<le> total_funds T ?w + (if is_vote call then dust_bound T else 0)"
  proof (rule abc_trait.dispatch_currency_cases [OF assms, of origin call w])
    assume "currency ?w = currency w"
    then show ?thesis by (simp add: total_funds_def account_funds_def)
  next
    fix s fee
    assume "reserve T s (unat (fee :: u32)) (currency w) = Inr (currency ?w)"
    then have "total_funds T ?w = total_funds T w"
      using abc_trait.reserve_funds [OF assms] by (simp add: total_funds_def account_funds_def)
    then show ?thesis by simp
  next
    fix c cid res
    let ?d = "storage_get (default_account T) (ClientDelegate w) c" and ?v = "unat (storage_get 0 (ClientTaskFee w) c)"
    assume call: "call = UpdateErrand cid res"
      and "currency ?w = snd (repatriate_reserved T c ?d ?v (currency w))"
    then obtain r where "repatriate_reserved T c ?d ?v (currency w) = (r, currency ?w)" by (metis prod.collapse)
    from abc_trait.repatriate_funds [OF assms _ UNIV_I UNIV_I this] call show ?thesis
      by (simp add: total_funds_def account_funds_def dust_bound_def)
  qed
  then show "total_funds T ?w \<le> total_funds T w"
    and "total_funds T w \<le> total_funds T ?w + (if is_vote call then dust_bound T else 0)" by blast+
qed

section \<open>Properties\<close>

text \<open>
  C16: nobody but its owner can lower an account's free balance, except that a vote may close the account. Whatever call is
  dispatched from whatever origin, an account's free balance falls by at most the fee of a \<^verbatim>\<open>begin_task\<close> that the
  account itself signs; or the call is a vote, by an account that may update results, on an errand of the account, which
  had in all less than its fee and the minimum balance, and the payment leaves it nothing.
\<close>

theorem free_balance_protected:
  assumes "abc_trait T"
  shows "free_balance T (currency w) a \<le>
           free_balance T (currency (snd (dispatch T origin call w))) a +
             (case (origin, call) of
                (Signed s, BeginTask n cid fee) \<Rightarrow> if s = a then unat fee else 0
              | _ \<Rightarrow> 0) \<or>
         votes_for T w origin call a \<and> closed T (snd (dispatch T origin call w)) a \<and>
           account_funds T w a < unat (storage_get 0 (ClientTaskFee w) a) + minimum_balance T"
  by (rule abc_trait.account_cases [OF assms, where a = a and w = w and origin = origin and call = call]) auto

definition demo_voted :: "(AccountId32, AccountId32 ledger) chain" where
  "demo_voted = run_extrinsics ref_trait [(Signed alice, UpdateErrand demo_cid [1])] demo_inited"

text \<open>Alice with 490 free and 40 reserved: the payment of 40 leaves her below the minimum of 500.\<close>

definition demo_poor :: "(AccountId32, AccountId32 ledger) chain" where
  "demo_poor = demo_voted\<lparr>currency := ledger_put alice 490 40 demo_ledger\<rparr>"

theorem free_balance_protected_witness:
  "let w' = snd (dispatch ref_trait (Signed carol) (UpdateErrand demo_cid [2]) demo_poor)
   in free_balance ref_trait (currency demo_poor) alice = 490 \<and> free_balance ref_trait (currency w') alice = 0 \<and>
      closed ref_trait w' alice \<and> account_funds ref_trait demo_poor alice = 530"
proof -
  let ?w = "snd (dispatch ref_trait (Signed carol) (UpdateErrand demo_cid [2]) demo_poor)"
  have "free_balance ref_trait (currency demo_poor) alice = 490" "free_balance ref_trait (currency ?w) alice = 0"
    "account_funds ref_trait demo_poor alice = 530" by code_simp+
  with free_balance_protected [OF rt.abc_trait_axioms, of demo_poor alice "Signed carol" "UpdateErrand demo_cid [2]"]
  show ?thesis by (simp add: Let_def)
qed

text \<open>
  C18: a client's reserve is only ever paid out by a vote. If a call lowers the reserved balance of
  an account, it is an \<^verbatim>\<open>update_errand\<close> signed by an account that may update results, on an errand of that account, and
  the reserve falls by at most the fee on record; or the account had in all less than its fee and the minimum balance, and
  the payment leaves it nothing.
\<close>

theorem reserve_paid_by_vote_only:
  assumes "abc_trait T"
    and "reserved_balance T (currency (snd (dispatch T origin call w))) a <
         reserved_balance T (currency w) a"
  shows "votes_for T w origin call a \<and>
         (reserved_balance T (currency w) a \<le>
            reserved_balance T (currency (snd (dispatch T origin call w))) a + unat (storage_get 0 (ClientTaskFee w) a) \<or>
          closed T (snd (dispatch T origin call w)) a \<and>
            account_funds T w a < unat (storage_get 0 (ClientTaskFee w) a) + minimum_balance T)"
  by (rule abc_trait.held_drop [OF assms])

theorem reserve_paid_by_vote_only_witness:
  "reserved_balance ref_trait (currency demo_voted) alice = 40 \<and>
   reserved_balance ref_trait
     (currency (snd (dispatch ref_trait (Signed carol) (UpdateErrand demo_cid [2]) demo_voted))) alice = 0 \<and>
   votes_for ref_trait demo_voted (Signed carol) (UpdateErrand demo_cid [2]) alice"
proof -
  have a: "reserved_balance ref_trait (currency demo_voted) alice = 40" by code_simp
  have b: "reserved_balance ref_trait
     (currency (snd (dispatch ref_trait (Signed carol) (UpdateErrand demo_cid [2]) demo_voted))) alice = 0"
    by code_simp
  from a b have "reserved_balance ref_trait
       (currency (snd (dispatch ref_trait (Signed carol) (UpdateErrand demo_cid [2]) demo_voted))) alice <
     reserved_balance ref_trait (currency demo_voted) alice" by simp
  from a b reserve_paid_by_vote_only [OF rt.abc_trait_axioms this] show ?thesis by auto
qed

text \<open>
  C17: the pallet makes no money, and burns only dust. Over all accounts, the sum of the free and reserved balances never
  rises over a list of extrinsics, whatever their origins and results; it falls only with calls of
  \<^verbatim>\<open>update_errand\<close>, and with each by at most what two accounts can have below the minimum balance.
\<close>

theorem funds_conserved:
  fixes T :: "('a :: finite, 'c) Trait"
  assumes "abc_trait T"
  shows "total_funds T (run_extrinsics T xs w) \<le> total_funds T w \<and>
         total_funds T w \<le> total_funds T (run_extrinsics T xs w) + length (filter (is_vote \<circ> snd) xs) * dust_bound T"
proof (induction xs arbitrary: w)
  case (Cons x xs)
  obtain origin call where x: "x = (origin, call)" by fastforce
  from dispatch_total_funds [OF assms, where w = w and origin = origin and call = call]
    Cons [of "snd (dispatch T origin call w)"] show ?case
    by (cases "is_vote call") (auto simp: x)
qed simp

theorem funds_conserved_witness:
  "total_funds ref_trait demo_begun = total_funds ref_trait demo_ready \<and> currency demo_begun \<noteq> currency demo_ready \<and>
   total_funds ref_trait demo_done \<le> total_funds ref_trait demo_start"
proof -
  have "free_balance ref_trait (currency demo_begun) alice = 960" "free_balance ref_trait (currency demo_ready) alice = 1000"
    by code_simp+
  then have "currency demo_begun \<noteq> currency demo_ready" by auto
  moreover have "total_funds ref_trait demo_begun = total_funds ref_trait demo_ready"
    using funds_conserved [OF rt.abc_trait_axioms, of "[(Signed alice, BeginTask demo_name demo_cid 40)]" demo_ready]
    unfolding demo_begun_def by simp
  moreover have "total_funds ref_trait demo_done \<le> total_funds ref_trait demo_start"
    using funds_conserved [OF rt.abc_trait_axioms] unfolding demo_done_def demo_inited_def demo_begun_def demo_ready_def
    by (meson order_trans)
  ultimately show ?thesis by blast
qed

text \<open>
  C15: the deciding vote settles the errand. In production mode, let an account that may update results vote on an errand
  in progress that has a vote on record. The call succeeds, the errand is finished with this result and the vote is
  added. If the currency refuses the payment, no balance has changed; otherwise the delegate on
  record for the client has received the fee on record, as far as the client's reserve goes, and the
  client's reserve has fallen by the same amount; nobody else's balances have moved, and an account left below the minimum
  balance has nothing.
\<close>

theorem deciding_vote_pays_delegate:
  assumes T: "abc_trait T" and s: "approver T w s" and prod: "\<not> DevelopmentMode w"
    and e: "Errands w cid = Some e" "e_status e = Processing" "e_account_id e = encode T c"
    and v: "votes w cid \<noteq> []"
    and rec: "ClientDelegate w c = Some d" "ClientTaskFee w c = Some fee"
    and w': "update_errand T (Signed s) cid res w = (r, w')"
    and m: "m = (case fst (repatriate_reserved T c d (unat fee) (currency w)) of
                   Inl refused \<Rightarrow> 0 | Inr rest \<Rightarrow> min (unat fee) (reserved_balance T (currency w) c))"
  shows "r = Inr () \<and> view w' cid = (Finished res, votes w cid @ [s]) \<and>
         (\<forall>a. (free_balance T (currency w') a, reserved_balance T (currency w') a) =
            kept (minimum_balance T)
              (free_balance T (currency w) a + (if a = d then m else 0),
               reserved_balance T (currency w) a - (if a = c then m else 0)))"
proof -
  note vote = abc_trait.deciding_vote [OF T s prod e v rec, of res, unfolded w' fst_conv snd_conv]
  obtain p where p: "repatriate_reserved T c d (unat fee) (currency w) = (p, currency w')"
    using vote(3) by (metis prod.collapse)
  have "(free_balance T (currency w') a, reserved_balance T (currency w') a) =
      kept (minimum_balance T) (free_balance T (currency w) a + (if a = d then m else 0),
        reserved_balance T (currency w) a - (if a = c then m else 0))" for a
  proof (cases p)
    case (Inl refused)
    with p m abc_trait.repatriate_refused [OF T, of c d "unat fee" "currency w" refused] abc_trait.keeps_minimum [OF T, of "currency w" a]
    show ?thesis by auto
  next
    case (Inr rest)
    with p m abc_trait.repatriate_law [OF T, of c d "unat fee" "currency w" rest "currency w'"] show ?thesis by simp
  qed
  with vote(1,2) show ?thesis by blast
qed

theorem deciding_vote_pays_delegate_witness:
  "free_balance ref_trait (currency demo_voted) bob = 1000 \<and>
   free_balance ref_trait
     (currency (snd (update_errand ref_trait (Signed carol) demo_cid [2] demo_voted))) bob = 1040"
proof -
  have s: "approver ref_trait demo_voted carol" by code_simp
  have p: "\<not> DevelopmentMode demo_voted" by code_simp
  let ?e = "\<lparr> e_account_id = encode ref_trait alice, e_errand_id = [9],
      e_description_cid = demo_cid, e_status = Processing, e_result = [] \<rparr>"
  have e: "Errands demo_voted demo_cid = Some ?e" by code_simp
  have v: "votes demo_voted demo_cid \<noteq> []" by code_simp
  have d: "ClientDelegate demo_voted alice = Some bob" by code_simp
  have f: "ClientTaskFee demo_voted alice = Some 40" by code_simp
  have "fst (repatriate_reserved ref_trait alice bob (unat (40 :: u32)) (currency demo_voted)) = Inr 0"
    "reserved_balance ref_trait (currency demo_voted) alice = 40" by code_simp+
  then have m: "40 = (case fst (repatriate_reserved ref_trait alice bob (unat (40 :: u32)) (currency demo_voted)) of
      Inl refused \<Rightarrow> 0 | Inr rest \<Rightarrow> min (unat (40 :: u32)) (reserved_balance ref_trait (currency demo_voted) alice))"
    by simp
  have b: "free_balance ref_trait (currency demo_voted) bob = 1000" "reserved_balance ref_trait (currency demo_voted) bob = 0"
    "minimum_balance ref_trait = 500" "bob \<noteq> alice" by code_simp+
  from deciding_vote_pays_delegate [OF rt.abc_trait_axioms s p e _ _ v d f prod.collapse [symmetric] m, of "[2]", THEN conjunct2, THEN conjunct2,
      THEN spec, of bob] b show ?thesis by simp
qed

end
