(* ===== verification/Delegate_Lifecycle.thy ===== *)
theory Delegate_Lifecycle
  imports Scenario
begin

text \<open>
  The life of a delegate: who can move a delegate entry, and what becomes of a name. Every call is
  a step of the three-state machine absent, requested, ready.
\<close>

section \<open>Moves of a delegate entry\<close>

inductive delegate_move ::
    "'a Origin \<Rightarrow> 'a Call \<Rightarrow> 'a \<Rightarrow> bool option \<Rightarrow> bool option \<Rightarrow> bool" for origin call a where
  unmoved: "delegate_move origin call a x x"
| asked: "origin = Signed a \<Longrightarrow> call = RequestDelegate n addr \<Longrightarrow>
     delegate_move origin call a None (Some False)"
| confirmed: "origin = Signed a \<Longrightarrow> call = UpdateDelegateStatus a \<Longrightarrow>
     delegate_move origin call a (Some b) (Some True)"
| removed: "call = Unreserve n a \<Longrightarrow> delegate_move origin call a x None"

inductive_cases move_to_readyE: "delegate_move origin call a x (Some True)"

lemma request_delegate_move:
  "delegate_move origin (RequestDelegate n addr) a (Delegates w a)
     (Delegates (snd (request_delegate origin n addr w)) a)"
proof (cases "origin = Signed a \<and> Delegates w a = None")
  case True
  then have "Delegates (snd (request_delegate origin n addr w)) a = Some False"
    by (simp add: request_delegate_def Let_def contains_key_def)
  with True show ?thesis by (simp add: delegate_move.asked)
next
  case False
  then have "Delegates (snd (request_delegate origin n addr w)) a = Delegates w a"
    by (cases origin) (auto simp: request_delegate_def Let_def contains_key_def)
  then show ?thesis by (simp add: delegate_move.unmoved)
qed

lemma update_delegate_status_move:
  "delegate_move origin (UpdateDelegateStatus u) a (Delegates w a)
     (Delegates (snd (update_delegate_status origin u w)) a)"
proof (cases "origin = Signed a \<and> u = a \<and> Delegates w a \<noteq> None")
  case True
  then have "Delegates (snd (update_delegate_status origin u w)) a = Some True"
    by (simp add: update_delegate_status_def contains_key_def)
  with True show ?thesis by (auto simp: delegate_move.confirmed)
next
  case False
  then have "Delegates (snd (update_delegate_status origin u w)) a = Delegates w a"
    by (cases origin) (auto simp: update_delegate_status_def contains_key_def)
  then show ?thesis by (simp add: delegate_move.unmoved)
qed

lemma unreserve_move:
  "delegate_move origin (Unreserve n c) a (Delegates w a) (Delegates (snd (unreserve T origin n c w)) a)"
  by (cases "c = a") (simp_all add: unreserve_def Let_def delegate_move.removed delegate_move.unmoved)

lemma dispatch_move:
  "delegate_move origin call a (Delegates w a) (Delegates (snd (dispatch T origin call w)) a)"
  by (cases call)
    (simp_all add: request_delegate_move update_delegate_status_move unreserve_move frame_simps
      delegate_move.unmoved)

section \<open>Properties\<close>

text \<open>
  C21: an account becomes a ready delegate only by its own hand. If a call makes an account ready
  that was not, the account itself signed an \<^verbatim>\<open>update_delegate_status\<close> naming itself, and it had
  asked before.
\<close>

theorem ready_only_by_own_call:
  assumes "Delegates (snd (dispatch T origin call w)) a = Some True" and "Delegates w a \<noteq> Some True"
  shows "origin = Signed a \<and> call = UpdateDelegateStatus a \<and> Delegates w a = Some False"
proof -
  from dispatch_move [of origin call a w T] assms(1)
  have "delegate_move origin call a (Delegates w a) (Some True)" by simp
  with assms(2) show ?thesis by (auto elim!: move_to_readyE)
qed

definition demo_requested :: "(AccountId32, AccountId32 ledger) chain" where
  "demo_requested = run_extrinsics ref_trait [(Signed bob, RequestDelegate demo_name [49])] demo_start"

theorem ready_only_by_own_call_witness:
  "Delegates (snd (dispatch ref_trait (Signed bob) (UpdateDelegateStatus bob) demo_requested)) bob = Some True \<and>
   Delegates demo_requested bob = Some False"
proof -
  have r: "Delegates (snd (dispatch ref_trait (Signed bob) (UpdateDelegateStatus bob) demo_requested)) bob
      = Some True" by code_simp
  have n: "Delegates demo_requested bob \<noteq> Some True" by code_simp
  from r ready_only_by_own_call [OF r n] show ?thesis by simp
qed

text \<open>
  Whatever call from whatever origin, the entry of an account moves along the edges of the
  life cycle only: absent to requested by the account's request, requested or ready to ready by its
  confirmation, anything to absent by an \<^verbatim>\<open>unreserve\<close> that names it.
\<close>

theorem delegate_lifecycle:
  "delegate_move origin call a (Delegates w a) (Delegates (snd (dispatch T origin call w)) a)"
  by (rule dispatch_move)

text \<open>
  A fresh account can become a delegate and be used. After its request and its confirmation it
  is ready, known under its name with its address, and on the list of its block.
\<close>

theorem request_then_confirm:
  assumes "Delegates w a = None"
    and "w' = run_extrinsics T [(Signed a, RequestDelegate n addr), (Signed a, UpdateDelegateStatus a)] w"
  shows "Delegates w' a = Some True \<and> DelegateAccounts w' n = Some a \<and>
         DelegateNetAddress w' a = Some addr \<and>
         DelegatesApplys w' (block_number w) =
           Some (storage_get [] (DelegatesApplys w) (block_number w) @ [(n, a)]) \<and>
         events w' = events w @ [DelegateRequested a n, DelegateUpdated a]"
  using assms
  by (simp add: request_delegate_def update_delegate_status_def Let_def contains_key_def)

theorem request_then_confirm_witness:
  "Delegates demo_start carol = None \<and>
   Delegates (run_extrinsics ref_trait
     [(Signed carol, RequestDelegate [1] [2]), (Signed carol, UpdateDelegateStatus carol)] demo_start) carol
     = Some True"
proof -
  have n: "Delegates demo_start carol = None" by code_simp
  from n request_then_confirm [OF n refl, of ref_trait "[1]" "[2]"] show ?thesis by blast
qed

text \<open>
  A name belongs to whoever asked for it last. A fresh account that asks under a name already
  bound to another account takes the name over, and once it confirms itself, tasks begun under that
  name go to it.
\<close>

theorem name_taken_over:
  assumes "DelegateAccounts w n = Some a" and "Delegates w b = None" and "Errands w cid = None"
    and "cid \<notin> t_description_cid ` set (block_tasks w)" and "0 < fee"
    and "reserve T c (unat fee) (currency w) = Inr cur"
    and "w' = run_extrinsics T [(Signed b, RequestDelegate n addr), (Signed b, UpdateDelegateStatus b),
           (Signed c, BeginTask n cid fee)] w"
  shows "DelegateAccounts w' n = Some b \<and> ClientDelegate w' c = Some b"
proof -
  define v where "v = run_extrinsics T [(Signed b, RequestDelegate n addr), (Signed b, UpdateDelegateStatus b)] w"
  have v: "DelegateAccounts v n = Some b" "Delegates v b = Some True" "Errands v = Errands w"
    "Tasks v = Tasks w" "block_number v = block_number w" "currency v = currency w"
    using assms(2) by (simp_all add: v_def request_delegate_def update_delegate_status_def Let_def
        contains_key_def)
  have "task_startable T c n b cid fee v"
    using v assms(3,4,5) by (simp add: task_startable_def)
  moreover have "reserve T c (unat fee) (currency v) = Inr cur" using v assms(6) by simp
  ultimately have "begin_task T (Signed c) n cid fee v = (Inr (), task_begun T c n b cid fee cur v)"
    by (auto simp: begin_task_ok_iff)
  then have "w' = task_begun T c n b cid fee cur v"
    using assms(7) by (simp add: v_def)
  with v show ?thesis by (simp add: task_begun_def)
qed

theorem name_taken_over_witness:
  "DelegateAccounts demo_ready demo_name = Some bob \<and>
   ClientDelegate (run_extrinsics ref_trait
     [(Signed carol, RequestDelegate demo_name [2]), (Signed carol, UpdateDelegateStatus carol),
      (Signed alice, BeginTask demo_name demo_cid 40)] demo_ready) alice = Some carol"
proof -
  have 1: "DelegateAccounts demo_ready demo_name = Some bob" by code_simp
  have 2: "Delegates demo_ready carol = None" by code_simp
  have 3: "Errands demo_ready demo_cid = None" by code_simp
  have "block_tasks demo_ready = []" by code_simp
  then have 4: "demo_cid \<notin> t_description_cid ` set (block_tasks demo_ready)" by simp
  have 5: "0 < (40 :: u32)" by simp
  have "\<not> isl (reserve ref_trait alice (unat (40 :: u32)) (currency demo_ready))" by code_simp
  then obtain cur where 6: "reserve ref_trait alice (unat (40 :: u32)) (currency demo_ready) = Inr cur"
    by (cases "reserve ref_trait alice (unat (40 :: u32)) (currency demo_ready)") auto
  from 1 name_taken_over [OF 1 2 3 4 5 6 refl] show ?thesis by simp
qed

text \<open>
  \<^verbatim>\<open>unreserve\<close> checks nothing. Any origin, signed by anybody or not signed at all, removes any
  account from the delegates and any name from the names.
\<close>

theorem unreserve_unprotected:
  "fst (unreserve T origin n client w) = Inr () \<and>
   Delegates (snd (unreserve T origin n client w)) client = None \<and>
   ClientDelegate (snd (unreserve T origin n client w)) client = None \<and>
   DelegateAccounts (snd (unreserve T origin n client w)) n = None"
  by (simp add: unreserve_def Let_def)

end
