(* ===== verification/Task_Entry.thy ===== *)
theory Task_Entry
  imports Scenario
begin

text \<open>
  Properties of \<^verbatim>\<open>begin_task\<close>: what a successful call records and reserves, which error every
  other call gets, and what a failing call leaves behind.
\<close>

section \<open>The result of a call\<close>

text \<open>The guards of \<^verbatim>\<open>begin_task\<close> as a decision, in the order of the code.\<close>

definition begin_task_verdict ::
    "('a, 'c) Trait \<Rightarrow> 'a Origin \<Rightarrow> DelegatorName \<Rightarrow> Cid \<Rightarrow> u32 \<Rightarrow> ('a, 'c) chain \<Rightarrow> DispatchResult"
  where
  "begin_task_verdict T origin n cid fee w =
     (case origin of
        Signed client \<Rightarrow>
          (case DelegateAccounts w n of
             None \<Rightarrow> Inl (Abc ClientDelegatorNotExist)
           | Some d \<Rightarrow>
               (case Delegates w d of
                  None \<Rightarrow> Inl (Abc ClientNotExist)
                | Some ready \<Rightarrow>
                    if \<not> ready then Inl (Abc ClientNotReady)
                    else if Errands w cid \<noteq> None \<or> cid \<in> t_description_cid ` set (block_tasks w)
                    then Inl (Abc ErrandAlreadyExecuted)
                    else if fee = 0 then Inl (Abc InsufficientFee)
                    else case reserve T client (unat fee) (currency w) of
                           Inl e \<Rightarrow> Inl e
                         | Inr _ \<Rightarrow> Inr ()))
      | _ \<Rightarrow> Inl BadOrigin)"

context abc_trait
begin

lemma begin_task_effect:
  assumes "begin_task T (Signed c) n cid fee w = (Inr (), w')"
  shows "\<exists>d ti. DelegateAccounts w n = Some d \<and> Delegates w d = Some True \<and>
     ti = task_of T w c n d cid fee \<and>
     block_tasks w' = block_tasks w @ [ti] \<and>
     ClientDelegate w' = (ClientDelegate w)(c := Some d) \<and>
     ClientTaskFee w' = (ClientTaskFee w)(c := Some fee) \<and>
     free_balance T (currency w) c = free_balance T (currency w') c + unat fee \<and>
     reserved_balance T (currency w') c = reserved_balance T (currency w) c + unat fee \<and>
     (\<forall>a. a \<noteq> c \<longrightarrow> free_balance T (currency w') a = free_balance T (currency w) a \<and>
                    reserved_balance T (currency w') a = reserved_balance T (currency w) a) \<and>
     events w' = events w @ [TaskBegan c cid d]"
proof -
  from assms obtain d cur where start: "task_startable T c n d cid fee w"
    and res: "reserve T c (unat fee) (currency w) = Inr cur"
    and w': "w' = task_begun T c n d cid fee cur w"
    by (auto simp: begin_task_ok_iff)
  from hold_ok [OF res] have "currency w' = cur" and "unat fee \<le> free_balance T (currency w) c"
    by (simp_all add: w' task_begun_def)
  with start hold_ok [OF res] show ?thesis
    by (simp add: w' task_begun_def task_startable_def storage_insert_def)
qed

end

section \<open>Properties\<close>

text \<open>
  C13: a successful \<^verbatim>\<open>begin_task\<close> goes to a ready delegate, appends exactly one task to the list of
  the block, moves exactly the fee from the free to the reserved balance of the client, records the
  delegate and the fee, and touches nobody else's balances.
\<close>

theorem begin_task_records_and_reserves:
  assumes "abc_trait T" and "begin_task T (Signed c) n cid fee w = (Inr (), w')"
  shows "\<exists>d ti. DelegateAccounts w n = Some d \<and> Delegates w d = Some True \<and>
     ti = task_of T w c n d cid fee \<and>
     block_tasks w' = block_tasks w @ [ti] \<and>
     ClientDelegate w' = (ClientDelegate w)(c := Some d) \<and>
     ClientTaskFee w' = (ClientTaskFee w)(c := Some fee) \<and>
     free_balance T (currency w) c = free_balance T (currency w') c + unat fee \<and>
     reserved_balance T (currency w') c = reserved_balance T (currency w) c + unat fee \<and>
     (\<forall>a. a \<noteq> c \<longrightarrow> free_balance T (currency w') a = free_balance T (currency w) a \<and>
                    reserved_balance T (currency w') a = reserved_balance T (currency w) a) \<and>
     events w' = events w @ [TaskBegan c cid d]"
  by (rule abc_trait.begin_task_effect [OF assms])

theorem begin_task_records_and_reserves_witness:
  "\<exists>w'. begin_task ref_trait (Signed alice) demo_name demo_cid 40 demo_ready = (Inr (), w') \<and>
        reserved_balance ref_trait (currency w') alice =
          reserved_balance ref_trait (currency demo_ready) alice + 40"
proof -
  have "fst (begin_task ref_trait (Signed alice) demo_name demo_cid 40 demo_ready) = Inr ()" by code_simp
  then obtain w' where w': "begin_task ref_trait (Signed alice) demo_name demo_cid 40 demo_ready = (Inr (), w')"
    by (metis prod.collapse)
  from begin_task_records_and_reserves [OF rt.abc_trait_axioms w'] w' show ?thesis by auto
qed

text \<open>
  C14: the result of \<^verbatim>\<open>begin_task\<close> on every input, errors included, in the order of its guards: no
  signature, unknown name, removed delegate, delegate not ready, errand or task already there, no
  fee, and finally whatever the currency answers.
\<close>

theorem begin_task_result:
  "fst (begin_task T origin n cid fee w) = begin_task_verdict T origin n cid fee w"
proof (cases origin)
  case (Signed client)
  then show ?thesis
    by (auto simp: begin_task_verdict_def begin_task_signed enter_task_outcome task_of_def
        word_greater_zero_iff split: option.split sum.split)
qed (simp_all add: begin_task_verdict_def begin_task_def)

text \<open>
  C32: a \<^verbatim>\<open>begin_task\<close> that fails late loses the tasks of its block. Where the delegate is ready and
  the errand new, a duplicate description, a zero fee or a refused reservation leaves the block
  without its task list, although tasks with reserved fees were on it.
\<close>

theorem failed_begin_task_loses_tasks:
  assumes "DelegateAccounts w n = Some d" and "Delegates w d = Some True" and "Errands w cid = None"
    and "Tasks w (block_number w) = Some l"
    and "fst (begin_task T (Signed c) n cid fee w) = Inl e"
  shows "Tasks (snd (begin_task T (Signed c) n cid fee w)) (block_number w) = None \<and>
         currency (snd (begin_task T (Signed c) n cid fee w)) = currency w"
  using assms
  by (auto simp: begin_task_signed enter_task_outcome split: if_splits sum.splits)

theorem failed_begin_task_loses_tasks_witness:
  "length (block_tasks demo_begun) = 1 \<and>
   fst (begin_task ref_trait (Signed carol) demo_name [6] 0 demo_begun) = Inl (Abc InsufficientFee) \<and>
   Tasks (snd (begin_task ref_trait (Signed carol) demo_name [6] 0 demo_begun)) (block_number demo_begun) = None"
proof -
  have 1: "DelegateAccounts demo_begun demo_name = Some bob" by code_simp
  have 2: "Delegates demo_begun bob = Some True" by code_simp
  have 3: "Errands demo_begun [6] = None" by code_simp
  have len: "length (block_tasks demo_begun) = 1" by code_simp
  then obtain l where 4: "Tasks demo_begun (block_number demo_begun) = Some l"
    by (auto simp: storage_get_def split: option.splits)
  have 5: "fst (begin_task ref_trait (Signed carol) demo_name [6] 0 demo_begun) = Inl (Abc InsufficientFee)"
    by code_simp
  from len 5 failed_begin_task_loses_tasks [OF 1 2 3 4 5] show ?thesis by simp
qed

text \<open>
  The fee is kept per client, not per task. After two tasks of one client the reserve holds the
  sum of both fees, but the fee on record, which settlement pays for either of them, is the second
  one.
\<close>

theorem second_task_overwrites_fee:
  assumes "abc_trait T"
    and "begin_task T (Signed c) n1 cid1 fee1 w = (Inr (), w1)"
    and "begin_task T (Signed c) n2 cid2 fee2 w1 = (Inr (), w2)"
  shows "reserved_balance T (currency w2) c =
           reserved_balance T (currency w) c + unat fee1 + unat fee2 \<and>
         ClientTaskFee w2 c = Some fee2"
  using abc_trait.begin_task_effect [OF assms(1,2)] abc_trait.begin_task_effect [OF assms(1,3)]
  by auto

theorem second_task_overwrites_fee_witness:
  "\<exists>w2. begin_task ref_trait (Signed alice) demo_name [6] 10 demo_begun = (Inr (), w2) \<and>
        reserved_balance ref_trait (currency w2) alice = 50 \<and> ClientTaskFee w2 alice = Some 10"
proof -
  have "fst (begin_task ref_trait (Signed alice) demo_name demo_cid 40 demo_ready) = Inr ()" by code_simp
  moreover have "snd (begin_task ref_trait (Signed alice) demo_name demo_cid 40 demo_ready) = demo_begun"
    by (simp add: demo_begun_def)
  ultimately have 1: "begin_task ref_trait (Signed alice) demo_name demo_cid 40 demo_ready = (Inr (), demo_begun)"
    by (metis prod.collapse)
  have "fst (begin_task ref_trait (Signed alice) demo_name [6] 10 demo_begun) = Inr ()" by code_simp
  then obtain w2 where 2: "begin_task ref_trait (Signed alice) demo_name [6] 10 demo_begun = (Inr (), w2)"
    by (metis prod.collapse)
  have "reserved_balance ref_trait (currency demo_ready) alice = 0" by code_simp
  with 2 second_task_overwrites_fee [OF rt.abc_trait_axioms 1 2] show ?thesis by auto
qed

end
