(* ===== verification/Rust_Strings.thy ===== *)
theory Rust_Strings
  imports Prelude
begin

text \<open>
  Strings as the Rust code has them: a \<^verbatim>\<open>String\<close> is a vector of bytes that is valid UTF-8.
  \<open>utf8_valid\<close> is the validation of \<^verbatim>\<open>String::from_utf8\<close> (the well-formed byte sequences of the
  Unicode standard, table 3-7), \<open>dec_digits\<close> the decimal \<^verbatim>\<open>Display\<close> of an unsigned integer, and
  the two error types are \<^verbatim>\<open>AbcError\<close> of \<^verbatim>\<open>pallets/abc-demo/src/error.rs\<close> and \<^verbatim>\<open>anyhow::Error\<close>, which
  wraps it, a UTF-8 error, a message, a message that ends with the display of another error
  (\<open>Details\<close>), or an error of another crate.
\<close>

section \<open>UTF-8\<close>

definition cont_byte :: "u8 \<Rightarrow> bool" where
  "cont_byte b \<longleftrightarrow> 0x80 \<le> b \<and> b \<le> 0xBF"

definition second_of_three :: "u8 \<Rightarrow> u8 \<Rightarrow> bool" where
  "second_of_three a b \<longleftrightarrow>
     (if a = 0xE0 then 0xA0 \<le> b \<and> b \<le> 0xBF
      else if a = 0xED then 0x80 \<le> b \<and> b \<le> 0x9F
      else cont_byte b)"

definition second_of_four :: "u8 \<Rightarrow> u8 \<Rightarrow> bool" where
  "second_of_four a b \<longleftrightarrow>
     (if a = 0xF0 then 0x90 \<le> b \<and> b \<le> 0xBF
      else if a = 0xF4 then 0x80 \<le> b \<and> b \<le> 0x8F
      else cont_byte b)"

text \<open>The number of bytes the first byte announces; none for a byte no character starts with.\<close>

definition utf8_width :: "u8 \<Rightarrow> nat option" where
  "utf8_width a =
     (if a < 0x80 then Some 1
      else if 0xC2 \<le> a \<and> a \<le> 0xDF then Some 2
      else if 0xE0 \<le> a \<and> a \<le> 0xEF then Some 3
      else if 0xF0 \<le> a \<and> a \<le> 0xF4 then Some 4
      else None)"

fun utf8_valid :: "bytes \<Rightarrow> bool" where
  "utf8_valid [] = True"
| "utf8_valid (a # bs) =
     (if utf8_width a = Some 1 then utf8_valid bs
      else if utf8_width a = Some 2
      then (case bs of b # cs \<Rightarrow> cont_byte b \<and> utf8_valid cs | _ \<Rightarrow> False)
      else if utf8_width a = Some 3
      then (case bs of b # c # ds \<Rightarrow> second_of_three a b \<and> cont_byte c \<and> utf8_valid ds | _ \<Rightarrow> False)
      else if utf8_width a = Some 4
      then (case bs of b # c # d # es \<Rightarrow>
                second_of_four a b \<and> cont_byte c \<and> cont_byte d \<and> utf8_valid es | _ \<Rightarrow> False)
      else False)"

text \<open>ASCII literals, and decimal numbers.\<close>

definition ascii :: "string \<Rightarrow> bytes" where
  "ascii s = map of_char s"

definition dec_digit :: "nat \<Rightarrow> u8" where
  "dec_digit n = of_nat (48 + n)"

fun dec_digits :: "nat \<Rightarrow> bytes" where
  "dec_digits n = (if n < 10 then [dec_digit n] else dec_digits (n div 10) @ [dec_digit (n mod 10)])"

declare dec_digits.simps [simp del]

section \<open>Errors\<close>

datatype AbcError =
    Common bytes
  | HttpRequestError bytes
  | HttpResponseError bytes
  | Other anyhow
and anyhow = OfAbc AbcError | Utf8Error | Text bytes | Details bytes anyhow | Foreign_Error bytes

definition from_utf8 :: "bytes \<Rightarrow> anyhow + bytes" where
  "from_utf8 bs = (if utf8_valid bs then Inr bs else Inl Utf8Error)"

section \<open>Facts\<close>

lemma from_utf8_Inr [simp]: "from_utf8 bs = Inr s \<longleftrightarrow> s = bs \<and> utf8_valid bs"
  by (auto simp: from_utf8_def)

lemma from_utf8_Inl: "from_utf8 bs = Inl e \<longleftrightarrow> e = Utf8Error \<and> \<not> utf8_valid bs"
  by (auto simp: from_utf8_def)

lemma from_utf8_valid [simp]: "utf8_valid bs \<Longrightarrow> from_utf8 bs = Inr bs"
  by simp

text \<open>Appending valid strings gives a valid string, as \<^verbatim>\<open>push_str\<close> and \<^verbatim>\<open>format!\<close> rely on.\<close>

lemma utf8_valid_append: "utf8_valid xs \<Longrightarrow> utf8_valid ys \<Longrightarrow> utf8_valid (xs @ ys)"
  by (induction xs rule: utf8_valid.induct) (auto split: if_splits list.splits)

lemma utf8_valid_single: "b < 0x80 \<Longrightarrow> utf8_valid (b # bs) = utf8_valid bs"
  by (simp add: utf8_width_def)

lemma utf8_valid_ascii: "list_all (\<lambda>b. b < 0x80) bs \<Longrightarrow> utf8_valid bs"
  by (induction bs) (auto simp: utf8_width_def)

lemma dec_digit_ascii: "n < 10 \<Longrightarrow> dec_digit n < 0x80"
  unfolding dec_digit_def word_less_nat_alt unat_of_nat by simp

lemma dec_digits_ascii: "list_all (\<lambda>b. b < 0x80) (dec_digits n)"
proof (induction n rule: dec_digits.induct)
  case (1 n)
  then show ?case
    by (subst dec_digits.simps) (simp add: dec_digit_ascii)
qed

lemma utf8_valid_dec: "utf8_valid (dec_digits n)"
  by (rule utf8_valid_ascii) (rule dec_digits_ascii)

end
