(* ===== verification/Local_Storage.thy ===== *)
theory Local_Storage
  imports Rust_Strings
begin

text \<open>
  \<^verbatim>\<open>pallets/abc-demo/src/storage.rs\<close>: values of the node's persistent off-chain database, guarded by
  a lock that is itself a boolean of the database.

  The database is reached through \<^verbatim>\<open>sp_runtime::offchain::storage::StorageValueRef\<close>, code of another
  crate: its operations are the fields of the record \<open>LocalDb\<close>, on a database state of any type,
  one field for each type of value the pallet stores. What the pallet relies on is the locale
  \<open>local_db\<close>. \<open>lock_mutate\<close> is \<^verbatim>\<open>StorageValueRef::mutate\<close> as it is documented: it hands the decoded
  value to the closure and, unless the closure fails, tries to store the closure's value, which
  succeeds only if nobody changed the value meanwhile.
\<close>

section \<open>Values of the database\<close>

text \<open>\<^verbatim>\<open>ErrandResultInfo\<close> (lib.rs) and \<^verbatim>\<open>DelegateInfo\<close> (delegate.rs), with their strings as bytes.\<close>

record ErrandResultInfo =
  r_completed :: bool
  r_result_cid :: bytes
  r_failed_count :: u32

record DelegateInfo =
  d_delegator_tea_id :: bytes
  d_delegator_ephemeral_id :: bytes
  d_sig :: bytes
  d_key3_rsa_pub_key :: bytes

type_synonym Results = "(bytes \<times> ErrandResultInfo) list"

text \<open>A read answers \<^const>\<open>None\<close> for an absent key and \<^term>\<open>Some None\<close> for a value that does not
  decode.\<close>

record 'd LocalDb =
  lock_get :: "bytes \<Rightarrow> 'd \<Rightarrow> bool option option"
  lock_set :: "bytes \<Rightarrow> bool \<Rightarrow> 'd \<Rightarrow> 'd"
  lock_try_set :: "bytes \<Rightarrow> bool \<Rightarrow> 'd \<Rightarrow> bool \<times> 'd"
  info_get :: "bytes \<Rightarrow> 'd \<Rightarrow> DelegateInfo option option"
  info_set :: "bytes \<Rightarrow> DelegateInfo \<Rightarrow> 'd \<Rightarrow> 'd"
  results_get :: "bytes \<Rightarrow> 'd \<Rightarrow> Results option option"
  results_set :: "bytes \<Rightarrow> Results \<Rightarrow> 'd \<Rightarrow> 'd"

section \<open>Operations\<close>

definition lock_mutate ::
    "('d, 'z) LocalDb_scheme \<Rightarrow> bytes \<Rightarrow> (bool option option \<Rightarrow> 'err + bool) \<Rightarrow> 'd \<Rightarrow>
     ('err + (bool + bool)) \<times> 'd" where
  "lock_mutate H k f d =
     (case f (lock_get H k d) of
        Inl err \<Rightarrow> (Inl err, d)
      | Inr v \<Rightarrow> (case lock_try_set H k v d of
                    (stored, d') \<Rightarrow> (Inr (if stored then Inr v else Inl v), d')))"

text \<open>The lock is free when it was never set or holds \<^const>\<open>False\<close>.\<close>

fun lock_free :: "bool option option \<Rightarrow> bool" where
  "lock_free None = True"
| "lock_free (Some (Some False)) = True"
| "lock_free _ = False"

definition acquire_lock :: "bytes \<Rightarrow> bool option option \<Rightarrow> anyhow + bool" where
  "acquire_lock key s =
     (if lock_free s then Inr True
      else case from_utf8 key of
             Inl e \<Rightarrow> Inl e
           | Inr k \<Rightarrow> Inl (Text (ascii ''local storage key '' @ k @ ascii '' locked'')))"

definition operate_local_storage ::
    "('d, 'z) LocalDb_scheme \<Rightarrow> bytes \<Rightarrow> bytes \<Rightarrow> (bytes \<Rightarrow> 'd \<Rightarrow> 'r \<times> 'd) \<Rightarrow> 'd \<Rightarrow> (anyhow + 'r) \<times> 'd"
  where
  "operate_local_storage H key lock_key callback d =
     (case lock_mutate H lock_key (acquire_lock key) d of
        (Inl e, d1) \<Rightarrow> (Inl e, d1)
      | (Inr (Inr True), d1) \<Rightarrow>
          (case callback key d1 of
             (rtn, d2) \<Rightarrow> (Inr rtn, lock_set H lock_key False d2))
      | (Inr _, d1) \<Rightarrow>
          (case from_utf8 key of
             Inl e \<Rightarrow> (Inl e, d1)
           | Inr k \<Rightarrow> (Inl (Text (ascii ''local storage key '' @ k @ ascii '' lock error'')), d1)))"

section \<open>The contract of the database\<close>

locale local_db =
  fixes H :: "('d, 'z) LocalDb_scheme"
  assumes lock_get_set: "lock_get H k' (lock_set H k b d) = (if k' = k then Some (Some b) else lock_get H k' d)"
    and try_stored: "lock_try_set H k v d = (True, d') \<Longrightarrow> d' = lock_set H k v d"
    and try_refused: "lock_try_set H k v d = (False, d') \<Longrightarrow> d' = d"
    and info_get_set: "info_get H k' (info_set H k i d) = (if k' = k then Some (Some i) else info_get H k' d)"
    and results_get_set:
      "results_get H k' (results_set H k r d) = (if k' = k then Some (Some r) else results_get H k' d)"
    and info_get_lock: "k' \<noteq> k \<Longrightarrow> info_get H k' (lock_set H k b d) = info_get H k' d"
    and results_get_lock: "k' \<noteq> k \<Longrightarrow> results_get H k' (lock_set H k b d) = results_get H k' d"
    and lock_get_info: "k' \<noteq> k \<Longrightarrow> lock_get H k' (info_set H k i d) = lock_get H k' d"
    and lock_get_results: "k' \<noteq> k \<Longrightarrow> lock_get H k' (results_set H k r d) = lock_get H k' d"
    and info_get_results: "k' \<noteq> k \<Longrightarrow> info_get H k' (results_set H k r d) = info_get H k' d"
    and results_get_info: "k' \<noteq> k \<Longrightarrow> results_get H k' (info_set H k i d) = results_get H k' d"
begin

text \<open>The three ways an operation can end.\<close>

lemma operate_cases:
  obtains (held) e where "\<not> lock_free (lock_get H lock_key d)"
      and "operate_local_storage H key lock_key callback d = (Inl e, d)"
  | (raced) e where "lock_free (lock_get H lock_key d)" and "lock_try_set H lock_key True d = (False, d)"
      and "operate_local_storage H key lock_key callback d = (Inl e, d)"
  | (ran) rtn d2 where "lock_free (lock_get H lock_key d)"
      and "lock_try_set H lock_key True d = (True, lock_set H lock_key True d)"
      and "callback key (lock_set H lock_key True d) = (rtn, d2)"
      and "operate_local_storage H key lock_key callback d = (Inr rtn, lock_set H lock_key False d2)"
proof (cases "lock_free (lock_get H lock_key d)")
  case False
  show thesis
  proof (cases "from_utf8 key")
    case (Inl e)
    with False held show thesis
      by (simp add: operate_local_storage_def lock_mutate_def acquire_lock_def)
  next
    case (Inr k)
    with False held show thesis
      by (simp add: operate_local_storage_def lock_mutate_def acquire_lock_def)
  qed
next
  case free: True
  obtain stored d1 where att: "lock_try_set H lock_key True d = (stored, d1)" by fastforce
  show thesis
  proof (cases stored)
    case True
    with att have d1: "d1 = lock_set H lock_key True d" by (simp add: try_stored)
    obtain rtn d2 where cb: "callback key (lock_set H lock_key True d) = (rtn, d2)" by fastforce
    with free True att d1 have
      "operate_local_storage H key lock_key callback d = (Inr rtn, lock_set H lock_key False d2)"
      by (simp add: operate_local_storage_def lock_mutate_def acquire_lock_def)
    with ran free True att d1 cb show thesis by simp
  next
    case False
    with att have d1: "d1 = d" by (simp add: try_refused)
    with free False att have "\<exists>e. operate_local_storage H key lock_key callback d = (Inl e, d)"
      by (simp add: operate_local_storage_def lock_mutate_def acquire_lock_def split: sum.split)
    with raced free False att d1 show thesis by auto
  qed
qed

text \<open>The callback runs at most once and only under the lock; whenever it ran the lock is free again.\<close>

lemma operate_ok:
  assumes "operate_local_storage H key lock_key callback d = (Inr rtn, d')"
  shows "lock_free (lock_get H lock_key d) \<and>
         (\<exists>d2. callback key (lock_set H lock_key True d) = (rtn, d2) \<and> d' = lock_set H lock_key False d2)"
  by (cases rule: operate_cases [of lock_key d key callback]) (use assms in auto)

lemma operate_err:
  assumes "operate_local_storage H key lock_key callback d = (Inl e, d')"
  shows "d' = d"
  by (cases rule: operate_cases [of lock_key d key callback]) (use assms in auto)

lemma operate_lock_free_after:
  "lock_free (lock_get H lock_key d) \<Longrightarrow>
   lock_free (lock_get H lock_key (snd (operate_local_storage H key lock_key callback d)))"
  by (cases rule: operate_cases [of lock_key d key callback]) (auto simp: lock_get_set)

lemma operate_db_keeps:
  assumes "P d" and "\<And>rtn d2. callback key (lock_set H lock_key True d) = (rtn, d2) \<Longrightarrow>
                P (lock_set H lock_key False d2)"
  shows "P (snd (operate_local_storage H key lock_key callback d))"
  by (cases rule: operate_cases [of lock_key d key callback]) (use assms in auto)

lemma operate_blocked:
  "\<not> lock_free (lock_get H lock_key d) \<Longrightarrow>
   \<exists>e. operate_local_storage H key lock_key callback d = (Inl e, d)"
  by (cases rule: operate_cases [of lock_key d key callback]) auto

end

text \<open>A database on which an undisturbed attempt to store a value succeeds: one worker alone.\<close>

locale quiet_db = local_db +
  assumes try_quiet: "lock_try_set H k v d = (True, lock_set H k v d)"
begin

lemma operate_free:
  assumes "lock_free (lock_get H lock_key d)" and "callback key (lock_set H lock_key True d) = (rtn, d2)"
  shows "operate_local_storage H key lock_key callback d = (Inr rtn, lock_set H lock_key False d2)"
  using assms try_quiet [of lock_key True d]
  by (simp add: operate_local_storage_def lock_mutate_def acquire_lock_def)

end

section \<open>A database of maps\<close>

text \<open>A database in which everything computes, for the witnesses: one map per type of value, on
  which a value that does not decode cannot occur.\<close>

record map_db =
  m_locks :: "bytes \<Rightarrow> bool option"
  m_infos :: "bytes \<Rightarrow> DelegateInfo option"
  m_results :: "bytes \<Rightarrow> Results option"

definition map_LocalDb :: "map_db LocalDb" where
  "map_LocalDb =
     \<lparr> lock_get = (\<lambda>k d. map_option Some (m_locks d k)),
       lock_set = (\<lambda>k b d. d\<lparr>m_locks := (m_locks d)(k := Some b)\<rparr>),
       lock_try_set = (\<lambda>k b d. (True, d\<lparr>m_locks := (m_locks d)(k := Some b)\<rparr>)),
       info_get = (\<lambda>k d. map_option Some (m_infos d k)),
       info_set = (\<lambda>k i d. d\<lparr>m_infos := (m_infos d)(k := Some i)\<rparr>),
       results_get = (\<lambda>k d. map_option Some (m_results d k)),
       results_set = (\<lambda>k r d. d\<lparr>m_results := (m_results d)(k := Some r)\<rparr>) \<rparr>"

definition empty_db :: map_db where
  "empty_db = \<lparr> m_locks = (\<lambda>_. None), m_infos = (\<lambda>_. None), m_results = (\<lambda>_. None) \<rparr>"

interpretation mdb: quiet_db map_LocalDb
  by unfold_locales (auto simp: map_LocalDb_def)

section \<open>Properties\<close>

text \<open>
  An operation on the local storage runs its callback under the lock or not at all. If it
  returns a value, the lock was free, the callback was run once with the lock held, and the lock is
  free in the state it leaves; if it fails, the database is as it was.
\<close>

theorem operate_local_storage_locks:
  assumes "local_db H" and "operate_local_storage H key lock_key callback d = (r, d')"
  shows "case r of
           Inl e \<Rightarrow> d' = d
         | Inr rtn \<Rightarrow> lock_free (lock_get H lock_key d) \<and> lock_get H lock_key d' = Some (Some False) \<and>
             (\<exists>d2. callback key (lock_set H lock_key True d) = (rtn, d2) \<and> d' = lock_set H lock_key False d2)"
proof (cases r)
  case (Inl e)
  with assms local_db.operate_err [OF assms(1)] show ?thesis by auto
next
  case (Inr rtn)
  with assms local_db.operate_ok [OF assms(1), of key lock_key callback d rtn d']
  show ?thesis by (auto simp: local_db.lock_get_set [OF assms(1)])
qed

theorem operate_local_storage_locks_witness:
  "\<exists>d'. operate_local_storage map_LocalDb [1] [2] (\<lambda>k d. (k, d)) empty_db = (Inr [1], d') \<and>
        lock_get map_LocalDb [2] d' = Some (Some False)"
proof -
  have "fst (operate_local_storage map_LocalDb [1] [2] (\<lambda>k d. (k, d)) empty_db) = Inr [1]" by code_simp
  then obtain d' where d': "operate_local_storage map_LocalDb [1] [2] (\<lambda>k d. (k, d)) empty_db = (Inr [1], d')"
    by (metis prod.collapse)
  from d' operate_local_storage_locks [OF mdb.local_db_axioms d'] show ?thesis by auto
qed

end
