(* ===== verification/Lock_Protocol.thy ===== *)
theory Lock_Protocol
  imports Local_Storage
begin

text \<open>
  \<^verbatim>\<open>operate_local_storage\<close> under concurrency. Off-chain workers of successive blocks run at the same
  time on one persistent database. The steps of a worker are the calls the function makes on the
  lock: read it (inside \<^verbatim>\<open>mutate\<close>), compare it with the value read and set it (the end of
  \<^verbatim>\<open>mutate\<close>), run the callback, and release. Any interleaving is possible, and a worker may stop for
  good between any two of its calls, as it does when its process is killed. The value of the lock
  survives that, since the database is persistent.
\<close>

section \<open>The machine\<close>

datatype pc =
    Idle
  | Seen "bool option option"
  | Critical
  | Stopped

record 'w lock_state =
  lock_val :: "bool option option"
  pcs :: "'w \<Rightarrow> pc"

definition at :: "'w \<Rightarrow> pc \<Rightarrow> 'w lock_state \<Rightarrow> 'w lock_state" where
  "at w p s = s\<lparr>pcs := (pcs s)(w := p)\<rparr>"

inductive lock_step :: "'w lock_state \<Rightarrow> 'w lock_state \<Rightarrow> bool" where
  read_free: "pcs s w = Idle \<Longrightarrow> lock_free (lock_val s) \<Longrightarrow> lock_step s (at w (Seen (lock_val s)) s)"
| read_held: "pcs s w = Idle \<Longrightarrow> \<not> lock_free (lock_val s) \<Longrightarrow> lock_step s s"
| acquire: "pcs s w = Seen v \<Longrightarrow> lock_val s = v \<Longrightarrow>
    lock_step s (at w Critical s\<lparr>lock_val := Some (Some True)\<rparr>)"
| refuse: "pcs s w = Seen v \<Longrightarrow> lock_val s \<noteq> v \<Longrightarrow> lock_step s (at w Idle s)"
| release: "pcs s w = Critical \<Longrightarrow> lock_step s (at w Idle s\<lparr>lock_val := Some (Some False)\<rparr>)"
| stop: "lock_step s (at w Stopped s)"

inductive_cases lock_stepE: "lock_step s s'"

definition lock_start :: "bool option option \<Rightarrow> 'w lock_state" where
  "lock_start v = \<lparr>lock_val = v, pcs = (\<lambda>_. Idle)\<rparr>"

lemma at_simps [simp]:
  "lock_val (at w p s) = lock_val s"
  "pcs (at w p s) w' = (if w' = w then p else pcs s w')"
  by (simp_all add: at_def)

section \<open>The invariant\<close>

text \<open>A worker remembers only a free lock; a worker in its critical section holds the lock; no two are
  in it.\<close>

definition lock_inv :: "'w lock_state \<Rightarrow> bool" where
  "lock_inv s \<longleftrightarrow>
     (\<forall>w v. pcs s w = Seen v \<longrightarrow> lock_free v) \<and>
     (\<forall>w. pcs s w = Critical \<longrightarrow> lock_val s = Some (Some True)) \<and>
     (\<forall>w w'. pcs s w = Critical \<longrightarrow> pcs s w' = Critical \<longrightarrow> w' = w)"

lemma lock_inv_start: "lock_inv (lock_start v)"
  by (simp add: lock_inv_def lock_start_def)

lemma lock_inv_seen: "lock_inv s \<Longrightarrow> pcs s w = Seen v \<Longrightarrow> lock_val s = v \<Longrightarrow> pcs s w' \<noteq> Critical"
proof
  assume a: "lock_inv s" "pcs s w = Seen v" "lock_val s = v" "pcs s w' = Critical"
  then have "lock_free v" and "lock_val s = Some (Some True)" unfolding lock_inv_def by blast+
  with a(3) show False by auto
qed

lemma lock_inv_step:
  assumes "lock_step s s'" and "lock_inv s"
  shows "lock_inv s'"
  using assms(1)
proof cases
  case (acquire w v)
  with assms(2) have "pcs s w' \<noteq> Critical" for w' using lock_inv_seen [of s w v w'] by simp
  with acquire assms(2) show ?thesis by (auto simp: lock_inv_def)
next
  case (release w)
  with assms(2) show ?thesis by (fastforce simp: lock_inv_def)
qed (use assms(2) in \<open>auto simp: lock_inv_def\<close>)

lemma lock_inv_reach: "lock_step\<^sup>*\<^sup>* s s' \<Longrightarrow> lock_inv s \<Longrightarrow> lock_inv s'"
  by (induction rule: rtranclp_induct) (auto intro: lock_inv_step)

text \<open>Once the holder of the lock has stopped, the lock stays held and nobody enters.\<close>

definition lock_dead :: "'w lock_state \<Rightarrow> bool" where
  "lock_dead s \<longleftrightarrow> \<not> lock_free (lock_val s) \<and> (\<forall>w. pcs s w \<noteq> Critical) \<and>
     (\<forall>w v. pcs s w = Seen v \<longrightarrow> lock_free v)"

lemma lock_dead_step: "lock_step s s' \<Longrightarrow> lock_dead s \<Longrightarrow> lock_dead s' \<and> lock_val s' = lock_val s"
  by (erule lock_stepE) (auto simp: lock_dead_def)

lemma lock_dead_reach: "lock_step\<^sup>*\<^sup>* s s' \<Longrightarrow> lock_dead s \<Longrightarrow> lock_dead s' \<and> lock_val s' = lock_val s"
  by (induction rule: rtranclp_induct) (auto dest: lock_dead_step)

lemma lock_dead_stop: "lock_inv s \<Longrightarrow> pcs s w = Critical \<Longrightarrow> lock_dead (at w Stopped s)"
  by (auto simp: lock_inv_def lock_dead_def)

section \<open>Properties\<close>

text \<open>
  C20: mutual exclusion. From any value of the lock, and however the workers' calls interleave, at
  most one worker at a time runs its callback, and while it does the lock holds \<^const>\<open>True\<close>.
\<close>

theorem workers_exclude_each_other:
  assumes "lock_step\<^sup>*\<^sup>* (lock_start v) s" and "pcs s w = Critical"
  shows "lock_val s = Some (Some True) \<and> (\<forall>w'. pcs s w' = Critical \<longleftrightarrow> w' = w)"
  using lock_inv_reach [OF assms(1) lock_inv_start] assms(2) by (auto simp: lock_inv_def)

lemma lock_step_enter:
  "lock_free v \<Longrightarrow>
   lock_step\<^sup>*\<^sup>* (lock_start v) (at w Critical (at w (Seen v) (lock_start v))\<lparr>lock_val := Some (Some True)\<rparr>)"
proof -
  assume free: "lock_free v"
  let ?s = "at w (Seen v) (lock_start v)"
  have "lock_step (lock_start v) ?s"
    using read_free [of "lock_start v" w] free by (simp add: lock_start_def)
  moreover have "lock_step ?s (at w Critical ?s\<lparr>lock_val := Some (Some True)\<rparr>)"
    by (rule acquire [where v = v]) (simp_all add: lock_start_def)
  ultimately show ?thesis by (meson r_into_rtranclp rtranclp.rtrancl_into_rtrancl)
qed

theorem workers_exclude_each_other_witness:
  "\<exists>s. lock_step\<^sup>*\<^sup>* (lock_start None) s \<and> pcs s (0::nat) = Critical \<and> pcs s 1 \<noteq> Critical"
proof -
  let ?s = "at (0::nat) Critical (at 0 (Seen None) (lock_start None))\<lparr>lock_val := Some (Some True)\<rparr>"
  have r: "lock_step\<^sup>*\<^sup>* (lock_start None) ?s" by (rule lock_step_enter) simp
  have c: "pcs ?s 0 = Critical" by (simp add: at_def)
  from workers_exclude_each_other [OF r c] r c show ?thesis by (metis zero_neq_one)
qed

text \<open>
  C35: the lock has no expiry. If a worker stops inside its critical section, the lock stays held
  for ever: in no later state does any worker run its callback, whatever the interleaving.
\<close>

theorem stopped_holder_blocks_for_ever:
  assumes "lock_step\<^sup>*\<^sup>* (lock_start v) s" and "pcs s w = Critical"
    and "lock_step\<^sup>*\<^sup>* (at w Stopped s) s'"
  shows "lock_val s' = Some (Some True) \<and> (\<forall>w'. pcs s' w' \<noteq> Critical)"
proof -
  have inv: "lock_inv s" by (rule lock_inv_reach [OF assms(1) lock_inv_start])
  then have "lock_val s = Some (Some True)" using assms(2) by (auto simp: lock_inv_def)
  with lock_dead_reach [OF assms(3) lock_dead_stop [OF inv assms(2)]] show ?thesis
    by (auto simp: lock_dead_def)
qed

theorem stopped_holder_blocks_for_ever_witness:
  "\<exists>s. lock_step\<^sup>*\<^sup>* (lock_start None) s \<and> lock_val (at (0::nat) Stopped s) = Some (Some True) \<and>
       (\<forall>w'. pcs (at 0 Stopped s) w' \<noteq> Critical)"
proof -
  let ?s = "at (0::nat) Critical (at 0 (Seen None) (lock_start None))\<lparr>lock_val := Some (Some True)\<rparr>"
  have r: "lock_step\<^sup>*\<^sup>* (lock_start None) ?s" by (rule lock_step_enter) simp
  have c: "pcs ?s 0 = Critical" by (simp add: at_def)
  from stopped_holder_blocks_for_ever [OF r c rtranclp.rtrancl_refl] r show ?thesis by metis
qed

end
