(* ===== verification/Offchain_Host.thy ===== *)
theory Offchain_Host
  imports Chain Local_Storage "HOL-Library.Sublist"
begin

text \<open>
  What the off-chain part of the pallet runs on, and \<^verbatim>\<open>pallets/abc-demo/src/http.rs\<close>.

  The keystore and the transaction pool behind \<^verbatim>\<open>Signer\<close>, the HTTP client of
  \<^verbatim>\<open>sp_runtime::offchain\<close>, the clock, serde, prost, base64, hex and the SS58 display of an account
  are code of other crates: each is a field of the record \<open>Host\<close>, on a state \<open>'n\<close> of the network
  and the pool that they may change in any way. The state of a node adds three logs, which the code
  does not have and nothing reads: the addresses posted to, the responses the network gave, each with the address it
  was for, and the calls handed to a signer.
\<close>

section \<open>The host\<close>

datatype HttpError = DeadlineReached | IoError | Invalid

record HttpRequest =
  q_url :: bytes
  q_body :: bytes
  q_headers :: "(bytes \<times> bytes) list"
  q_deadline :: u64

record HttpResponse =
  p_code :: "16 word"
  p_body :: bytes

record BeMyDelegateRequest =
  layer1_account :: bytes
  nonce :: bytes

text \<open>
  \<^item> \<open>feature_std\<close>: whether the pallet is built with its feature \<^verbatim>\<open>std\<close> (the native runtime), which
    \<^verbatim>\<open>#[cfg(feature = "std")]\<close> asks;
  \<^item> \<open>app_keys\<close>: \<^verbatim>\<open>RuntimeAppPublic::all()\<close>, converted to \<^verbatim>\<open>T::Public\<close>; \<open>into_account\<close>:
    \<^verbatim>\<open>IdentifyAccount::into_account\<close>;
  \<^item> \<open>signer_keys\<close>: the keys that \<^verbatim>\<open>Signer::all_accounts()\<close>, with a filter or without, signs with;
    \<open>send_signed\<close>: its \<^verbatim>\<open>send_signed_transaction\<close> for a call that does not depend on the account, with
    one result for each account that made a transaction;
  \<^item> \<open>http_try_wait\<close>: \<^verbatim>\<open>PendingRequest::try_wait\<close>: the id of the request that is still pending, or an
    error, or the response.
\<close>

record ('a, 'p, 'd, 'n) Host = "'d LocalDb" +
  feature_std :: bool
  app_keys :: "'p list"
  into_account :: "'p \<Rightarrow> 'a"
  signer_keys :: "'p list option \<Rightarrow> 'p list"
  send_signed :: "'p list option \<Rightarrow> 'a Call \<Rightarrow> 'n \<Rightarrow> ('a \<times> (unit + unit)) list \<times> 'n"
  timestamp :: "'n \<Rightarrow> u64"
  timestamp_add :: "u64 \<Rightarrow> u64 \<Rightarrow> u64"
  http_send :: "HttpRequest \<Rightarrow> 'n \<Rightarrow> (HttpError + 16 word) \<times> 'n"
  http_try_wait :: "16 word \<Rightarrow> u64 \<Rightarrow> 'n \<Rightarrow> (16 word + (bytes + HttpResponse)) \<times> 'n"
  json_ResponseResult :: "bytes \<Rightarrow> bytes + bytes"
  json_ErrandResultInfo :: "bytes \<Rightarrow> bytes + ErrandResultInfo"
  json_DelegateInfo :: "bytes \<Rightarrow> bytes + DelegateInfo"
  prost_encode :: "BeMyDelegateRequest \<Rightarrow> bytes + bytes"
  display_account :: "AccountId32 \<Rightarrow> bytes"
  base64_encode :: "bytes \<Rightarrow> bytes"
  hex_encode :: "bytes \<Rightarrow> bytes"
  sr25519_from_string :: "bytes \<Rightarrow> bytes option"

record ('a, 'p, 'd, 'n) Node =
  db :: 'd
  net :: 'n
  posted :: "bytes list"
  heard :: "(bytes \<times> HttpResponse) list"
  sent :: "('p list option \<times> 'a Call) list"

text \<open>An operation of the database, and a signer's transaction, on a node.\<close>

definition on_db :: "('d \<Rightarrow> 'r \<times> 'd) \<Rightarrow> ('a, 'p, 'd, 'n) Node \<Rightarrow> 'r \<times> ('a, 'p, 'd, 'n) Node" where
  "on_db f s = (case f (db s) of (r, d) \<Rightarrow> (r, s\<lparr>db := d\<rparr>))"

definition send_signed_transaction ::
    "('a, 'p, 'd, 'n) Host \<Rightarrow> 'p list option \<Rightarrow> 'a Call \<Rightarrow> ('a, 'p, 'd, 'n) Node \<Rightarrow>
     ('a \<times> (unit + unit)) list \<times> ('a, 'p, 'd, 'n) Node" where
  "send_signed_transaction H filt call s =
     (case send_signed H filt call (net s) of
        (result, n) \<Rightarrow> (result, s\<lparr>net := n, sent := sent s @ [(filt, call)]\<rparr>))"

definition can_sign :: "('a, 'p, 'd, 'n) Host \<Rightarrow> 'p list option \<Rightarrow> bool" where
  "can_sign H filt \<longleftrightarrow> signer_keys H filt \<noteq> []"

section \<open>HTTP\<close>

definition USER_AGENT :: bytes where
  "USER_AGENT = ascii ''tearust''"

definition HTTP_POST_TIMEOUT :: u64 where
  "HTTP_POST_TIMEOUT = 180000"

fun request_error :: "HttpError \<Rightarrow> AbcError" where
  "request_error DeadlineReached =
     HttpRequestError (ascii ''The requested action couldn't been completed within a deadline'')"
| "request_error IoError =
     HttpRequestError (ascii ''There was an IO Error while processing the request'')"
| "request_error Invalid =
     HttpRequestError (ascii ''ID of the request is invalid in this context'')"

definition parse_response ::
    "('a, 'p, 'd, 'n) Host \<Rightarrow> HttpResponse \<Rightarrow> anyhow + bytes" where
  "parse_response H response =
     (if p_code response \<noteq> 200
      then Inl (Text (ascii ''Unexpected http request status code: '' @ dec_digits (unat (p_code response))))
      else case from_utf8 (p_body response) of
             Inl e \<Rightarrow> Inl e
           | Inr res_body \<Rightarrow>
               (case json_ResponseResult H res_body of
                  Inl e \<Rightarrow> Inl (OfAbc (Common e))
                | Inr data \<Rightarrow> Inr data))"

definition http_post ::
    "('a, 'p, 'd, 'n) Host \<Rightarrow> bytes \<Rightarrow> ('a, 'p, 'd, 'n) Node \<Rightarrow> (anyhow + bytes) \<times> ('a, 'p, 'd, 'n) Node"
  where
  "http_post H url s =
     (let timeout = timestamp_add H (timestamp H (net s)) HTTP_POST_TIMEOUT;
          request = \<lparr> q_url = url, q_body = ascii ''post body'',
                      q_headers = [(ascii ''User-Agent'', USER_AGENT)], q_deadline = timeout \<rparr>
      in case http_send H request (net s) of
           (Inl e, n) \<Rightarrow> (Inl (OfAbc (request_error e)), s\<lparr>net := n, posted := posted s @ [url]\<rparr>)
         | (Inr pending, n) \<Rightarrow>
             (case http_try_wait H pending timeout n of
                (Inl pid, n') \<Rightarrow>
                  (Inl (OfAbc (HttpResponseError (dec_digits (unat pid)))),
                   s\<lparr>net := n', posted := posted s @ [url]\<rparr>)
              | (Inr (Inl e), n') \<Rightarrow>
                  (Inl (OfAbc (HttpResponseError (ascii ''unknown request error''))),
                   s\<lparr>net := n', posted := posted s @ [url]\<rparr>)
              | (Inr (Inr response), n') \<Rightarrow>
                  (parse_response H response,
                   s\<lparr>net := n', posted := posted s @ [url], heard := heard s @ [(url, response)]\<rparr>)))"

section \<open>The contract of the host\<close>

text \<open>
  What the code relies on: the database's laws; a signer without a filter signs with every key of
  the keystore, and with a filter only with those of the filter it has; a Rust string, such as base64 and hex
  give, is valid UTF-8; SS58 is written in the base-58 alphabet, in which \<^verbatim>\<open>-\<close> (45) does not occur, and tells
  accounts apart.
\<close>

locale offchain_host = local_db H for H :: "('a, 'p, 'd, 'n) Host" +
  assumes keys_all: "signer_keys H None = app_keys H"
    and keys_filter: "set (signer_keys H (Some ks)) = set ks \<inter> set (app_keys H)"
    and json_string: "json_ResponseResult H body = Inr data \<Longrightarrow> utf8_valid data"
    and base64_string: "utf8_valid (base64_encode H bs)"
    and hex_string: "utf8_valid (hex_encode H bs)"
    and ss58_no_dash: "45 \<notin> set (display_account H acc)"
    and ss58_valid: "utf8_valid (display_account H acc)"
    and ss58_inject: "display_account H acc = display_account H acc' \<Longrightarrow> acc = acc'"
begin

lemma http_post_valid:
  assumes "http_post H url s = (Inr data, s')"
  shows "utf8_valid data"
  using assms
  by (auto simp: http_post_def parse_response_def Let_def json_string
      split: prod.splits sum.splits if_splits)

end

text \<open>A result that \<^verbatim>\<open>http_post\<close> returns is the one in the body of a response that the network gave to this request.\<close>

lemma http_post_heard:
  assumes "http_post H url s = (Inr data, s')"
  obtains response where "heard s' = heard s @ [(url, response)]" and "p_code response = 200"
    and "json_ResponseResult H (p_body response) = Inr data"
  using assms that
  by (auto simp: http_post_def parse_response_def from_utf8_def Let_def split: prod.splits sum.splits if_splits)

lemma http_post_hears: "prefix (heard s) (heard (snd (http_post H url s)))"
  by (simp add: http_post_def Let_def split: prod.split sum.split)

text \<open>The responses heard between two states of a node.\<close>

definition learned :: "('a, 'p, 'd, 'n) Node \<Rightarrow> ('a, 'p, 'd, 'n) Node \<Rightarrow> (bytes \<times> HttpResponse) set" where
  "learned s s' = set (drop (length (heard s)) (heard s'))"

lemma learned_trans:
  assumes "prefix (heard s1) (heard s2)" and "prefix (heard s2) (heard s3)"
  shows "learned s1 s2 \<subseteq> learned s1 s3" and "learned s2 s3 \<subseteq> learned s1 s3"
  using assms by (auto simp: learned_def prefix_def)

text \<open>A request touches neither the database nor the calls sent, and is logged once.\<close>

lemma http_post_frame:
  "db (snd (http_post H url s)) = db s"
  "sent (snd (http_post H url s)) = sent s"
  "posted (snd (http_post H url s)) = posted s @ [url]"
  by (simp_all add: http_post_def Let_def split: prod.split sum.split)

lemma send_signed_transaction_frame [simp]:
  "db (snd (send_signed_transaction H filt call s)) = db s"
  "posted (snd (send_signed_transaction H filt call s)) = posted s"
  "sent (snd (send_signed_transaction H filt call s)) = sent s @ [(filt, call)]"
  "heard (snd (send_signed_transaction H filt call s)) = heard s"
  by (simp_all add: send_signed_transaction_def split: prod.split)

lemma on_db_frame [simp]:
  "sent (snd (on_db f s)) = sent s"
  "posted (snd (on_db f s)) = posted s"
  "db (snd (on_db f s)) = snd (f (db s))"
  "fst (on_db f s) = fst (f (db s))"
  "heard (snd (on_db f s)) = heard s"
  by (simp_all add: on_db_def split: prod.split)

lemma on_db_result: "f (db s) = (r, d) \<Longrightarrow> on_db f s = (r, s\<lparr>db := d\<rparr>)"
  by (simp add: on_db_def)

end
