(* ===== verification/Delegate_Client.thy ===== *)
theory Delegate_Client
  imports Offchain_Host
begin

text \<open>
  \<^verbatim>\<open>pallets/abc-demo/src/delegate.rs\<close>: a node asks the service behind a net address to be its
  delegate and keeps the answer in its local storage, under a key made of the account.
\<close>

section \<open>Keys and addresses\<close>

definition SERVICE_BASE_URL_PREFIX :: bytes where
  "SERVICE_BASE_URL_PREFIX = ascii ''http://''"

definition SERVICE_BASE_URL :: bytes where
  "SERVICE_BASE_URL = ascii ''http://localhost:8000''"

definition APPLY_DELEGATE :: bytes where
  "APPLY_DELEGATE = ascii ''/api/be_my_delegate''"

definition LOCAL_STORAGE_CLIENT_KEY_PREFIX :: bytes where
  "LOCAL_STORAGE_CLIENT_KEY_PREFIX = ascii ''local-storage::client-''"

definition LOCAL_STORAGE_CLIENT_LOCK_PREFIX :: bytes where
  "LOCAL_STORAGE_CLIENT_LOCK_PREFIX = ascii ''local-storage::client-lock-''"

definition client_key :: "bytes \<Rightarrow> bytes" where
  "client_key client = LOCAL_STORAGE_CLIENT_KEY_PREFIX @ client"

definition client_lock_key :: "bytes \<Rightarrow> bytes" where
  "client_lock_key client = LOCAL_STORAGE_CLIENT_LOCK_PREFIX @ client"

definition get_url :: "NetAddress \<Rightarrow> anyhow + bytes" where
  "get_url net_address =
     (case from_utf8 net_address of
        Inr str \<Rightarrow> Inr (SERVICE_BASE_URL_PREFIX @ str)
      | Inl e \<Rightarrow> Inl (Details (ascii ''get url from net address failed, error:'') e))"

section \<open>Operations\<close>

definition encode_protobuf :: "('a, 'p, 'd, 'n) Host \<Rightarrow> BeMyDelegateRequest \<Rightarrow> anyhow + bytes" where
  "encode_protobuf H msg =
     (case prost_encode H msg of Inl e \<Rightarrow> Inl (Foreign_Error e) | Inr buf \<Rightarrow> Inr buf)"

definition save_delegate_info ::
    "('a, 'p, 'd, 'n) Host \<Rightarrow> bytes \<Rightarrow> DelegateInfo \<Rightarrow> ('a, 'p, 'd, 'n) Node \<Rightarrow>
     (anyhow + unit) \<times> ('a, 'p, 'd, 'n) Node" where
  "save_delegate_info H client delegate_info s =
     on_db (operate_local_storage H (client_key client) (client_lock_key client)
              (\<lambda>key d. ((), info_set H key delegate_info d))) s"

definition load_delegate_info ::
    "('a, 'p, 'd, 'n) Host \<Rightarrow> bytes \<Rightarrow> ('a, 'p, 'd, 'n) Node \<Rightarrow>
     (anyhow + DelegateInfo) \<times> ('a, 'p, 'd, 'n) Node" where
  "load_delegate_info H client s =
     (case on_db (operate_local_storage H (client_key client) (client_lock_key client)
                    (\<lambda>key d. (info_get H key d, d))) s of
        (Inr (Some (Some info)), s') \<Rightarrow> (Inr info, s')
      | (Inl e, s') \<Rightarrow>
          (Inl (Details (ascii ''get local storage about '' @ client @ ascii '' error, details: '') e), s')
      | (_, s') \<Rightarrow> (Inl (Text (ascii ''get local storage about '' @ client @ ascii '' error'')), s'))"

definition parse_delegate_response ::
    "('a, 'p, 'd, 'n) Host \<Rightarrow> bytes \<Rightarrow> bytes \<Rightarrow> ('a, 'p, 'd, 'n) Node \<Rightarrow>
     (anyhow + unit) \<times> ('a, 'p, 'd, 'n) Node" where
  "parse_delegate_response H resp client s =
     and_then (from_utf8 resp, s) (\<lambda>resp_str s.
       case json_DelegateInfo H resp_str of
         Inl e \<Rightarrow> (Inl (OfAbc (Common e)), s)
       | Inr result_info \<Rightarrow> save_delegate_info H client result_info s)"

definition delegate_request_url :: "bytes \<Rightarrow> bytes \<Rightarrow> bytes" where
  "delegate_request_url service_url content =
     service_url @ APPLY_DELEGATE @ ascii ''?content='' @ content"

definition request_single_delegate ::
    "('a, 'p, 'd, 'n) Host \<Rightarrow> AccountId32 \<Rightarrow> NetAddress \<Rightarrow> ('a, 'p, 'd, 'n) Node \<Rightarrow>
     bool \<times> ('a, 'p, 'd, 'n) Node" where
  "request_single_delegate H account net_address s =
     (let client = display_account H account;
          proto_msg = \<lparr> layer1_account = client, nonce = [] \<rparr>
      in case get_url net_address of
           Inl e \<Rightarrow> (False, s)
         | Inr service_url \<Rightarrow>
             (case encode_protobuf H proto_msg of
                Inl e \<Rightarrow> (False, s)
              | Inr buf \<Rightarrow>
                  (let content = base64_encode H buf;
                       request_url = delegate_request_url service_url content
                   in case http_post H request_url s of
                        (Inl e, s1) \<Rightarrow> (False, s1)
                      | (Inr resp, s1) \<Rightarrow>
                          (case parse_delegate_response H resp client s1 of
                             (Inl e, s2) \<Rightarrow> (False, s2)
                           | (Inr _, s2) \<Rightarrow> (True, s2)))))"

section \<open>Facts\<close>

lemma get_url_Inr:
  "get_url addr = Inr url \<longleftrightarrow> utf8_valid addr \<and> url = SERVICE_BASE_URL_PREFIX @ addr"
  by (auto simp: get_url_def split: sum.split)

lemma client_key_inject [simp]: "client_key c = client_key c' \<longleftrightarrow> c = c'"
  by (simp add: client_key_def)

text \<open>A data key is a lock key only for a client whose name begins with \<^verbatim>\<open>lock-\<close>.\<close>

lemma client_key_lock:
  "client_key c = client_lock_key c' \<longleftrightarrow> c = ascii ''lock-'' @ c'"
  by (simp add: client_key_def client_lock_key_def LOCAL_STORAGE_CLIENT_KEY_PREFIX_def
      LOCAL_STORAGE_CLIENT_LOCK_PREFIX_def ascii_def)

lemma save_delegate_info_frame [simp]:
  "sent (snd (save_delegate_info H client i s)) = sent s"
  "posted (snd (save_delegate_info H client i s)) = posted s"
  "heard (snd (save_delegate_info H client i s)) = heard s"
  by (simp_all add: save_delegate_info_def)

lemma load_delegate_info_node:
  "snd (load_delegate_info H client s) =
     snd (on_db (operate_local_storage H (client_key client) (client_lock_key client)
                   (\<lambda>key d. (info_get H key d, d))) s)"
  by (auto simp: load_delegate_info_def split: prod.split sum.split option.split)

lemma load_delegate_info_frame [simp]:
  "sent (snd (load_delegate_info H client s)) = sent s"
  "posted (snd (load_delegate_info H client s)) = posted s"
  "heard (snd (load_delegate_info H client s)) = heard s"
  by (simp_all add: load_delegate_info_node)

lemma parse_delegate_response_frame:
  "sent (snd (parse_delegate_response H resp client s)) = sent s \<and>
   posted (snd (parse_delegate_response H resp client s)) = posted s \<and>
   heard (snd (parse_delegate_response H resp client s)) = heard s"
  unfolding parse_delegate_response_def
  by (rule and_then_keeps) (auto split: sum.split)

text \<open>A request sends no transaction and posts at most one message.\<close>

lemma request_single_delegate_frame:
  "sent (snd (request_single_delegate H account addr s)) = sent s"
  "length (posted (snd (request_single_delegate H account addr s))) \<le> Suc (length (posted s))"
proof -
  let ?P = "\<lambda>s'. sent s' = sent s \<and> length (posted s') \<le> Suc (length (posted s))"
  have "?P (snd (request_single_delegate H account addr s))"
  proof (cases "get_url addr")
    case Inl
    then show ?thesis by (simp add: request_single_delegate_def)
  next
    case url: (Inr u)
    let ?m = "\<lparr> layer1_account = display_account H account, nonce = [] \<rparr>"
    show ?thesis
    proof (cases "encode_protobuf H ?m")
      case Inl
      with url show ?thesis by (simp add: request_single_delegate_def)
    next
      case (Inr buf)
      let ?u = "delegate_request_url u (base64_encode H buf)"
      obtain r s1 where p: "http_post H ?u s = (r, s1)" by fastforce
      with http_post_frame [of H ?u s] have s1: "sent s1 = sent s" "posted s1 = posted s @ [?u]"
        by simp_all
      with url Inr p parse_delegate_response_frame [of H _ "display_account H account" s1]
      show ?thesis
        by (simp add: request_single_delegate_def Let_def split: sum.split prod.split)
          (metis le_refl length_append_singleton snd_conv)
    qed
  qed
  then show "sent (snd (request_single_delegate H account addr s)) = sent s"
    "length (posted (snd (request_single_delegate H account addr s))) \<le> Suc (length (posted s))"
    by blast+
qed

lemma request_single_delegate_node:
  "snd (request_single_delegate H account addr s) =
     (case get_url addr of
        Inl e \<Rightarrow> s
      | Inr u \<Rightarrow>
          (case encode_protobuf H \<lparr> layer1_account = display_account H account, nonce = [] \<rparr> of
             Inl e \<Rightarrow> s
           | Inr buf \<Rightarrow>
               let p = http_post H (delegate_request_url u (base64_encode H buf)) s
               in case fst p of
                    Inl e \<Rightarrow> snd p
                  | Inr resp \<Rightarrow> snd (parse_delegate_response H resp (display_account H account) (snd p))))"
  by (simp add: request_single_delegate_def Let_def split: sum.split prod.split)

lemma request_single_delegate_hears: "prefix (heard s) (heard (snd (request_single_delegate H account addr s)))"
  by (simp add: request_single_delegate_node Let_def http_post_hears parse_delegate_response_frame split: sum.split)

context offchain_host
begin

text \<open>No account's data key is an account's lock key.\<close>

lemma account_keys_apart:
  "client_key (display_account H a) \<noteq> client_lock_key (display_account H b)"
proof
  assume "client_key (display_account H a) = client_lock_key (display_account H b)"
  then have "display_account H a = ascii ''lock-'' @ display_account H b"
    by (simp add: client_key_lock)
  with ss58_no_dash [of a] show False by (simp add: ascii_def)
qed

lemma save_delegate_info_ok:
  assumes "save_delegate_info H (display_account H a) i s = (Inr (), s')"
  shows "info_get H (client_key (display_account H a)) (db s') = Some (Some i) \<and>
         lock_get H (client_lock_key (display_account H a)) (db s') = Some (Some False)"
proof -
  let ?c = "display_account H a"
  obtain d' where op: "operate_local_storage H (client_key ?c) (client_lock_key ?c)
      (\<lambda>key d. ((), info_set H key i d)) (db s) = (Inr (), d')" and d': "db s' = d'"
    using assms by (auto simp: save_delegate_info_def on_db_def split: prod.splits)
  from operate_ok [OF op] account_keys_apart [of a a] show ?thesis
    by (auto simp: d' info_get_lock info_get_set lock_get_set)
qed

lemma request_single_delegate_ok:
  assumes "request_single_delegate H a addr s = (True, s')"
  shows "\<exists>buf resp i s1.
           utf8_valid addr \<and> encode_protobuf H \<lparr>layer1_account = display_account H a, nonce = []\<rparr> = Inr buf \<and>
           http_post H (delegate_request_url (SERVICE_BASE_URL_PREFIX @ addr) (base64_encode H buf)) s
             = (Inr resp, s1) \<and>
           json_DelegateInfo H resp = Inr i \<and> save_delegate_info H (display_account H a) i s1 = (Inr (), s')"
  using assms
  by (auto simp: request_single_delegate_def parse_delegate_response_def get_url_Inr and_then_Inr Let_def
      split: prod.splits sum.splits)

lemma load_delegate_info_ok:
  assumes "load_delegate_info H (display_account H a) s = (Inr i, s')"
  shows "info_get H (client_key (display_account H a)) (db s) = Some (Some i)"
proof -
  let ?c = "display_account H a"
  obtain d' where op: "operate_local_storage H (client_key ?c) (client_lock_key ?c)
      (\<lambda>key d. (info_get H key d, d)) (db s) = (Inr (Some (Some i)), d')"
    using assms
    by (auto simp: load_delegate_info_def on_db_def split: prod.splits sum.splits option.splits)
  from operate_ok [OF op] account_keys_apart [of a a] show ?thesis
    by (auto simp: info_get_lock)
qed

end

end
