(* ===== verification/Task_Client.thy ===== *)
theory Task_Client
  imports Delegate_Client
begin

text \<open>
  \<^verbatim>\<open>pallets/abc-demo/src/task.rs\<close>: sending a task to the delegate's service, with the signature the
  service gave when it became the delegate, and asking it for results, which are appended to a list
  in the local storage until the worker reports them.
\<close>

section \<open>Constants\<close>

definition QUERY_ERRAND_RESULT_ACTION :: bytes where
  "QUERY_ERRAND_RESULT_ACTION = ascii ''/api/query_errand_execution_result_by_uuid''"

definition SEND_ERRAND_TASK_ACTION :: bytes where
  "SEND_ERRAND_TASK_ACTION = ascii ''/api/service''"

definition LOCAL_STORAGE_TASKS_RESULTS_KEY :: bytes where
  "LOCAL_STORAGE_TASKS_RESULTS_KEY = ascii ''local-storage::tasks_results''"

definition LOCAL_STORAGE_TASKS_RESULTS_LOCK :: bytes where
  "LOCAL_STORAGE_TASKS_RESULTS_LOCK = ascii ''local-storage::tasks_results-lock''"

section \<open>Results\<close>

definition query_url :: "bytes \<Rightarrow> bytes \<Rightarrow> bytes" where
  "query_url service_url errand_id = service_url @ QUERY_ERRAND_RESULT_ACTION @ ascii ''/'' @ errand_id"

definition http_query_task_result ::
    "('a, 'p, 'd, 'n) Host \<Rightarrow> ErrandId \<Rightarrow> NetAddress \<Rightarrow> ('a, 'p, 'd, 'n) Node \<Rightarrow>
     (anyhow + bytes) \<times> ('a, 'p, 'd, 'n) Node" where
  "http_query_task_result H errand_id net_address s =
     and_then (get_url net_address, s) (\<lambda>service_url s.
     and_then (from_utf8 errand_id, s) (\<lambda>errand s.
     http_post H (query_url service_url errand) s))"

text \<open>The callback of the local storage: append to the list, or start one.\<close>

definition append_result ::
    "('d, 'z) LocalDb_scheme \<Rightarrow> Cid \<Rightarrow> ErrandResultInfo \<Rightarrow> bytes \<Rightarrow> 'd \<Rightarrow> unit \<times> 'd" where
  "append_result H description_cid result_info key d =
     (case results_get H key d of
        Some (Some results) \<Rightarrow> ((), results_set H key (results @ [(description_cid, result_info)]) d)
      | _ \<Rightarrow> ((), results_set H key [(description_cid, result_info)] d))"

definition fetch_errand_result_info ::
    "('a, 'p, 'd, 'n) Host \<Rightarrow> ErrandId \<Rightarrow> Cid \<Rightarrow> NetAddress \<Rightarrow> ('a, 'p, 'd, 'n) Node \<Rightarrow>
     (anyhow + bool) \<times> ('a, 'p, 'd, 'n) Node" where
  "fetch_errand_result_info H errand_id description_cid net_address s =
     and_then (http_query_task_result H errand_id net_address s) (\<lambda>resp_bytes s.
     and_then (from_utf8 resp_bytes, s) (\<lambda>resp_str s.
     case json_ErrandResultInfo H resp_str of
       Inl e \<Rightarrow> (Inl (OfAbc (Common e)), s)
     | Inr result_info \<Rightarrow>
         if \<not> r_completed result_info then (Inr True, s)
         else and_then
                (on_db (operate_local_storage H LOCAL_STORAGE_TASKS_RESULTS_KEY
                          LOCAL_STORAGE_TASKS_RESULTS_LOCK
                          (append_result H description_cid result_info)) s)
                (\<lambda>_ s. (Inr True, s))))"

definition fetch_single_task_result ::
    "('a, 'p, 'd, 'n) Host \<Rightarrow> ErrandId \<Rightarrow> Cid \<Rightarrow> NetAddress \<Rightarrow> ('a, 'p, 'd, 'n) Node \<Rightarrow>
     bool \<times> ('a, 'p, 'd, 'n) Node" where
  "fetch_single_task_result H errand_id description_cid net_address s =
     (case fetch_errand_result_info H errand_id description_cid net_address s of
        (Inr result, s') \<Rightarrow> (result, s')
      | (Inl e, s') \<Rightarrow> (False, s'))"

section \<open>Tasks\<close>

definition task_url :: "bytes \<Rightarrow> bytes \<Rightarrow> bytes \<Rightarrow> bytes \<Rightarrow> bytes \<Rightarrow> bytes" where
  "task_url service_url client errand_id sig cid =
     service_url @ SEND_ERRAND_TASK_ACTION @ ascii ''/'' @ client @ ascii ''/'' @ errand_id @
     ascii ''/'' @ sig @ ascii ''?content='' @ cid"

definition send_task_internal ::
    "('a, 'p, 'd, 'n) Host \<Rightarrow> bytes \<Rightarrow> Cid \<Rightarrow> ErrandId \<Rightarrow> NetAddress \<Rightarrow> ('a, 'p, 'd, 'n) Node \<Rightarrow>
     (anyhow + unit) \<times> ('a, 'p, 'd, 'n) Node" where
  "send_task_internal H client description_cid errand_id net_address s =
     and_then (load_delegate_info H client s) (\<lambda>info s.
     and_then (from_utf8 description_cid, s) (\<lambda>cid s.
     and_then (get_url net_address, s) (\<lambda>service_url s.
     and_then (from_utf8 errand_id, s) (\<lambda>errand s.
     and_then (http_post H (task_url service_url client errand (hex_encode H (d_sig info)) cid) s)
       (\<lambda>res s. and_then (from_utf8 res, s) (\<lambda>_ s. (Inr (), s)))))))"

definition send_task_to_tea_network ::
    "('a, 'p, 'd, 'n) Host \<Rightarrow> AccountId32 \<Rightarrow> Cid \<Rightarrow> ErrandId \<Rightarrow> NetAddress \<Rightarrow> ('a, 'p, 'd, 'n) Node \<Rightarrow>
     bool \<times> ('a, 'p, 'd, 'n) Node" where
  "send_task_to_tea_network H account description_cid errand_id net_address s =
     (case send_task_internal H (display_account H account) description_cid errand_id net_address s of
        (Inr _, s') \<Rightarrow> (True, s')
      | (Inl e, s') \<Rightarrow> (False, s'))"

section \<open>Accounts from seeds\<close>

text \<open>\<^const>\<open>None\<close> is the panic of \<^verbatim>\<open>expect\<close>.\<close>

definition account_from_seed :: "('a, 'p, 'd, 'n) Host \<Rightarrow> bytes \<Rightarrow> AccountId32 option" where
  "account_from_seed H seed = map_option account_of (sr25519_from_string H (ascii ''//'' @ seed))"

fun account_in :: "AccountId32 \<Rightarrow> AccountId32 list \<Rightarrow> bool" where
  "account_in account [] = False"
| "account_in account (ac # accounts) = (if ac = account then True else account_in account accounts)"

definition account_from_seed_in_accounts ::
    "('a, 'p, 'd, 'n) Host \<Rightarrow> bytes \<Rightarrow> AccountId32 list \<Rightarrow> bool option" where
  "account_from_seed_in_accounts H seed accounts =
     map_option (\<lambda>account. account_in account accounts) (account_from_seed H seed)"

lemma account_in_iff: "account_in account accounts \<longleftrightarrow> account \<in> set accounts"
  by (induction accounts) auto

section \<open>Facts\<close>

lemma tasks_keys_apart [simp]:
  "LOCAL_STORAGE_TASKS_RESULTS_KEY \<noteq> LOCAL_STORAGE_TASKS_RESULTS_LOCK"
  "LOCAL_STORAGE_TASKS_RESULTS_LOCK \<noteq> LOCAL_STORAGE_TASKS_RESULTS_KEY"
  by (simp_all add: LOCAL_STORAGE_TASKS_RESULTS_KEY_def LOCAL_STORAGE_TASKS_RESULTS_LOCK_def ascii_def)

lemma client_tasks_keys_apart [simp]:
  "client_key c \<noteq> LOCAL_STORAGE_TASKS_RESULTS_KEY" "client_key c \<noteq> LOCAL_STORAGE_TASKS_RESULTS_LOCK"
  "client_lock_key c \<noteq> LOCAL_STORAGE_TASKS_RESULTS_KEY"
  "client_lock_key c \<noteq> LOCAL_STORAGE_TASKS_RESULTS_LOCK"
  by (simp_all add: client_key_def client_lock_key_def LOCAL_STORAGE_TASKS_RESULTS_KEY_def
      LOCAL_STORAGE_TASKS_RESULTS_LOCK_def LOCAL_STORAGE_CLIENT_KEY_PREFIX_def
      LOCAL_STORAGE_CLIENT_LOCK_PREFIX_def ascii_def)

text \<open>Nothing of this file sends a transaction; a query touches no storage.\<close>

lemma http_query_frame:
  "db (snd (http_query_task_result H eid addr s)) = db s \<and>
   sent (snd (http_query_task_result H eid addr s)) = sent s"
  by (auto simp: http_query_task_result_def and_then_def http_post_frame split: sum.split)

lemma fetch_errand_result_info_sent:
  "sent (snd (fetch_errand_result_info H eid cid addr s)) = sent s"
  unfolding fetch_errand_result_info_def
  by (intro and_then_keeps [where P = "\<lambda>s'. sent s' = sent s"])
    (auto simp: http_query_frame split: sum.split intro: and_then_keeps [where P = "\<lambda>s'. sent s' = sent s"])

lemma fetch_single_task_result_node:
  "snd (fetch_single_task_result H eid cid addr s) = snd (fetch_errand_result_info H eid cid addr s)"
  by (simp add: fetch_single_task_result_def split: prod.split sum.split)

lemma send_task_internal_sent:
  "sent (snd (send_task_internal H c cid eid addr s)) = sent s"
  unfolding send_task_internal_def
  by (intro and_then_keeps [where P = "\<lambda>s'. sent s' = sent s"]) (simp_all add: http_post_frame)

lemma send_task_to_tea_network_node:
  "snd (send_task_to_tea_network H a cid eid addr s) =
   snd (send_task_internal H (display_account H a) cid eid addr s)"
  by (simp add: send_task_to_tea_network_def split: prod.split sum.split)

lemma fetch_single_task_result_sent [simp]:
  "sent (snd (fetch_single_task_result H eid cid addr s)) = sent s"
  by (simp add: fetch_single_task_result_node fetch_errand_result_info_sent)

lemma send_task_to_tea_network_sent [simp]:
  "sent (snd (send_task_to_tea_network H a cid eid addr s)) = sent s"
  by (simp add: send_task_to_tea_network_node send_task_internal_sent)

text \<open>The log of responses only grows.\<close>

lemma http_query_hears: "prefix (heard s) (heard (snd (http_query_task_result H eid addr s)))"
  unfolding http_query_task_result_def
  by (intro and_then_keeps [where P = "\<lambda>s'. prefix (heard s) (heard s')"]) (simp_all add: http_post_hears)

text \<open>The answer to a query is the one in a response to the query's address.\<close>

lemma http_query_heard:
  assumes "http_query_task_result H eid addr s = (Inr resp, s')"
  obtains response where "heard s' = heard s @ [(query_url (SERVICE_BASE_URL_PREFIX @ addr) eid, response)]"
    and "p_code response = 200" and "json_ResponseResult H (p_body response) = Inr resp"
  using assms that
  by (auto simp: http_query_task_result_def and_then_Inr get_url_Inr elim: http_post_heard)

lemma fetch_single_task_result_hears: "prefix (heard s) (heard (snd (fetch_single_task_result H eid cid addr s)))"
  unfolding fetch_single_task_result_node fetch_errand_result_info_def
  by (intro and_then_keeps [where P = "\<lambda>s'. prefix (heard s) (heard s')"])
    (auto simp: http_query_hears split: sum.split intro: and_then_keeps [where P = "\<lambda>s'. prefix (heard s) (heard s')"])

lemma send_task_to_tea_network_hears: "prefix (heard s) (heard (snd (send_task_to_tea_network H a cid eid addr s)))"
  unfolding send_task_to_tea_network_node send_task_internal_def
  by (intro and_then_keeps [where P = "\<lambda>s'. prefix (heard s) (heard s')"])
    (auto intro: prefix_order.trans [OF _ http_post_hears])

text \<open>The list of results a node holds, empty when there is none.\<close>

definition results_of :: "('d, 'z) LocalDb_scheme \<Rightarrow> 'd \<Rightarrow> Results" where
  "results_of H d = (case results_get H LOCAL_STORAGE_TASKS_RESULTS_KEY d of Some (Some rs) \<Rightarrow> rs | _ \<Rightarrow> [])"

context offchain_host
begin

lemma results_of_set [simp]:
  "results_of H (results_set H LOCAL_STORAGE_TASKS_RESULTS_KEY rs d) = rs"
  by (simp add: results_of_def results_get_set)

lemma results_of_lock [simp]:
  "results_of H (lock_set H LOCAL_STORAGE_TASKS_RESULTS_LOCK b d) = results_of H d"
  by (simp add: results_of_def results_get_lock)

lemma append_result_results:
  "results_of H (snd (append_result H cid info LOCAL_STORAGE_TASKS_RESULTS_KEY d)) =
     results_of H d @ [(cid, info)]"
  by (simp add: append_result_def results_of_def results_get_set split: option.split)

lemma store_result:
  assumes "operate_local_storage H LOCAL_STORAGE_TASKS_RESULTS_KEY LOCAL_STORAGE_TASKS_RESULTS_LOCK
             (append_result H cid info) d = (r, d')"
  shows "results_of H d' = (case r of Inl e \<Rightarrow> results_of H d | Inr _ \<Rightarrow> results_of H d @ [(cid, info)])"
proof (cases r)
  case (Inl e)
  with assms operate_err show ?thesis by fastforce
next
  case (Inr u)
  obtain d2 where
    "append_result H cid info LOCAL_STORAGE_TASKS_RESULTS_KEY
       (lock_set H LOCAL_STORAGE_TASKS_RESULTS_LOCK True d) = (u, d2)"
    and "d' = lock_set H LOCAL_STORAGE_TASKS_RESULTS_LOCK False d2"
    using operate_ok [OF assms [unfolded Inr]] by blast
  with Inr append_result_results [of cid info "lock_set H LOCAL_STORAGE_TASKS_RESULTS_LOCK True d"]
  show ?thesis by simp
qed

text \<open>
  What a query does to the list of results: it grows by the errand and the service's answer when
  that says completed and the lock could be taken, and is as it was in every other case.
\<close>

lemma fetch_errand_result_info_results:
  assumes "fetch_errand_result_info H eid cid addr s = (r, s')"
  shows "results_of H (db s') = results_of H (db s) \<or>
         (\<exists>info resp s1. http_query_task_result H eid addr s = (Inr resp, s1) \<and>
            json_ErrandResultInfo H resp = Inr info \<and> r_completed info \<and> r = Inr True \<and> heard s' = heard s1 \<and>
            results_of H (db s') = results_of H (db s) @ [(cid, info)])"
proof (cases "http_query_task_result H eid addr s")
  case (Pair q s1)
  with http_query_frame [of H eid addr s] have db: "db s1 = db s" by simp
  show ?thesis
  proof (cases "\<exists>resp info. q = Inr resp \<and> utf8_valid resp \<and> json_ErrandResultInfo H resp = Inr info \<and>
      r_completed info")
    case True
    then obtain resp info where h: "q = Inr resp" "utf8_valid resp" "json_ErrandResultInfo H resp = Inr info"
      "r_completed info" by blast
    obtain x d' where op: "operate_local_storage H LOCAL_STORAGE_TASKS_RESULTS_KEY
        LOCAL_STORAGE_TASKS_RESULTS_LOCK (append_result H cid info) (db s1) = (x, d')" by fastforce
    from assms h Pair op db store_result [OF op] show ?thesis
      by (cases x) (auto simp: fetch_errand_result_info_def on_db_def)
  next
    case False
    with assms Pair have "s' = s1"
      by (cases q)
        (auto simp: fetch_errand_result_info_def and_then_def from_utf8_def split: sum.splits if_splits)
    with db show ?thesis by simp
  qed
qed

end

end
