(* ===== verification/Offchain_Worker.thy ===== *)
theory Offchain_Worker
  imports Task_Client
begin

text \<open>
  The off-chain worker of \<^verbatim>\<open>pallets/abc-demo/src/lib.rs\<close>: \<^verbatim>\<open>offchain_worker\<close> and the functions it
  calls.

  The worker reads the chain state of its block. What it writes there goes to an overlay that is
  dropped when the worker ends, so only its effects on the node last; \<^verbatim>\<open>send_errand_tasks\<close>, the one
  function that writes (it calls \<^verbatim>\<open>T::Currency::unreserve\<close>), returns the overlay beside the node, and
  \<open>offchain_worker\<close> returns both. A code section under \<^verbatim>\<open>#[cfg(feature = "std")]\<close> is conditional on
  \<open>feature_std\<close>.
\<close>

section \<open>Accounts of the node\<close>

definition get_accounts :: "('a, 'p, 'd, 'n) Host \<Rightarrow> ('a \<times> 'p) list" where
  "get_accounts H = map (\<lambda>public. (into_account H public, public)) (app_keys H)"

fun account_ids_loop ::
    "('a, 'c) Trait \<Rightarrow> ('a, 'p, 'd, 'n) Host \<Rightarrow> 'p list \<Rightarrow> AccountId32 list \<Rightarrow> AccountId32 list" where
  "account_ids_loop T H [] accounts = accounts"
| "account_ids_loop T H (public # keys) accounts =
     (case account_to_bytes T (into_account H public) of
        Inr account \<Rightarrow> account_ids_loop T H keys (accounts @ [account])
      | Inl e \<Rightarrow> account_ids_loop T H keys accounts)"

definition get_account_ids :: "('a, 'c) Trait \<Rightarrow> ('a, 'p, 'd, 'n) Host \<Rightarrow> AccountId32 list" where
  "get_account_ids T H = account_ids_loop T H (app_keys H) []"

text \<open>The loop that collects the node's keys for an account.\<close>

fun signer_filter :: "'a \<Rightarrow> ('a \<times> 'p) list \<Rightarrow> 'p list \<Rightarrow> 'p list" where
  "signer_filter acc [] keys = keys"
| "signer_filter acc ((aid, pk) # account_ids) keys =
     signer_filter acc account_ids (if aid = acc then keys @ [pk] else keys)"

section \<open>Becoming a delegate\<close>

definition apply_single_delegate ::
    "('a, 'c) Trait \<Rightarrow> ('a, 'p, 'd, 'n) Host \<Rightarrow> 'a \<Rightarrow> ('a, 'c) chain \<Rightarrow> ('a, 'p, 'd, 'n) Node \<Rightarrow>
     (Error + unit) \<times> ('a, 'p, 'd, 'n) Node" where
  "apply_single_delegate T H delegator w s =
     (let net_address = storage_get [] (DelegateNetAddress w) delegator
      in case account_to_bytes T delegator of
           Inl e \<Rightarrow> (Inl e, s)
         | Inr account \<Rightarrow>
             if feature_std H
             then (case request_single_delegate H account net_address s of
                     (False, s') \<Rightarrow> (Inl ApplyDelegateError, s')
                   | (True, s') \<Rightarrow> (Inr (), s'))
             else (Inr (), s))"

fun apply_loop ::
    "('a, 'c) Trait \<Rightarrow> ('a, 'p, 'd, 'n) Host \<Rightarrow> ('a \<times> 'p) list \<Rightarrow> (DelegatorName \<times> 'a) list \<Rightarrow>
     ('a, 'c) chain \<Rightarrow> ('a, 'p, 'd, 'n) Node \<Rightarrow> ('a, 'p, 'd, 'n) Node" where
  "apply_loop T H account_ids [] w s = s"
| "apply_loop T H account_ids (acc # accounts) w s =
     (let filt = signer_filter (snd acc) account_ids []
      in if length filt = 0 then apply_loop T H account_ids accounts w s
         else case apply_single_delegate T H (snd acc) w s of
                (Inl e, s1) \<Rightarrow>
                  apply_loop T H account_ids accounts w
                    (snd (send_signed_transaction H (Some filt) (Unreserve (fst acc) (snd acc)) s1))
              | (Inr _, s1) \<Rightarrow>
                  apply_loop T H account_ids accounts w
                    (snd (send_signed_transaction H (Some filt) (UpdateDelegateStatus (snd acc)) s1)))"

definition apply_delegates ::
    "('a, 'c) Trait \<Rightarrow> ('a, 'p, 'd, 'n) Host \<Rightarrow> BlockNumber \<Rightarrow> ('a, 'c) chain \<Rightarrow> ('a, 'p, 'd, 'n) Node \<Rightarrow>
     ('a, 'p, 'd, 'n) Node" where
  "apply_delegates T H number w s =
     (if \<not> contains_key (DelegatesApplys w) number then s
      else if \<not> can_sign H None then s
      else apply_loop T H (get_accounts H) (storage_get [] (DelegatesApplys w) number) w s)"

section \<open>Sending tasks\<close>

definition init_single_errand_task ::
    "('a, 'p, 'd, 'n) Host \<Rightarrow> 'p list option \<Rightarrow> 'a \<Rightarrow> Cid \<Rightarrow> ErrandId \<Rightarrow> ('a, 'p, 'd, 'n) Node \<Rightarrow>
     bool \<times> ('a, 'p, 'd, 'n) Node" where
  "init_single_errand_task H signer client description_cid errand_id s =
     (case send_signed_transaction H signer (InitErrand client errand_id description_cid) s of
        (result, s') \<Rightarrow> (list_all (\<lambda>(_, err). err \<noteq> Inl ()) result, s'))"

text \<open>One task of the block: \<^verbatim>\<open>continue\<close> ends it, with the overlay and the node as they are.\<close>

definition unreserve_overlay :: "('a, 'c) Trait \<Rightarrow> 'a \<Rightarrow> u32 \<Rightarrow> ('a, 'c) chain \<Rightarrow> ('a, 'c) chain" where
  "unreserve_overlay T who fee w = w\<lparr>currency := snd (unreserve_funds T who (unat fee) (currency w))\<rparr>"

definition open_errand ::
    "('a, 'c) Trait \<Rightarrow> ('a, 'p, 'd, 'n) Host \<Rightarrow> 'p list \<Rightarrow> u32 \<Rightarrow> TaskInfo \<Rightarrow>
     ('a, 'c) chain \<Rightarrow> ('a, 'p, 'd, 'n) Node \<Rightarrow> ('a, 'c) chain \<times> ('a, 'p, 'd, 'n) Node" where
  "open_errand T H filt fee item w s =
     (case decode T (t_client item) of
        None \<Rightarrow> (w, s)
      | Some client \<Rightarrow>
          (case init_single_errand_task H (Some filt) client (t_description_cid item) (t_errand_id item) s of
             (True, s') \<Rightarrow> (w, s')
           | (False, s') \<Rightarrow> (unreserve_overlay T client fee w, s')))"

definition send_single_task ::
    "('a, 'c) Trait \<Rightarrow> ('a, 'p, 'd, 'n) Host \<Rightarrow> ('a \<times> 'p) list \<Rightarrow> TaskInfo \<Rightarrow>
     ('a, 'c) chain \<Rightarrow> ('a, 'p, 'd, 'n) Node \<Rightarrow> ('a, 'c) chain \<times> ('a, 'p, 'd, 'n) Node" where
  "send_single_task T H account_ids item w s =
     (case decode T (t_client item) of
        None \<Rightarrow> (w, s)
      | Some client \<Rightarrow>
          (let delegator = storage_get (default_account T) (DelegateAccounts w) (t_delegator item);
               fee = storage_get 0 (ClientTaskFee w) client;
               filt = signer_filter delegator account_ids []
           in if length filt = 0 then (w, s)
              else case account_to_bytes T delegator of
                     Inl e \<Rightarrow> open_errand T H filt fee item w s
                   | Inr account \<Rightarrow>
                       (let net_address = storage_get [] (DelegateNetAddress w) delegator
                        in if feature_std H
                           then (case send_task_to_tea_network H account (t_description_cid item)
                                        (t_errand_id item) net_address s of
                                   (False, s1) \<Rightarrow> (unreserve_overlay T delegator fee w, s1)
                                 | (True, s1) \<Rightarrow> open_errand T H filt fee item w s1)
                           else open_errand T H filt fee item w s)))"

fun send_loop ::
    "('a, 'c) Trait \<Rightarrow> ('a, 'p, 'd, 'n) Host \<Rightarrow> ('a \<times> 'p) list \<Rightarrow> TaskInfo list \<Rightarrow>
     ('a, 'c) chain \<Rightarrow> ('a, 'p, 'd, 'n) Node \<Rightarrow> ('a, 'c) chain \<times> ('a, 'p, 'd, 'n) Node" where
  "send_loop T H account_ids [] w s = (w, s)"
| "send_loop T H account_ids (item # task_array) w s =
     (if \<not> contains_key (DelegateAccounts w) (t_delegator item) then (w, s)
      else case send_single_task T H account_ids item w s of
             (w', s') \<Rightarrow> send_loop T H account_ids task_array w' s')"

definition send_errand_tasks ::
    "('a, 'c) Trait \<Rightarrow> ('a, 'p, 'd, 'n) Host \<Rightarrow> BlockNumber \<Rightarrow> ('a, 'c) chain \<Rightarrow> ('a, 'p, 'd, 'n) Node \<Rightarrow>
     ('a, 'c) chain \<times> ('a, 'p, 'd, 'n) Node" where
  "send_errand_tasks T H number w s =
     (if \<not> contains_key (Tasks w) number then (w, s)
      else if \<not> can_sign H None then (w, s)
      else send_loop T H (get_accounts H) (storage_get [] (Tasks w) number) w s)"

section \<open>Asking for results\<close>

fun query_loop ::
    "('a, 'c) Trait \<Rightarrow> ('a, 'p, 'd, 'n) Host \<Rightarrow> Cid list \<Rightarrow> ('a, 'c) chain \<Rightarrow> ('a, 'p, 'd, 'n) Node \<Rightarrow>
     ('a, 'p, 'd, 'n) Node" where
  "query_loop T H [] w s = s"
| "query_loop T H (item # errands) w s =
     (case Errands w item of
        None \<Rightarrow> query_loop T H errands w s
      | Some errand \<Rightarrow>
          (case decode T (e_account_id errand) of
             None \<Rightarrow> query_loop T H errands w s
           | Some client \<Rightarrow>
               (let delegate = storage_get (default_account T) (ClientDelegate w) client;
                    net_address = storage_get [] (DelegateNetAddress w) delegate
                in if feature_std H
                   then query_loop T H errands w
                          (snd (fetch_single_task_result H (e_errand_id errand)
                                  (e_description_cid errand) net_address s))
                   else query_loop T H errands w s)))"

definition query_errand_task_results ::
    "('a, 'c) Trait \<Rightarrow> ('a, 'p, 'd, 'n) Host \<Rightarrow> BlockNumber \<Rightarrow> ('a, 'c) chain \<Rightarrow> ('a, 'p, 'd, 'n) Node \<Rightarrow>
     ('a, 'p, 'd, 'n) Node" where
  "query_errand_task_results T H number w s =
     (let height = (ucast number :: u64)
      in if height mod 10 \<noteq> 0 then s
         else if \<not> can_sign H None then s
         else if \<not> allow_to_update_result (get_account_ids T H) w then s
         else query_loop T H (ProcessingErrands w) w s)"

section \<open>Reporting results\<close>

definition update_single_errand ::
    "('a, 'p, 'd, 'n) Host \<Rightarrow> 'p list option \<Rightarrow> Cid \<Rightarrow> Cid \<Rightarrow> ('a, 'p, 'd, 'n) Node \<Rightarrow>
     (Error + unit) \<times> ('a, 'p, 'd, 'n) Node" where
  "update_single_errand H signer result_cid description_cid s =
     (Inr (), snd (send_signed_transaction H signer (UpdateErrand description_cid result_cid) s))"

fun update_loop ::
    "('a, 'p, 'd, 'n) Host \<Rightarrow> 'p list option \<Rightarrow> Results \<Rightarrow> ('a, 'p, 'd, 'n) Node \<Rightarrow>
     (Error + unit) \<times> ('a, 'p, 'd, 'n) Node" where
  "update_loop H signer [] s = (Inr (), s)"
| "update_loop H signer (item # results) s =
     and_then (update_single_errand H signer (r_result_cid (snd item)) (fst item) s)
       (\<lambda>_ s. update_loop H signer results s)"

definition acquire_results_lock :: "bool option option \<Rightarrow> Error + bool" where
  "acquire_results_lock v = (if lock_free v then Inr True else Inl LocalStorageError)"

definition load_tasks_results_info ::
    "('a, 'p, 'd, 'n) Host \<Rightarrow> 'p list option \<Rightarrow> ('a, 'p, 'd, 'n) Node \<Rightarrow>
     (Error + unit) \<times> ('a, 'p, 'd, 'n) Node" where
  "load_tasks_results_info H signer s =
     and_then (on_db (lock_mutate H LOCAL_STORAGE_TASKS_RESULTS_LOCK acquire_results_lock) s)
       (\<lambda>res s.
          if res = Inr True
          then and_then
                 (case results_get H LOCAL_STORAGE_TASKS_RESULTS_KEY (db s) of
                    Some (Some results) \<Rightarrow>
                      and_then (update_loop H signer results s)
                        (\<lambda>_ s. (Inr (), s\<lparr>db := results_set H LOCAL_STORAGE_TASKS_RESULTS_KEY [] (db s)\<rparr>))
                  | _ \<Rightarrow> (Inr (), s))
                 (\<lambda>_ s. (Inr (), s\<lparr>db := lock_set H LOCAL_STORAGE_TASKS_RESULTS_LOCK False (db s)\<rparr>))
          else (Inl LocalStorageError, s))"

definition update_errand_task_results ::
    "('a, 'c) Trait \<Rightarrow> ('a, 'p, 'd, 'n) Host \<Rightarrow> BlockNumber \<Rightarrow> ('a, 'c) chain \<Rightarrow> ('a, 'p, 'd, 'n) Node \<Rightarrow>
     ('a, 'p, 'd, 'n) Node" where
  "update_errand_task_results T H number w s =
     (if \<not> can_sign H None then s
      else if \<not> allow_to_update_result (get_account_ids T H) w then s
      else snd (load_tasks_results_info H None s))"

section \<open>The worker\<close>

definition offchain_worker ::
    "('a, 'c) Trait \<Rightarrow> ('a, 'p, 'd, 'n) Host \<Rightarrow> BlockNumber \<Rightarrow> ('a, 'c) chain \<Rightarrow> ('a, 'p, 'd, 'n) Node \<Rightarrow>
     ('a, 'c) chain \<times> ('a, 'p, 'd, 'n) Node" where
  "offchain_worker T H number w s =
     (let s1 = apply_delegates T H number w s;
          (w2, s2) = send_errand_tasks T H number w s1;
          s3 = query_errand_task_results T H number w2 s2
      in (w2, update_errand_task_results T H number w2 s3))"

section \<open>Loops as lists\<close>

text \<open>The node's keys for an account, and what the loops that collect compute.\<close>

definition local_keys :: "('a, 'p, 'd, 'n) Host \<Rightarrow> 'a \<Rightarrow> 'p list" where
  "local_keys H acc = filter (\<lambda>p. into_account H p = acc) (app_keys H)"

lemma signer_filter_eq:
  "signer_filter acc ids keys = keys @ map snd (filter (\<lambda>(aid, pk). aid = acc) ids)"
  by (induction acc ids keys rule: signer_filter.induct) auto

lemma signer_filter_accounts [simp]: "signer_filter acc (get_accounts H) [] = local_keys H acc"
  by (simp add: signer_filter_eq get_accounts_def local_keys_def filter_map comp_def)

lemma account_ids_loop_eq:
  "account_ids_loop T H keys accounts =
     accounts @ map (\<lambda>p. account_of (encode T (into_account H p)))
                  (filter (\<lambda>p. length (encode T (into_account H p)) = 32) keys)"
  by (induction T H keys accounts rule: account_ids_loop.induct)
    (auto simp: account_to_bytes_def Let_def split: sum.split)

lemma get_account_ids_eq:
  "get_account_ids T H =
     map (\<lambda>p. account_of (encode T (into_account H p)))
       (filter (\<lambda>p. length (encode T (into_account H p)) = 32) (app_keys H))"
  by (simp add: get_account_ids_def account_ids_loop_eq)

text \<open>Reporting: one call for each result, in order, and no error.\<close>

lemma update_loop_eq:
  "fst (update_loop H sg rs s) = Inr () \<and> db (snd (update_loop H sg rs s)) = db s \<and>
   posted (snd (update_loop H sg rs s)) = posted s \<and>
   sent (snd (update_loop H sg rs s)) =
     sent s @ map (\<lambda>(cid, info). (sg, UpdateErrand cid (r_result_cid info))) rs"
  by (induction rs arbitrary: s) (auto simp: update_single_errand_def)

text \<open>Sending tasks leaves everything of the overlay but the balances as it is.\<close>

lemma unreserve_overlay_frame [simp]:
  "DelegateAccounts (unreserve_overlay T who fee w) = DelegateAccounts w"
  "ProcessingErrands (unreserve_overlay T who fee w) = ProcessingErrands w"
  "Errands (unreserve_overlay T who fee w) = Errands w"
  "ClientDelegate (unreserve_overlay T who fee w) = ClientDelegate w"
  "DelegateNetAddress (unreserve_overlay T who fee w) = DelegateNetAddress w"
  "UpdateResultAccounts (unreserve_overlay T who fee w) = UpdateResultAccounts w"
  "currency (unreserve_overlay T who fee w) = snd (unreserve_funds T who (unat fee) (currency w))"
  by (simp_all add: unreserve_overlay_def)

definition only_balances :: "('a, 'c) chain \<Rightarrow> ('a, 'c) chain \<Rightarrow> bool" where
  "only_balances w w' \<longleftrightarrow> (\<exists>cur. w' = w\<lparr>currency := cur\<rparr>)"

lemma only_balances_refl [simp]: "only_balances w w"
  unfolding only_balances_def by (rule exI [of _ "currency w"]) simp

lemma only_balances_trans: "only_balances w w' \<Longrightarrow> only_balances w' w'' \<Longrightarrow> only_balances w w''"
  by (auto simp: only_balances_def)

lemma only_balances_unreserve [simp]: "only_balances w (unreserve_overlay T who fee w)"
  by (auto simp: only_balances_def unreserve_overlay_def)

lemma open_errand_overlay: "only_balances w (fst (open_errand T H filt fee item w s))"
  by (auto simp: open_errand_def split: option.split prod.split bool.split)

lemma send_single_task_overlay: "only_balances w (fst (send_single_task T H ids item w s))"
  by (auto simp: send_single_task_def Let_def open_errand_overlay
      split: option.split prod.split bool.split sum.split)

lemma send_loop_overlay: "only_balances w (fst (send_loop T H ids items w s))"
proof (induction items arbitrary: w s)
  case (Cons item items)
  obtain w' s' where p: "send_single_task T H ids item w s = (w', s')" by fastforce
  with send_single_task_overlay [of w T H ids item s] have "only_balances w w'" by simp
  with Cons [of w' s'] p show ?case by (auto intro: only_balances_trans)
qed simp

lemma send_errand_tasks_overlay: "only_balances w (fst (send_errand_tasks T H number w s))"
  by (simp add: send_errand_tasks_def send_loop_overlay)

end
