(* ===== verification/Reference_Host.thy ===== *)
theory Reference_Host
  imports Offchain_Worker Scenario
begin

text \<open>
  A host in which everything computes, for the witnesses: the database of maps, a keystore of
  accounts, a network that answers every request, with the address of the last request as its
  state. Bytes are written as text bit by bit, which has the laws of SS58, base64 and hex the code relies
  on.
\<close>

definition bits_of :: "u8 \<Rightarrow> bytes" where
  "bits_of b = map (\<lambda>i. if bit b i then 49 else 48) [0..<8]"

definition text_of :: "bytes \<Rightarrow> bytes" where
  "text_of bs = concat (map bits_of bs)"

definition display_bits :: "AccountId32 \<Rightarrow> bytes" where
  "display_bits a = text_of (account_bytes a)"

lemma bits_of_inject: "bits_of b = bits_of c \<Longrightarrow> b = c"
proof (rule bit_word_eqI)
  fix n
  assume "bits_of b = bits_of c" and "n < LENGTH(8)"
  then have "(if bit b n then 49 else 48 :: u8) = (if bit c n then 49 else 48)"
    unfolding bits_of_def by (auto simp del: upt_rec_numeral dest: map_eq_conv [THEN iffD1])
  then show "bit b n \<longleftrightarrow> bit c n" by (auto split: if_splits)
qed

lemma length_bits_of: "length (bits_of b) = 8"
  by (simp add: bits_of_def)

lemma set_bits_of: "set (bits_of b) \<subseteq> {48, 49}"
  by (auto simp: bits_of_def)

lemma display_bits_inject: "display_bits a = display_bits b \<Longrightarrow> a = b"
proof -
  assume "display_bits a = display_bits b"
  then have "map bits_of (account_bytes a) = map bits_of (account_bytes b)"
    unfolding display_bits_def text_of_def
    by (subst (asm) concat_eq_concat_iff) (auto simp: length_bits_of set_zip)
  then have "account_bytes a = account_bytes b"
    by (rule list.inj_map_strong [rotated]) (rule bits_of_inject)
  then show "a = b" by (simp add: account_bytes_inject)
qed

lemma set_text_of: "set (text_of bs) \<subseteq> {48, 49}"
  using set_bits_of by (auto simp: text_of_def)

lemma text_of_valid: "utf8_valid (text_of bs)"
  using set_text_of [of bs] by (intro utf8_valid_ascii) (auto simp: list_all_iff)

lemma display_bits_no_dash: "45 \<notin> set (display_bits a)"
  using set_text_of [of "account_bytes a"] by (auto simp: display_bits_def)

lemma display_bits_valid: "utf8_valid (display_bits a)"
  by (simp add: display_bits_def text_of_valid)

definition demo_info :: DelegateInfo where
  "demo_info = \<lparr>d_delegator_tea_id = [1], d_delegator_ephemeral_id = [2], d_sig = [3], d_key3_rsa_pub_key = [4]\<rparr>"

definition demo_result :: ErrandResultInfo where
  "demo_result = \<lparr>r_completed = True, r_result_cid = [7], r_failed_count = 0\<rparr>"

definition ref_host :: "bool \<Rightarrow> AccountId32 list \<Rightarrow> (AccountId32, AccountId32, map_db, bytes) Host" where
  "ref_host std keys = 
     \<lparr> lock_get = lock_get map_LocalDb, lock_set = lock_set map_LocalDb,
       lock_try_set = lock_try_set map_LocalDb,
       info_get = info_get map_LocalDb, info_set = info_set map_LocalDb,
       results_get = results_get map_LocalDb, results_set = results_set map_LocalDb,
       feature_std = std, app_keys = keys, into_account = (\<lambda>p. p),
       signer_keys = (\<lambda>f. case f of None \<Rightarrow> keys | Some ks \<Rightarrow> filter (\<lambda>k. k \<in> set keys) ks),
       send_signed = (\<lambda>f call n. ([], n)),
       timestamp = (\<lambda>n. 0), timestamp_add = (\<lambda>a b. a + b),
       http_send = (\<lambda>q n. (Inr 1, q_url q)),
       http_try_wait = (\<lambda>pending deadline n. (Inr (Inr \<lparr>p_code = 200, p_body = []\<rparr>), n)),
       json_ResponseResult = (\<lambda>body. if utf8_valid body then Inr body else Inl []),
       json_ErrandResultInfo = (\<lambda>body. Inr demo_result),
       json_DelegateInfo = (\<lambda>body. Inr demo_info),
       prost_encode = (\<lambda>msg. Inr (layer1_account msg)),
       display_account = display_bits, base64_encode = text_of, hex_encode = text_of,
       sr25519_from_string = (\<lambda>seed. None) \<rparr>"

lemma ref_host_db [simp]:
  "lock_get (ref_host std keys) = lock_get map_LocalDb" "lock_set (ref_host std keys) = lock_set map_LocalDb"
  "lock_try_set (ref_host std keys) = lock_try_set map_LocalDb"
  "info_get (ref_host std keys) = info_get map_LocalDb" "info_set (ref_host std keys) = info_set map_LocalDb"
  "results_get (ref_host std keys) = results_get map_LocalDb"
  "results_set (ref_host std keys) = results_set map_LocalDb"
  by (simp_all add: ref_host_def)

lemma ref_host_local_db: "local_db (ref_host std keys)"
  using mdb.local_db_axioms unfolding local_db_def by simp

interpretation host: offchain_host "ref_host std keys" for std keys
proof -
  have "offchain_host_axioms (ref_host std keys)"
    by unfold_locales
      (auto simp: ref_host_def text_of_valid display_bits_valid display_bits_no_dash dest: display_bits_inject split: if_splits)
  with ref_host_local_db show "offchain_host (ref_host std keys)"
    by (rule offchain_host.intro)
qed

interpretation qhost: quiet_db "ref_host std keys" for std keys
proof -
  have "quiet_db_axioms (ref_host std keys)"
    by (rule quiet_db_axioms.intro) (simp add: map_LocalDb_def)
  with ref_host_local_db show "quiet_db (ref_host std keys)" by (rule quiet_db.intro)
qed

definition demo_node :: "(AccountId32, AccountId32, map_db, bytes) Node" where
  "demo_node = \<lparr>db = empty_db, net = [], posted = [], heard = [], sent = []\<rparr>"

end
