(* ===== verification/Worker_Results.thy ===== *)
theory Worker_Results
  imports Reference_Host
begin

text \<open>
  Results on their way from the delegate's service to the chain: asked for, kept in the local
  storage, reported as calls of \<^verbatim>\<open>update_errand\<close>; and the locks of the local storage, which the
  worker frees whatever happens.
\<close>

section \<open>Locks\<close>

definition worker_lock :: "('a, 'p, 'd, 'n) Host \<Rightarrow> bytes \<Rightarrow> bool" where
  "worker_lock H k \<longleftrightarrow>
     k = LOCAL_STORAGE_TASKS_RESULTS_LOCK \<or> (\<exists>a. k = client_lock_key (display_account H a))"

text \<open>
  What the queries add to the list of results: for an errand, the answer in a response to a query for the errand's id
  at the address on record for the delegate of the errand's client, if it says completed. \<open>X\<close> is the set
  of responses the node has heard, each with the address it was for.
\<close>

definition answered ::
    "('a, 'c) Trait \<Rightarrow> ('a, 'p, 'd, 'n) Host \<Rightarrow> ('a, 'c) chain \<Rightarrow> (bytes \<times> HttpResponse) set \<Rightarrow> Cid \<Rightarrow>
     Cid \<times> ErrandResultInfo \<Rightarrow> bool" where
  "answered T H w X item r \<longleftrightarrow>
     (\<exists>e client response resp. Errands w item = Some e \<and> e_description_cid e = fst r \<and>
        decode T (e_account_id e) = Some client \<and>
        (query_url
           (SERVICE_BASE_URL_PREFIX @
            storage_get [] (DelegateNetAddress w) (storage_get (default_account T) (ClientDelegate w) client))
           (e_errand_id e), response) \<in> X \<and>
        p_code response = 200 \<and> json_ResponseResult H (p_body response) = Inr resp \<and>
        json_ErrandResultInfo H resp = Inr (snd r) \<and> r_completed (snd r))"

definition collected ::
    "('a, 'c) Trait \<Rightarrow> ('a, 'p, 'd, 'n) Host \<Rightarrow> ('a, 'c) chain \<Rightarrow> (bytes \<times> HttpResponse) set \<Rightarrow> Cid list \<Rightarrow> Results \<Rightarrow>
     bool" where
  "collected T H w X items new \<longleftrightarrow> (\<forall>r \<in> set new. \<exists>item \<in> set items. answered T H w X item r)"

lemma answered_mono: "X \<subseteq> Y \<Longrightarrow> answered T H w X item r \<Longrightarrow> answered T H w Y item r"
  unfolding answered_def by blast

lemma collected_mono: "X \<subseteq> Y \<Longrightarrow> collected T H w X items new \<Longrightarrow> collected T H w Y items new"
  unfolding collected_def using answered_mono by blast

lemma tenth_block: "(ucast (n :: u32) mod 10 :: u64) = 0 \<longleftrightarrow> 10 dvd unat n"
proof -
  have "unat (ucast n mod 10 :: u64) = unat n mod 10"
    by (simp add: unat_mod_distrib unat_ucast_u64)
  then show ?thesis by (metis dvd_eq_mod_eq_0 unat_eq_zero)
qed

context offchain_host
begin

lemma worker_lock_apart:
  "worker_lock H k \<Longrightarrow> k \<noteq> client_key (display_account H a)"
  "worker_lock H k \<Longrightarrow> k \<noteq> LOCAL_STORAGE_TASKS_RESULTS_KEY"
  using account_keys_apart account_keys_apart [THEN not_sym] client_tasks_keys_apart [THEN not_sym]
  by (auto simp: worker_lock_def)

lemma save_delegate_info_locks:
  assumes "worker_lock H k" and "lock_free (lock_get H k (db s))"
  shows "lock_free (lock_get H k (db (snd (save_delegate_info H (display_account H a) i s))))"
  unfolding save_delegate_info_def on_db_frame
  by (rule operate_db_keeps)
    (use assms worker_lock_apart(1) [OF assms(1), of a] in \<open>auto simp: lock_get_set lock_get_info\<close>)

lemma load_delegate_info_locks:
  assumes "lock_free (lock_get H k (db s))"
  shows "lock_free (lock_get H k (db (snd (load_delegate_info H c s))))"
  unfolding load_delegate_info_node on_db_frame
  by (rule operate_db_keeps) (use assms in \<open>auto simp: lock_get_set\<close>)

lemma append_result_locks:
  assumes "worker_lock H k" and "lock_free (lock_get H k d)"
  shows "lock_free (lock_get H k (snd (operate_local_storage H LOCAL_STORAGE_TASKS_RESULTS_KEY
           LOCAL_STORAGE_TASKS_RESULTS_LOCK (append_result H cid info) d)))"
  by (rule operate_db_keeps)
    (use assms worker_lock_apart(2) [OF assms(1)] in
      \<open>auto simp: append_result_def lock_get_set lock_get_results split: option.splits\<close>)

lemma request_single_delegate_locks:
  assumes "worker_lock H k" and "lock_free (lock_get H k (db s))"
  shows "lock_free (lock_get H k (db (snd (request_single_delegate H a addr s))))"
proof -
  have keep: "lock_free (lock_get H k (db (snd (http_post H url s))))" for url
    using assms(2) by (simp add: http_post_frame)
  have "lock_free (lock_get H k (db (snd (parse_delegate_response H resp (display_account H a) s1))))"
    if "lock_free (lock_get H k (db s1))" for resp s1
    unfolding parse_delegate_response_def
    by (rule and_then_keeps)
      (use that save_delegate_info_locks [OF assms(1)] in \<open>auto split: sum.split\<close>)
  with assms(2) keep show ?thesis
    by (auto simp: request_single_delegate_def Let_def split: sum.split prod.split)
      (metis snd_conv)+
qed

lemma fetch_single_task_result_locks:
  assumes "worker_lock H k" and "lock_free (lock_get H k (db s))"
  shows "lock_free (lock_get H k (db (snd (fetch_single_task_result H eid cid addr s))))"
  unfolding fetch_single_task_result_node fetch_errand_result_info_def
  by (intro and_then_keeps [where P = "\<lambda>s. lock_free (lock_get H k (db s))"])
    (use assms in \<open>auto simp: http_query_frame append_result_locks split: sum.split
       intro: and_then_keeps [where P = "\<lambda>s. lock_free (lock_get H k (db s))"]\<close>)

lemma send_task_to_tea_network_locks:
  assumes "lock_free (lock_get H k (db s))"
  shows "lock_free (lock_get H k (db (snd (send_task_to_tea_network H a cid eid addr s))))"
  unfolding send_task_to_tea_network_node send_task_internal_def
  by (intro and_then_keeps [where P = "\<lambda>s. lock_free (lock_get H k (db s))"])
    (use assms in \<open>auto simp: http_post_frame load_delegate_info_locks\<close>)

section \<open>Reporting\<close>

lemma load_tasks_results_info_outcome:
  assumes "load_tasks_results_info H sg s = (r, s')"
  shows "case r of
           Inl e \<Rightarrow> e = LocalStorageError \<and> db s' = db s \<and> sent s' = sent s
         | Inr _ \<Rightarrow> lock_free (lock_get H LOCAL_STORAGE_TASKS_RESULTS_LOCK (db s)) \<and>
             (\<exists>d. db s' = lock_set H LOCAL_STORAGE_TASKS_RESULTS_LOCK False d \<and>
                (d = lock_set H LOCAL_STORAGE_TASKS_RESULTS_LOCK True (db s) \<and> results_of H d = [] \<or>
                 d = results_set H LOCAL_STORAGE_TASKS_RESULTS_KEY []
                       (lock_set H LOCAL_STORAGE_TASKS_RESULTS_LOCK True (db s)))) \<and>
             sent s' = sent s @ map (\<lambda>(cid, info). (sg, UpdateErrand cid (r_result_cid info)))
                                  (results_of H (db s))"
proof (cases "lock_free (lock_get H LOCAL_STORAGE_TASKS_RESULTS_LOCK (db s))")
  case False
  with assms show ?thesis
    by (auto simp: load_tasks_results_info_def lock_mutate_def acquire_results_lock_def on_db_def)
next
  case free: True
  obtain stored d1 where att:
    "lock_try_set H LOCAL_STORAGE_TASKS_RESULTS_LOCK True (db s) = (stored, d1)" by fastforce
  show ?thesis
  proof (cases stored)
    case False
    with att have "d1 = db s" by (simp add: try_refused)
    with assms free False att show ?thesis
      by (auto simp: load_tasks_results_info_def lock_mutate_def acquire_results_lock_def on_db_def)
  next
    case True
    with att have d1: "d1 = lock_set H LOCAL_STORAGE_TASKS_RESULTS_LOCK True (db s)"
      by (simp add: try_stored)
    let ?g = "results_get H LOCAL_STORAGE_TASKS_RESULTS_KEY d1"
    have g: "results_of H (db s) = (case ?g of Some (Some rs) \<Rightarrow> rs | _ \<Rightarrow> [])"
      by (simp add: d1 results_of_def results_get_lock)
    show ?thesis
    proof (cases "\<exists>rs. ?g = Some (Some rs)")
      case rs: True
      then obtain rs where rs: "?g = Some (Some rs)" by blast
      let ?l = "update_loop H sg rs (s\<lparr>db := d1\<rparr>)"
      obtain s2 where l: "?l = (Inr (), s2)"
        using update_loop_eq [of H sg rs "s\<lparr>db := d1\<rparr>"] by (metis prod.collapse)
      with assms free True att rs g show ?thesis
        using update_loop_eq [of H sg rs "s\<lparr>db := d1\<rparr>"]
        by (auto simp: load_tasks_results_info_def lock_mutate_def acquire_results_lock_def on_db_def d1)
    next
      case none: False
      have "load_tasks_results_info H sg s =
              (Inr (), s\<lparr>db := lock_set H LOCAL_STORAGE_TASKS_RESULTS_LOCK False d1\<rparr>)"
        using free True att none
        by (auto simp: load_tasks_results_info_def lock_mutate_def acquire_results_lock_def on_db_def
            split: option.split)
      moreover have "results_of H (db s) = []"
        using none g by (auto split: option.splits)
      ultimately show ?thesis using assms free d1 by auto
    qed
  qed
qed

lemma load_tasks_results_info_locks:
  assumes "worker_lock H k" and "lock_free (lock_get H k (db s))"
  shows "lock_free (lock_get H k (db (snd (load_tasks_results_info H sg s))))"
proof -
  obtain r s' where p: "load_tasks_results_info H sg s = (r, s')" by fastforce
  from load_tasks_results_info_outcome [OF p] assms worker_lock_apart(2) [OF assms(1)] p
  show ?thesis by (cases r) (auto simp: lock_get_set lock_get_results)
qed

section \<open>The worker's loops\<close>

lemma apply_loop_locks:
  assumes "worker_lock H k" and "lock_free (lock_get H k (db s))"
  shows "lock_free (lock_get H k (db (apply_loop T H ids accs w s)))"
  using assms(2)
proof (induction accs arbitrary: s)
  case (Cons acc accs)
  obtain r s1 where p: "apply_single_delegate T H (snd acc) w s = (r, s1)" by fastforce
  have "lock_free (lock_get H k (db (snd (apply_single_delegate T H (snd acc) w s))))"
    using request_single_delegate_locks [OF assms(1) Cons.prems] Cons.prems
    by (auto simp: apply_single_delegate_def Let_def split: sum.split prod.split bool.split)
      (metis snd_conv)+
  with p have "lock_free (lock_get H k (db s1))" by simp
  with Cons p show ?case by (cases r) (simp_all add: Let_def)
qed simp

lemma open_errand_db: "db (snd (open_errand T H filt fee item w s)) = db s"
  by (auto simp: open_errand_def init_single_errand_task_def split: option.split prod.split bool.split)
    (metis send_signed_transaction_frame(1) snd_conv)+

lemma send_loop_locks:
  assumes "lock_free (lock_get H k (db s))"
  shows "lock_free (lock_get H k (db (snd (send_loop T H ids items w s))))"
  using assms
proof (induction items arbitrary: w s)
  case (Cons item items)
  obtain w1 s1 where p: "send_single_task T H ids item w s = (w1, s1)" by fastforce
  have "lock_free (lock_get H k (db (snd (send_single_task T H ids item w s))))"
    using Cons.prems send_task_to_tea_network_locks [OF Cons.prems]
    by (auto simp: send_single_task_def Let_def open_errand_db split: option.split sum.split prod.split bool.split)
      (metis snd_conv)+
  with p have "lock_free (lock_get H k (db s1))" by simp
  with Cons p show ?case by simp
qed simp

lemma query_loop_locks:
  assumes "worker_lock H k" and "lock_free (lock_get H k (db s))"
  shows "lock_free (lock_get H k (db (query_loop T H items w s)))"
  using assms(2)
  by (induction items arbitrary: s)
    (auto simp: Let_def fetch_single_task_result_locks [OF assms(1)] split: option.split)

lemma offchain_worker_locks:
  assumes "worker_lock H k" and "lock_free (lock_get H k (db s))"
  shows "lock_free (lock_get H k (db (snd (offchain_worker T H number w s))))"
proof -
  let ?s1 = "apply_delegates T H number w s"
  obtain w2 s2 where p: "send_errand_tasks T H number w ?s1 = (w2, s2)" by fastforce
  have "lock_free (lock_get H k (db ?s1))"
    using assms by (simp add: apply_delegates_def apply_loop_locks)
  then have "lock_free (lock_get H k (db (snd (send_errand_tasks T H number w ?s1))))"
    by (simp add: send_errand_tasks_def send_loop_locks)
  then have "lock_free (lock_get H k (db (query_errand_task_results T H number w2 s2)))"
    using p assms(1) by (simp add: query_errand_task_results_def Let_def query_loop_locks)
  then show ?thesis
    using p assms(1)
    by (simp add: offchain_worker_def Let_def update_errand_task_results_def load_tasks_results_info_locks)
qed

lemma query_loop_hears: "prefix (heard s) (heard (query_loop T H items w s))"
  by (induction items arbitrary: s)
    (auto simp: Let_def split: option.split intro: prefix_order.trans [OF fetch_single_task_result_hears])

text \<open>One query: what it appends is the answer in a response it has heard.\<close>

lemma fetch_collects:
  fixes T :: "('a, 'c) Trait" and w :: "('a, 'c) chain"
  assumes e: "Errands w item = Some e" "decode T (e_account_id e) = Some client"
    and s1: "s1 = snd (fetch_single_task_result H (e_errand_id e) (e_description_cid e)
      (storage_get [] (DelegateNetAddress w) (storage_get (default_account T) (ClientDelegate w) client)) s)"
  obtains add where "results_of H (db s1) = results_of H (db s) @ add" and "collected T H w (learned s s1) [item] add"
proof -
  let ?addr = "storage_get [] (DelegateNetAddress w) (storage_get (default_account T) (ClientDelegate w) client)"
  obtain r where f: "fetch_errand_result_info H (e_errand_id e) (e_description_cid e) ?addr s = (r, s1)"
    using s1 by (metis fetch_single_task_result_node prod.collapse)
  show thesis
  proof (cases "results_of H (db s1) = results_of H (db s)")
    case False
    with fetch_errand_result_info_results [OF f] obtain info resp s0 where
      q: "http_query_task_result H (e_errand_id e) ?addr s = (Inr resp, s0)" "heard s1 = heard s0"
        "json_ErrandResultInfo H resp = Inr info" "r_completed info"
      and new: "results_of H (db s1) = results_of H (db s) @ [(e_description_cid e, info)]" by blast
    from http_query_heard [OF q(1)] obtain response where
      "heard s1 = heard s @ [(query_url (SERVICE_BASE_URL_PREFIX @ ?addr) (e_errand_id e), response)]"
      "p_code response = 200" "json_ResponseResult H (p_body response) = Inr resp" unfolding q(2) .
    with e q(3,4) have "answered T H w (learned s s1) item (e_description_cid e, info)"
      by (auto simp: answered_def learned_def)
    with new that show thesis by (simp add: collected_def)
  qed (use that [of "[]"] in \<open>simp add: collected_def\<close>)
qed

lemma query_loop_results:
  "\<exists>new. results_of H (db (query_loop T H items w s)) = results_of H (db s) @ new \<and>
     sent (query_loop T H items w s) = sent s \<and> collected T H w (learned s (query_loop T H items w s)) items new"
proof (induction items arbitrary: s)
  case Nil
  show ?case by (rule exI [of _ "[]"]) (simp add: collected_def)
next
  case (Cons item items)
  have weaken: "collected T H w X items new \<Longrightarrow> collected T H w X (item # items) new" for X new
    by (fastforce simp: collected_def)
  show ?case
  proof (cases "\<exists>e client. Errands w item = Some e \<and> decode T (e_account_id e) = Some client \<and> feature_std H")
    case False
    with Cons [of s] weaken show ?thesis by (auto split: option.split)
  next
    case True
    then obtain e client where e: "Errands w item = Some e" "decode T (e_account_id e) = Some client"
      "feature_std H" by blast
    let ?addr = "storage_get [] (DelegateNetAddress w) (storage_get (default_account T) (ClientDelegate w) client)"
    let ?s1 = "snd (fetch_single_task_result H (e_errand_id e) (e_description_cid e) ?addr s)"
    let ?s2 = "query_loop T H items w ?s1"
    obtain add where add: "results_of H (db ?s1) = results_of H (db s) @ add" "collected T H w (learned s ?s1) [item] add"
      by (rule fetch_collects [OF e(1,2) refl])
    obtain new where new: "results_of H (db ?s2) = results_of H (db ?s1) @ new" "sent ?s2 = sent ?s1"
      "collected T H w (learned ?s1 ?s2) items new" using Cons by blast
    note grows = learned_trans [OF fetch_single_task_result_hears query_loop_hears]
    have "collected T H w (learned s ?s2) (item # items) (add @ new)"
      using collected_mono [OF grows(1) add(2)] collected_mono [OF grows(2) new(3)]
      by (auto simp: collected_def)
    with e new(1,2) add(1) show ?thesis by (auto simp: Let_def)
  qed
qed

end

section \<open>Properties\<close>

text \<open>
  C23: reporting drains the list. If \<^verbatim>\<open>load_tasks_results_info\<close> succeeds, the lock was free, one call
  of \<^verbatim>\<open>update_errand\<close> was sent for each stored result, in order, with the errand's description and
  the result's cid, the list is empty and the lock is free again; if it fails, nothing was sent
  and the database is as it was.
\<close>

theorem report_drains_results:
  assumes "offchain_host H" and "load_tasks_results_info H signer s = (r, s')"
  shows "case r of
           Inl e \<Rightarrow> e = LocalStorageError \<and> db s' = db s \<and> sent s' = sent s
         | Inr _ \<Rightarrow> lock_free (lock_get H LOCAL_STORAGE_TASKS_RESULTS_LOCK (db s)) \<and>
             sent s' = sent s @ map (\<lambda>(cid, info). (signer, UpdateErrand cid (r_result_cid info)))
                                  (results_of H (db s)) \<and>
             results_of H (db s') = [] \<and>
             lock_get H LOCAL_STORAGE_TASKS_RESULTS_LOCK (db s') = Some (Some False)"
proof -
  have l: "local_db H" using assms(1) by (simp add: offchain_host_def)
  show ?thesis
    using offchain_host.load_tasks_results_info_outcome [OF assms]
    by (cases r)
      (auto simp: local_db.lock_get_set [OF l] offchain_host.results_of_lock [OF assms(1)]
        offchain_host.results_of_set [OF assms(1)])
qed

definition demo_fetched :: "(AccountId32, AccountId32, map_db, bytes) Node" where
  "demo_fetched = demo_node\<lparr>db := empty_db\<lparr>m_results := (\<lambda>k. if k = LOCAL_STORAGE_TASKS_RESULTS_KEY
     then Some [(demo_cid, demo_result)] else None)\<rparr>\<rparr>"

theorem report_drains_results_witness:
  "\<exists>s'. load_tasks_results_info (ref_host True [alice]) None demo_fetched = (Inr (), s') \<and>
        sent s' = [(None, UpdateErrand demo_cid [7])] \<and> results_of (ref_host True [alice]) (db s') = []"
proof -
  let ?H = "ref_host True [alice]"
  have "fst (load_tasks_results_info ?H None demo_fetched) = Inr ()" by code_simp
  then obtain s' where p: "load_tasks_results_info ?H None demo_fetched = (Inr (), s')"
    by (metis prod.collapse)
  have "results_of ?H (db demo_fetched) = [(demo_cid, demo_result)]" "sent demo_fetched = []" by code_simp+
  with p report_drains_results [OF host.offchain_host_axioms p] show ?thesis by (auto simp: demo_result_def)
qed

text \<open>
  C24: a query only collects. \<^verbatim>\<open>query_errand_task_results\<close> sends no call and only appends to the
  list of results: for an errand in progress, under its description, the completed answer in a response it has just
  heard from the address on record for its client's delegate. It does something only in every tenth block and on a node that has
  an account that may update results.
\<close>

theorem query_collects_completed:
  assumes "offchain_host H"
  shows "let s' = query_errand_task_results T H number w s
         in sent s' = sent s \<and>
            (\<exists>new. results_of H (db s') = results_of H (db s) @ new \<and>
               collected T H w (learned s s') (ProcessingErrands w) new) \<and>
            (s' = s \<or> 10 dvd unat number \<and>
               set (UpdateResultAccounts w) \<inter> set (get_account_ids T H) \<noteq> {})"
proof -
  obtain new where "results_of H (db (query_loop T H (ProcessingErrands w) w s)) = results_of H (db s) @ new"
    "sent (query_loop T H (ProcessingErrands w) w s) = sent s"
    "collected T H w (learned s (query_loop T H (ProcessingErrands w) w s)) (ProcessingErrands w) new"
    using offchain_host.query_loop_results [OF assms] by blast
  moreover have "collected T H w X (ProcessingErrands w) []" for X by (simp add: collected_def)
  ultimately show ?thesis
    by (auto simp: query_errand_task_results_def Let_def tenth_block allow_to_update_result_iff)
qed

theorem query_collects_completed_witness:
  "let s' = query_errand_task_results ref_trait (ref_host True [alice]) 20 demo_inited demo_node
   in results_of (ref_host True [alice]) (db s') = [(demo_cid, demo_result)] \<and>
      collected ref_trait (ref_host True [alice]) demo_inited (learned demo_node s') (ProcessingErrands demo_inited)
        [(demo_cid, demo_result)]"
proof -
  let ?H = "ref_host True [alice]"
  have "results_of ?H (db (query_errand_task_results ref_trait ?H 20 demo_inited demo_node))
     = [(demo_cid, demo_result)]" "results_of ?H (db demo_node) = []" by code_simp+
  with query_collects_completed [OF host.offchain_host_axioms, of ref_trait True "[alice]" 20 demo_inited demo_node]
  show ?thesis by (auto simp: Let_def)
qed

text \<open>
  C28: the worker frees its locks. Every lock of the local storage that is free when the off-chain
  worker starts, the one of the results and the one of each account, is free when it ends, whatever
  the chain, the network and the keystore answer.
\<close>

theorem offchain_worker_frees_locks:
  assumes "offchain_host H" and "worker_lock H k" and "lock_free (lock_get H k (db s))"
  shows "lock_free (lock_get H k (db (snd (offchain_worker T H number w s))))"
  by (rule offchain_host.offchain_worker_locks [OF assms])

theorem offchain_worker_frees_locks_witness:
  "lock_free (lock_get (ref_host True [alice]) LOCAL_STORAGE_TASKS_RESULTS_LOCK
     (db (snd (offchain_worker ref_trait (ref_host True [alice]) 20 demo_inited demo_fetched))))"
  by (rule offchain_worker_frees_locks [OF host.offchain_host_axioms])
    (simp add: worker_lock_def, code_simp)

end
