(* ===== verification/Worker_Delegates.thy ===== *)
theory Worker_Delegates
  imports Reference_Host
begin

text \<open>
  Delegates seen from the node: which calls \<^verbatim>\<open>apply_delegates\<close> sends and with whose keys, what it
  leaves in the local storage, and that the chain accepts its confirmations. The last section
  follows the delegate's signature from the service's answer to the address a task is sent to.
\<close>

section \<open>The calls\<close>

text \<open>The call for an application: signed with the applicant's keys, it confirms or withdraws.\<close>

fun application_call ::
    "('a, 'p, 'd, 'n) Host \<Rightarrow> DelegatorName \<times> 'a \<Rightarrow> 'p list option \<times> 'a Call \<Rightarrow> bool" where
  "application_call H (name, acc) (filt, call) \<longleftrightarrow>
     filt = Some (local_keys H acc) \<and> (call = UpdateDelegateStatus acc \<or> call = Unreserve name acc)"

definition local_applications ::
    "('a, 'p, 'd, 'n) Host \<Rightarrow> (DelegatorName \<times> 'a) list \<Rightarrow> (DelegatorName \<times> 'a) list" where
  "local_applications H accs = filter (\<lambda>(name, acc). local_keys H acc \<noteq> []) accs"

lemma apply_single_delegate_sent:
  "sent (snd (apply_single_delegate T H a w s)) = sent s"
  using request_single_delegate_frame(1) [of H "account_of (encode T a)"]
  by (auto simp: apply_single_delegate_def account_to_bytes_def Let_def
      split: prod.split bool.split) (metis snd_conv)+

lemma apply_loop_sent:
  "\<exists>calls. sent (apply_loop T H (get_accounts H) accs w s) = sent s @ calls \<and>
     list_all2 (application_call H) (local_applications H accs) calls"
proof (induction accs arbitrary: s)
  case (Cons acc accs)
  obtain name a where acc: "acc = (name, a)" by fastforce
  show ?case
  proof (cases "local_keys H a = []")
    case True
    with Cons [of s] acc show ?thesis by (simp add: local_applications_def)
  next
    case False
    obtain r s1 where p: "apply_single_delegate T H a w s = (r, s1)" by fastforce
    then have s1: "sent s1 = sent s" using apply_single_delegate_sent by (metis snd_conv)
    let ?call = "case r of Inl e \<Rightarrow> Unreserve name a | Inr _ \<Rightarrow> UpdateDelegateStatus a"
    let ?s2 = "snd (send_signed_transaction H (Some (local_keys H a)) ?call s1)"
    have step: "apply_loop T H (get_accounts H) (acc # accs) w s = apply_loop T H (get_accounts H) accs w ?s2"
      using False acc p by (cases r) (simp_all add: Let_def)
    obtain calls where calls: "sent (apply_loop T H (get_accounts H) accs w ?s2) = sent ?s2 @ calls"
      "list_all2 (application_call H) (local_applications H accs) calls" using Cons by blast
    have "sent (apply_loop T H (get_accounts H) (acc # accs) w s) =
            sent s @ (Some (local_keys H a), ?call) # calls"
      using step calls(1) s1 by simp
    moreover have "list_all2 (application_call H) (local_applications H (acc # accs))
        ((Some (local_keys H a), ?call) # calls)"
      using False acc calls(2) by (cases r) (simp_all add: local_applications_def)
    ultimately show ?thesis by blast
  qed
qed (simp add: local_applications_def)

text \<open>The same as a fact about each call sent.\<close>

lemma apply_loop_call:
  assumes "x \<in> set (drop (length (sent s)) (sent (apply_loop T H (get_accounts H) accs w s)))"
  shows "\<exists>name acc. (name, acc) \<in> set accs \<and> application_call H (name, acc) x"
proof -
  obtain calls where c: "sent (apply_loop T H (get_accounts H) accs w s) = sent s @ calls"
    "list_all2 (application_call H) (local_applications H accs) calls"
    using apply_loop_sent by blast
  with assms have "x \<in> set calls" by simp
  with c(2) obtain y where y: "y \<in> set (local_applications H accs)" "application_call H y x"
    by (metis in_set_conv_nth list_all2_conv_all_nth)
  then have "y \<in> set accs" by (simp add: local_applications_def)
  with y(2) show ?thesis by (metis prod.collapse)
qed

section \<open>What is stored\<close>

definition has_info :: "('a, 'p, 'd, 'n) Host \<Rightarrow> AccountId32 \<Rightarrow> 'd \<Rightarrow> bool" where
  "has_info H a d \<longleftrightarrow> (\<exists>i. info_get H (client_key (display_account H a)) d = Some (Some i))"

context offchain_host
begin

lemma save_delegate_info_keeps:
  "has_info H b (db s) \<Longrightarrow> has_info H b (db (snd (save_delegate_info H (display_account H a) i s)))"
  unfolding save_delegate_info_def on_db_frame
  by (rule operate_db_keeps)
    (use account_keys_apart in \<open>auto simp: has_info_def info_get_set info_get_lock\<close>)

lemma request_single_delegate_keeps:
  assumes "has_info H b (db s)"
  shows "has_info H b (db (snd (request_single_delegate H a addr s)))"
proof -
  have keep: "has_info H b (db (snd (http_post H url s)))" for url
    using assms by (simp add: http_post_frame)
  have "has_info H b (db (snd (parse_delegate_response H resp (display_account H a) s1)))"
    if "has_info H b (db s1)" for resp s1
    unfolding parse_delegate_response_def
    by (rule and_then_keeps) (use that save_delegate_info_keeps in \<open>auto split: sum.split\<close>)
  with assms keep show ?thesis
    by (auto simp: request_single_delegate_def Let_def split: sum.split prod.split)
      (metis snd_conv)+
qed

lemma request_single_delegate_info:
  "request_single_delegate H a addr s = (True, s') \<Longrightarrow> has_info H a (db s')"
  by (auto simp: has_info_def dest!: request_single_delegate_ok save_delegate_info_ok)

lemma apply_single_delegate_info:
  assumes "feature_std H" and "apply_single_delegate T H a w s = (r, s')"
  shows "has_info H b (db s) \<Longrightarrow> has_info H b (db s')"
    and "r = Inr () \<Longrightarrow> has_info H (account_of (encode T a)) (db s')"
  using assms request_single_delegate_keeps [of b s]
  by (auto simp: apply_single_delegate_def account_to_bytes_def Let_def request_single_delegate_info
      split: if_splits prod.splits bool.splits) (metis snd_conv)+

text \<open>Every confirmed account of the node has its delegate info in the local storage.\<close>

lemma apply_loop_info:
  assumes "feature_std H"
    and "sent s = pre @ mid"
    and "\<And>f a. (f, UpdateDelegateStatus a) \<in> set mid \<Longrightarrow> has_info H (account_of (encode T a)) (db s)"
    and "(f, UpdateDelegateStatus a) \<in> set (drop (length pre) (sent (apply_loop T H ids accs w s)))"
  shows "has_info H (account_of (encode T a)) (db (apply_loop T H ids accs w s))"
  using assms(2-4)
proof (induction accs arbitrary: s mid)
  case (Cons acc accs)
  show ?case
  proof (cases "signer_filter (snd acc) ids [] = []")
    case True
    with Cons.IH [OF Cons.prems(1,2)] Cons.prems(3) show ?thesis by simp
  next
    case False
    obtain r s1 where p: "apply_single_delegate T H (snd acc) w s = (r, s1)" by fastforce
    then have s1: "sent s1 = sent s" using apply_single_delegate_sent by (metis snd_conv)
    note keep = apply_single_delegate_info [OF assms(1) p]
    let ?f = "Some (signer_filter (snd acc) ids [])"
    let ?call = "case r of Inl e \<Rightarrow> Unreserve (fst acc) (snd acc) | Inr _ \<Rightarrow> UpdateDelegateStatus (snd acc)"
    let ?s2 = "snd (send_signed_transaction H ?f ?call s1)"
    have step: "apply_loop T H ids (acc # accs) w s = apply_loop T H ids accs w ?s2"
      using False p by (cases r) (simp_all add: Let_def)
    have "sent ?s2 = pre @ (mid @ [(?f, ?call)])" using s1 Cons.prems(1) by simp
    moreover have "has_info H (account_of (encode T a')) (db ?s2)"
      if "(f', UpdateDelegateStatus a') \<in> set (mid @ [(?f, ?call)])" for f' a'
      using that Cons.prems(2) keep by (cases r) auto
    ultimately show ?thesis using Cons.IH [of ?s2] Cons.prems(3) step by simp
  qed
qed auto

end

section \<open>From the answer to a task\<close>

text \<open>With the lock free and nobody else on the database, a stored answer is read back.\<close>

lemma load_delegate_info_free:
  assumes "offchain_host H" and "quiet_db H"
    and "info_get H (client_key (display_account H a)) (db s) = Some (Some i)"
    and "lock_free (lock_get H (client_lock_key (display_account H a)) (db s))"
  shows "\<exists>d'. load_delegate_info H (display_account H a) s = (Inr i, s\<lparr>db := d'\<rparr>)"
proof -
  let ?c = "display_account H a"
  have "info_get H (client_key ?c) (lock_set H (client_lock_key ?c) True (db s)) = Some (Some i)"
    using assms(2,3) offchain_host.account_keys_apart [OF assms(1), of a a]
    by (simp add: quiet_db_def local_db.info_get_lock)
  with quiet_db.operate_free [OF assms(2,4), of "\<lambda>key d. (info_get H key d, d)" "client_key ?c"]
  show ?thesis by (auto simp: load_delegate_info_def on_db_def)
qed

lemma send_task_internal_posts:
  assumes "load_delegate_info H c s = (Inr i, s1)" and "posted s1 = posted s"
    and "utf8_valid cid" and "utf8_valid eid" and "utf8_valid addr"
  shows "posted (snd (send_task_internal H c cid eid addr s)) =
           posted s @ [task_url (SERVICE_BASE_URL_PREFIX @ addr) c eid (hex_encode H (d_sig i)) cid]"
proof -
  let ?u = "task_url (SERVICE_BASE_URL_PREFIX @ addr) c eid (hex_encode H (d_sig i)) cid"
  have "get_url addr = Inr (SERVICE_BASE_URL_PREFIX @ addr)"
    using assms(5) by (simp add: get_url_Inr)
  with assms have "snd (send_task_internal H c cid eid addr s) = snd (http_post H ?u s1)"
    by (auto simp: send_task_internal_def and_then_def from_utf8_def split: prod.split sum.split)
  with assms(2) show ?thesis by (simp add: http_post_frame)
qed

text \<open>Without the feature \<^verbatim>\<open>std\<close>, an application is confirmed with nothing asked.\<close>

lemma apply_loop_no_std:
  assumes "\<not> feature_std H" and "list_all (\<lambda>(name, acc). length (encode T acc) = 32) accs"
  shows "sent (apply_loop T H (get_accounts H) accs w s) =
           sent s @ map (\<lambda>(name, acc). (Some (local_keys H acc), UpdateDelegateStatus acc))
                      (local_applications H accs) \<and>
         posted (apply_loop T H (get_accounts H) accs w s) = posted s"
  using assms(2)
proof (induction accs arbitrary: s)
  case (Cons acc accs)
  then have "apply_single_delegate T H (snd acc) w s = (Inr (), s)"
    using assms(1) by (auto simp: apply_single_delegate_def account_to_bytes_def)
  with Cons show ?case
    by (cases "local_keys H (snd acc) = []") (auto simp: local_applications_def Let_def)
qed (simp add: local_applications_def)

section \<open>Properties\<close>

text \<open>
  The calls of \<^verbatim>\<open>apply_delegates\<close>. On a node that can sign, exactly one call is sent for each
  application of the block whose account has a key in the keystore, in the order of the
  applications: it is signed with the keys of that account only and either confirms it
  (\<^verbatim>\<open>update_delegate_status\<close>) or withdraws it (\<^verbatim>\<open>unreserve\<close>).
\<close>

theorem apply_delegates_calls:
  "\<exists>calls. sent (apply_delegates T H number w s) = sent s @ calls \<and>
     list_all2 (application_call H)
       (if can_sign H None then local_applications H (storage_get [] (DelegatesApplys w) number) else [])
       calls"
  using apply_loop_sent [of T H "storage_get [] (DelegatesApplys w) number" w s]
  by (auto simp: apply_delegates_def local_applications_def storage_get_absent)

text \<open>
  A node only confirms a delegate whose service has answered. In a native build, each account
  for which \<^verbatim>\<open>apply_delegates\<close> sends an \<^verbatim>\<open>update_delegate_status\<close> has the service's answer in the
  node's local storage afterwards.
\<close>

theorem confirmed_delegate_has_info:
  assumes "offchain_host H" and "feature_std H"
    and "(f, UpdateDelegateStatus a) \<in> set (drop (length (sent s)) (sent (apply_delegates T H number w s)))"
  shows "\<exists>i. info_get H (client_key (display_account H (account_of (encode T a))))
               (db (apply_delegates T H number w s)) = Some (Some i)"
proof -
  have e: "apply_delegates T H number w s =
      apply_loop T H (get_accounts H) (storage_get [] (DelegatesApplys w) number) w s"
    using assms(3) by (auto simp: apply_delegates_def split: if_splits)
  show ?thesis
    using offchain_host.apply_loop_info [OF assms(1,2), of s "sent s" "[]"] assms(3)
    unfolding e has_info_def by simp
qed

definition demo_applied :: "(AccountId32, AccountId32 ledger) chain" where
  "demo_applied = run_extrinsics ref_trait [(Signed bob, RequestDelegate demo_name [49])] demo_start"

theorem confirmed_delegate_has_info_witness:
  "\<exists>i. info_get (ref_host True [alice, bob])
         (client_key (display_account (ref_host True [alice, bob]) (account_of (encode ref_trait bob))))
         (db (apply_delegates ref_trait (ref_host True [alice, bob]) 0 demo_applied demo_node)) = Some (Some i)"
  by (rule confirmed_delegate_has_info [OF host.offchain_host_axioms, of _ _ "Some [bob]"]) code_simp+

text \<open>
  The chain accepts a node's confirmations. Whoever of the node's accounts signs an
  \<^verbatim>\<open>update_delegate_status\<close> that \<^verbatim>\<open>apply_delegates\<close> sent is the account it names, so on every later
  chain state in which that account still has an entry the call succeeds and makes it ready.
\<close>

theorem confirmations_accepted:
  assumes "offchain_host H"
    and "(f, UpdateDelegateStatus a) \<in> set (drop (length (sent s)) (sent (apply_delegates T H number w s)))"
    and "p \<in> set (signer_keys H f)" and "contains_key (Delegates w') a"
  shows "fst (dispatch T (Signed (into_account H p)) (UpdateDelegateStatus a) w') = Inr () \<and>
         Delegates (snd (dispatch T (Signed (into_account H p)) (UpdateDelegateStatus a) w')) a = Some True"
proof -
  have "apply_delegates T H number w s =
      apply_loop T H (get_accounts H) (storage_get [] (DelegatesApplys w) number) w s"
    using assms(2) by (auto simp: apply_delegates_def split: if_splits)
  with assms(2) obtain name acc where "application_call H (name, acc) (f, UpdateDelegateStatus a)"
    using apply_loop_call by metis
  then have "f = Some (local_keys H a)" by auto
  with assms(3) offchain_host.keys_filter [OF assms(1)] have "into_account H p = a"
    by (auto simp: local_keys_def)
  with assms(4) show ?thesis by (simp add: update_delegate_status_def)
qed

theorem confirmations_accepted_witness:
  "fst (dispatch ref_trait (Signed bob) (UpdateDelegateStatus bob) demo_applied) = Inr () \<and>
   Delegates (snd (dispatch ref_trait (Signed bob) (UpdateDelegateStatus bob) demo_applied)) bob = Some True"
proof -
  let ?H = "ref_host True [alice, bob]"
  have "(Some [bob], UpdateDelegateStatus bob) \<in>
      set (drop (length (sent demo_node)) (sent (apply_delegates ref_trait ?H 0 demo_applied demo_node)))"
    by code_simp
  moreover have "bob \<in> set (signer_keys ?H (Some [bob]))" by code_simp
  moreover have "contains_key (Delegates demo_applied) bob" by code_simp
  moreover have "into_account ?H bob = bob" by code_simp
  ultimately show ?thesis
    using confirmations_accepted [OF host.offchain_host_axioms, of "Some [bob]" bob demo_node ref_trait
        True "[alice, bob]" 0 demo_applied bob demo_applied]
    by simp
qed

text \<open>
  C25: the delegate's signature reaches its tasks. If a request to be a delegate succeeds, then the node has heard one
  response, to the application of this account at the service's address, with status 200 and a delegate info in it; and a
  task sent for that account afterwards posts exactly one request, to an address that carries the
  hexadecimal form of the signature in this response, the errand's id and the description's cid.
\<close>

theorem signature_reaches_task:
  assumes "offchain_host H" and "quiet_db H"
    and "request_single_delegate H a addr s = (True, s1)"
    and "utf8_valid cid" and "utf8_valid eid" and "utf8_valid addr'"
  shows "\<exists>buf response resp i.
           prost_encode H \<lparr>layer1_account = display_account H a, nonce = []\<rparr> = Inr buf \<and>
           heard s1 = heard s @
             [(delegate_request_url (SERVICE_BASE_URL_PREFIX @ addr) (base64_encode H buf), response)] \<and>
           p_code response = 200 \<and> json_ResponseResult H (p_body response) = Inr resp \<and>
           json_DelegateInfo H resp = Inr i \<and>
           posted (snd (send_task_to_tea_network H a cid eid addr' s1)) =
             posted s1 @ [task_url (SERVICE_BASE_URL_PREFIX @ addr') (display_account H a) eid
                            (hex_encode H (d_sig i)) cid]"
proof -
  obtain buf resp i s0 where i: "encode_protobuf H \<lparr>layer1_account = display_account H a, nonce = []\<rparr> = Inr buf"
    "http_post H (delegate_request_url (SERVICE_BASE_URL_PREFIX @ addr) (base64_encode H buf)) s = (Inr resp, s0)"
    "json_DelegateInfo H resp = Inr i" "save_delegate_info H (display_account H a) i s0 = (Inr (), s1)"
    using offchain_host.request_single_delegate_ok [OF assms(1,3)] by blast
  from http_post_heard [OF i(2)] obtain response where response: "p_code response = 200"
    "json_ResponseResult H (p_body response) = Inr resp"
    "heard s0 = heard s @ [(delegate_request_url (SERVICE_BASE_URL_PREFIX @ addr) (base64_encode H buf), response)]" .
  have "heard s1 = heard s0" using save_delegate_info_frame(3) i(4) by (metis snd_conv)
  moreover have "prost_encode H \<lparr>layer1_account = display_account H a, nonce = []\<rparr> = Inr buf"
    using i(1) by (simp add: encode_protobuf_def split: sum.splits)
  moreover from offchain_host.save_delegate_info_ok [OF assms(1) i(4)] obtain d' where
    "load_delegate_info H (display_account H a) s1 = (Inr i, s1\<lparr>db := d'\<rparr>)"
    using load_delegate_info_free [OF assms(1,2), of a s1 i] by auto
  note send_task_internal_posts [OF this _ assms(4-6)]
  ultimately show ?thesis using response i(3) by (auto simp: send_task_to_tea_network_node)
qed

theorem signature_reaches_task_witness:
  "\<exists>s1 response resp i. request_single_delegate (ref_host True [bob]) bob [49] demo_node = (True, s1) \<and>
     response \<in> snd ` set (heard s1) \<and> json_ResponseResult (ref_host True [bob]) (p_body response) = Inr resp \<and>
     json_DelegateInfo (ref_host True [bob]) resp = Inr i \<and>
     posted (snd (send_task_to_tea_network (ref_host True [bob]) bob [5] [9] [49] s1)) =
       posted s1 @ [task_url (SERVICE_BASE_URL_PREFIX @ [49]) (display_account (ref_host True [bob]) bob) [9]
                      (hex_encode (ref_host True [bob]) (d_sig i)) [5]]"
proof -
  let ?H = "ref_host True [bob]"
  have "fst (request_single_delegate ?H bob [49] demo_node) = True" by code_simp
  then obtain s1 where p: "request_single_delegate ?H bob [49] demo_node = (True, s1)"
    by (metis prod.collapse)
  have u: "utf8_valid [5]" "utf8_valid [9]" "utf8_valid [49]" by code_simp+
  from signature_reaches_task [OF host.offchain_host_axioms qhost.quiet_db_axioms p u] obtain url response resp i where
    "heard s1 = heard demo_node @ [(url, response)]" "json_ResponseResult ?H (p_body response) = Inr resp"
    "json_DelegateInfo ?H resp = Inr i"
    "posted (snd (send_task_to_tea_network ?H bob [5] [9] [49] s1)) =
       posted s1 @ [task_url (SERVICE_BASE_URL_PREFIX @ [49]) (display_account ?H bob) [9] (hex_encode ?H (d_sig i)) [5]]"
    by blast
  with p show ?thesis by (intro exI [of _ s1] exI [of _ response] exI [of _ resp] exI [of _ i]) simp
qed

text \<open>
  A build without the feature \<^verbatim>\<open>std\<close> (the WebAssembly runtime) confirms without asking. There
  every local application of the block whose account encodes to 32 bytes is confirmed, and no
  request is posted.
\<close>

theorem wasm_build_confirms_unasked:
  assumes "\<not> feature_std H" and "can_sign H None"
    and "list_all (\<lambda>(name, acc). length (encode T acc) = 32) (storage_get [] (DelegatesApplys w) number)"
  shows "sent (apply_delegates T H number w s) =
           sent s @ map (\<lambda>(name, acc). (Some (local_keys H acc), UpdateDelegateStatus acc))
                      (local_applications H (storage_get [] (DelegatesApplys w) number)) \<and>
         posted (apply_delegates T H number w s) = posted s"
  using apply_loop_no_std [OF assms(1,3), of w s] assms(2)
  by (auto simp: apply_delegates_def storage_get_absent local_applications_def)

theorem wasm_build_confirms_unasked_witness:
  "sent (apply_delegates ref_trait (ref_host False [alice, bob]) 0 demo_applied demo_node) =
     [(Some [bob], UpdateDelegateStatus bob)] \<and>
   posted (apply_delegates ref_trait (ref_host False [alice, bob]) 0 demo_applied demo_node) = []"
proof -
  let ?H = "ref_host False [alice, bob]" and ?a = "storage_get [] (DelegatesApplys demo_applied) 0"
  have "\<not> feature_std ?H" "can_sign ?H None" "list_all (\<lambda>(name, acc). length (encode ref_trait acc) = 32) ?a"
    "map (\<lambda>(name, acc). (Some (local_keys ?H acc), UpdateDelegateStatus acc)) (local_applications ?H ?a) =
       [(Some [bob], UpdateDelegateStatus bob)]" "sent demo_node = []" "posted demo_node = []"
    by code_simp+
  with wasm_build_confirms_unasked [of ?H ref_trait demo_applied 0 demo_node] show ?thesis by simp
qed

end
