(* ===== verification/Worker_Tasks.thy ===== *)
theory Worker_Tasks
  imports Reference_Host
begin

text \<open>
  Tasks seen from the node: which calls \<^verbatim>\<open>send_errand_tasks\<close> sends, where it stops, and what becomes
  of the fee of a task that could not be sent.
\<close>

section \<open>Calls\<close>

text \<open>The call for a task: it opens the task's errand and is signed with the keys of the account that
  has the delegator's name.\<close>

definition task_call ::
    "('a, 'c) Trait \<Rightarrow> ('a, 'p, 'd, 'n) Host \<Rightarrow> ('a, 'c) chain \<Rightarrow> TaskInfo \<Rightarrow> 'p list option \<times> 'a Call \<Rightarrow>
     bool" where
  "task_call T H w item x \<longleftrightarrow>
     (\<exists>client d. decode T (t_client item) = Some client \<and> DelegateAccounts w (t_delegator item) = Some d \<and>
        local_keys H d \<noteq> [] \<and>
        x = (Some (local_keys H d), InitErrand client (t_errand_id item) (t_description_cid item)))"

lemma task_call_balances: "only_balances w w' \<Longrightarrow> task_call T H w' item x = task_call T H w item x"
  by (auto simp: only_balances_def task_call_def)

lemma signed_sent:
  "send_signed_transaction H filt call s = (result, s') \<Longrightarrow> sent s' = sent s @ [(filt, call)]"
  by (metis send_signed_transaction_frame(3) snd_conv)

lemma task_sent: "send_task_to_tea_network H a cid eid addr s = (b, s') \<Longrightarrow> sent s' = sent s"
  by (metis send_task_to_tea_network_sent snd_conv)

lemma open_errand_sent:
  "sent (snd (open_errand T H filt fee item w s)) =
     sent s @ (case decode T (t_client item) of
                 None \<Rightarrow> []
               | Some client \<Rightarrow> [(Some filt, InitErrand client (t_errand_id item) (t_description_cid item))])"
  by (auto simp: open_errand_def init_single_errand_task_def
      split: option.split prod.split bool.split dest: signed_sent)

lemma send_single_task_sent:
  assumes "contains_key (DelegateAccounts w) (t_delegator item)"
  shows "sent (snd (send_single_task T H (get_accounts H) item w s)) = sent s \<or>
         (\<exists>x. task_call T H w item x \<and> sent (snd (send_single_task T H (get_accounts H) item w s)) = sent s @ [x])"
proof (cases "decode T (t_client item)")
  case None
  then show ?thesis by (simp add: send_single_task_def)
next
  case client: (Some client)
  from assms obtain d where d: "DelegateAccounts w (t_delegator item) = Some d"
    by (rule contains_keyE)
  then have del: "storage_get (default_account T) (DelegateAccounts w) (t_delegator item) = d"
    by (simp add: storage_get_def)
  show ?thesis
  proof (cases "local_keys H d = []")
    case True
    with client del show ?thesis by (simp add: send_single_task_def Let_def)
  next
    case False
    let ?x = "(Some (local_keys H d), InitErrand client (t_errand_id item) (t_description_cid item))"
    have x: "task_call T H w item ?x" using client d False by (simp add: task_call_def)
    have op: "sent (snd (open_errand T H (local_keys H d) fee item w s')) = sent s' @ [?x]" for fee s'
      using client by (simp add: open_errand_sent)
    have "sent (snd (send_single_task T H (get_accounts H) item w s)) \<in> {sent s, sent s @ [?x]}"
      using client del False op
      by (auto simp: send_single_task_def Let_def account_to_bytes_def
          split: prod.split bool.split dest: task_sent)
    with x show ?thesis by auto
  qed
qed

lemma send_loop_sent:
  "\<exists>calls. sent (snd (send_loop T H (get_accounts H) items w s)) = sent s @ calls \<and>
     (\<forall>x \<in> set calls. \<exists>item \<in> set items. task_call T H w item x)"
proof (induction items arbitrary: w s)
  case (Cons item items)
  show ?case
  proof (cases "contains_key (DelegateAccounts w) (t_delegator item)")
    case True
    obtain w1 s1 where p: "send_single_task T H (get_accounts H) item w s = (w1, s1)" by fastforce
    with send_single_task_overlay [of w T H "get_accounts H" item s] have b: "only_balances w w1" by simp
    obtain calls where calls: "sent (snd (send_loop T H (get_accounts H) items w1 s1)) = sent s1 @ calls"
      "\<forall>x \<in> set calls. \<exists>item \<in> set items. task_call T H w item x"
      using Cons [of w1 s1] by (auto simp: task_call_balances [OF b])
    obtain c where c: "sent s1 = sent s @ c" "\<forall>x \<in> set c. task_call T H w item x"
      using send_single_task_sent [OF True, of T H s] p by fastforce
    show ?thesis
      using True p calls c by (intro exI [of _ "c @ calls"]) auto
  qed simp
qed simp

lemma send_errand_tasks_sent:
  "\<exists>calls. sent (snd (send_errand_tasks T H number w s)) = sent s @ calls \<and>
     (\<forall>x \<in> set calls. \<exists>item \<in> set (storage_get [] (Tasks w) number). task_call T H w item x)"
  using send_loop_sent [of T H "storage_get [] (Tasks w) number" w s]
  by (auto simp: send_errand_tasks_def)

section \<open>Where the loop stops\<close>

lemma send_loop_stops:
  assumes "\<not> contains_key (DelegateAccounts w) (t_delegator item)"
  shows "send_loop T H ids (before @ item # after) w s = send_loop T H ids before w s"
  using assms
proof (induction "before" arbitrary: w s)
  case (Cons i before)
  obtain w1 s1 where p: "send_single_task T H ids i w s = (w1, s1)" by fastforce
  with send_single_task_overlay [of w T H ids i s] have "DelegateAccounts w1 = DelegateAccounts w"
    by (auto simp: only_balances_def)
  with Cons p show ?case by simp
qed simp

section \<open>Properties\<close>

text \<open>
  C26: the calls of \<^verbatim>\<open>send_errand_tasks\<close>. Every call it sends opens the errand of a task of the
  block, with the task's client, errand id and description, and is signed with the node's keys of
  the account that has the name of the task's delegator.
\<close>

theorem send_errand_tasks_calls:
  "\<exists>calls. sent (snd (send_errand_tasks T H number w s)) = sent s @ calls \<and>
     (\<forall>x \<in> set calls. \<exists>item \<in> set (storage_get [] (Tasks w) number). task_call T H w item x)"
  by (rule send_errand_tasks_sent)

text \<open>A node that holds bob's key and has asked the service already.\<close>

definition demo_asked :: "(AccountId32, AccountId32, map_db, bytes) Node" where
  "demo_asked = snd (request_single_delegate (ref_host True [bob]) bob [49] demo_node)"

theorem send_errand_tasks_calls_witness:
  "\<exists>calls. sent (snd (send_errand_tasks ref_trait (ref_host True [bob]) 0 demo_begun demo_asked)) = calls \<and>
     calls \<noteq> [] \<and>
     (\<forall>x \<in> set calls. \<exists>item \<in> set (storage_get [] (Tasks demo_begun) 0).
        task_call ref_trait (ref_host True [bob]) demo_begun item x)"
proof -
  let ?H = "ref_host True [bob]"
  have n: "sent demo_asked = []"
    "length (sent (snd (send_errand_tasks ref_trait ?H 0 demo_begun demo_asked))) = 1" by code_simp+
  obtain calls where c: "sent (snd (send_errand_tasks ref_trait ?H 0 demo_begun demo_asked)) = sent demo_asked @ calls"
    and ok: "\<forall>x \<in> set calls. \<exists>item \<in> set (storage_get [] (Tasks demo_begun) 0). task_call ref_trait ?H demo_begun item x"
    using send_errand_tasks_calls [of ref_trait ?H 0 demo_begun demo_asked] by blast
  from c n have "sent (snd (send_errand_tasks ref_trait ?H 0 demo_begun demo_asked)) = calls" "calls \<noteq> []"
    by auto
  with ok show ?thesis by blast
qed

text \<open>
  C33: an unknown delegator ends the block. As soon as \<^verbatim>\<open>send_errand_tasks\<close> meets a task whose
  delegator's name is not registered (any more), it returns: none of the tasks entered after it is
  sent, whoever their delegators are. What it does is what it would do had the block only the tasks
  before it.
\<close>

theorem unknown_delegator_drops_rest:
  assumes "Tasks w number = Some (before @ item # after)"
    and "\<not> contains_key (DelegateAccounts w) (t_delegator item)"
  shows "send_errand_tasks T H number w s =
           (if can_sign H None then send_loop T H (get_accounts H) before w s else (w, s))"
  using assms by (simp add: send_errand_tasks_def contains_key_def storage_get_def send_loop_stops)

text \<open>The name of the first task's delegator is withdrawn, the second task is bob's.\<close>

definition demo_dropped :: "(AccountId32, AccountId32 ledger) chain" where
  "demo_dropped = run_extrinsics ref_trait
     [(Signed carol, RequestDelegate [99] [49]), (Signed carol, UpdateDelegateStatus carol),
      (Signed alice, BeginTask [99] [6] 40), (Signed alice, BeginTask demo_name demo_cid 40),
      (Signed carol, Unreserve [99] carol)] demo_ready"

theorem unknown_delegator_drops_rest_witness:
  "length (storage_get [] (Tasks demo_dropped) 0) = 2 \<and>
   send_errand_tasks ref_trait (ref_host True [bob]) 0 demo_dropped demo_asked = (demo_dropped, demo_asked)"
proof -
  let ?ts = "storage_get [] (Tasks demo_dropped) 0"
  have l: "length ?ts = 2" "Tasks demo_dropped 0 \<noteq> None" "can_sign (ref_host True [bob]) None"
    "\<not> contains_key (DelegateAccounts demo_dropped) (t_delegator (hd ?ts))" by code_simp+
  then have "Tasks demo_dropped 0 = Some ([] @ hd ?ts # tl ?ts)"
    by (cases ?ts) (auto simp: storage_get_def)
  from unknown_delegator_drops_rest [OF this l(4), of ref_trait "ref_host True [bob]" demo_asked] l
  show ?thesis by simp
qed

text \<open>
  The refund of a task that could not be sent goes to the wrong account. When sending a task
  to the service fails, the worker unreserves the fee on the delegator's account, not the client's:
  the client's reserve is what it was, no call is sent, and the change is only made in the worker's
  overlay of the chain state, in nothing but the balances.
\<close>

theorem failed_send_leaves_client_reserve:
  assumes "abc_trait T" and "decode T (t_client item) = Some client"
    and "DelegateAccounts w (t_delegator item) = Some d" and "d \<noteq> client"
    and "feature_std H" and "local_keys H d \<noteq> []" and "length (encode T d) = 32"
    and "send_task_to_tea_network H (account_of (encode T d)) (t_description_cid item) (t_errand_id item)
           (storage_get [] (DelegateNetAddress w) d) s = (False, s1)"
  shows "\<exists>cur. send_single_task T H (get_accounts H) item w s = (w\<lparr>currency := cur\<rparr>, s1) \<and>
           reserved_balance T cur client = reserved_balance T (currency w) client \<and> sent s1 = sent s"
proof -
  let ?fee = "unat (storage_get 0 (ClientTaskFee w) client)"
  obtain rest cur where u: "unreserve_funds T d ?fee (currency w) = (rest, cur)" by fastforce
  have "reserved_balance T cur client = reserved_balance T (currency w) client"
    using abc_trait.unreserve_law [OF assms(1) u] assms(4) by simp
  moreover have "send_single_task T H (get_accounts H) item w s = (w\<lparr>currency := cur\<rparr>, s1)"
    using assms u
    by (simp add: send_single_task_def storage_get_def account_to_bytes_def unreserve_overlay_def Let_def)
  moreover have "sent s1 = sent s"
    by (rule task_sent [OF assms(8)])
  ultimately show ?thesis by blast
qed

theorem failed_send_leaves_client_reserve_witness:
  "\<exists>cur. fst (send_single_task ref_trait (ref_host True [bob]) (get_accounts (ref_host True [bob]))
            (hd (storage_get [] (Tasks demo_begun) 0)) demo_begun demo_node) = demo_begun\<lparr>currency := cur\<rparr> \<and>
     reserved_balance ref_trait cur alice = 40"
proof -
  let ?H = "ref_host True [bob]" and ?i = "hd (storage_get [] (Tasks demo_begun) 0)"
  let ?r = "send_task_to_tea_network ?H (account_of (encode ref_trait bob)) (t_description_cid ?i) (t_errand_id ?i)
     (storage_get [] (DelegateNetAddress demo_begun) bob) demo_node"
  have h: "decode ref_trait (t_client ?i) = Some alice" "DelegateAccounts demo_begun (t_delegator ?i) = Some bob"
    "bob \<noteq> alice" "feature_std ?H" "local_keys ?H bob \<noteq> []" "length (encode ref_trait bob) = 32"
    "fst ?r = False" "reserved_balance ref_trait (currency demo_begun) alice = 40"
    by code_simp+
  then have "?r = (False, snd ?r)" by (metis prod.collapse)
  from failed_send_leaves_client_reserve [OF rt.abc_trait_axioms h(1-6) this] h(8)
  show ?thesis by auto
qed

end
