(* ===== verification/Worker_Chain.thy ===== *)
theory Worker_Chain
  imports Errand_Spec Worker_Results Worker_Tasks
begin

text \<open>
  The off-chain worker and the chain together: the calls a node hands to its signer become
  extrinsics, one for each key the signer uses, and the pallet runs them.
\<close>

section \<open>From calls to extrinsics\<close>

definition extrinsics_of ::
    "('a, 'p, 'd, 'n) Host \<Rightarrow> ('p list option \<times> 'a Call) list \<Rightarrow> ('a Origin \<times> 'a Call) list" where
  "extrinsics_of H calls =
     concat (map (\<lambda>(filt, call). map (\<lambda>p. (Signed (into_account H p), call)) (signer_keys H filt)) calls)"

text \<open>The votes of one account on one errand, in the order of a list of results.\<close>

definition votes_on :: "bool \<Rightarrow> 'a \<Rightarrow> Cid \<Rightarrow> Results \<Rightarrow> 'a errand_view \<Rightarrow> 'a errand_view" where
  "votes_on dev who cid results v =
     fold (\<lambda>(c, info) v. if c = cid then vote_spec dev who (r_result_cid info) v else v) results v"

lemma run_votes:
  assumes "approver T w who"
  shows "view (run_extrinsics T (map (\<lambda>(c, info). (Signed who, UpdateErrand c (r_result_cid info))) results) w) cid =
           votes_on (DevelopmentMode w) who cid results (view w cid)"
  using assms
proof (induction results arbitrary: w)
  case (Cons r results)
  obtain c info where r: "r = (c, info)" by fastforce
  let ?w = "snd (dispatch T (Signed who) (UpdateErrand c (r_result_cid info)) w)"
  have "approver T ?w who" unfolding approver_dispatch by (rule Cons.prems)
  moreover have "DevelopmentMode ?w = DevelopmentMode w" by (simp add: frame_simps)
  moreover have "view ?w cid = (if c = cid then vote_spec (DevelopmentMode w) who (r_result_cid info) (view w cid)
      else view w cid)"
    using update_errand_view [OF Cons.prems] by auto
  ultimately show ?case using Cons.IH [of ?w] r by (simp add: votes_on_def)
qed (simp add: votes_on_def)

lemma extrinsics_single_key:
  "signer_keys H f = [p] \<Longrightarrow>
   extrinsics_of H (map (\<lambda>(cid, info). (f, UpdateErrand cid (r_result_cid info))) rs) =
     map (\<lambda>(cid, info). (Signed (into_account H p), UpdateErrand cid (r_result_cid info))) rs"
  by (induction rs) (auto simp: extrinsics_of_def)

section \<open>Properties\<close>

text \<open>
  C9: reported results are votes. On a node with one key, whose account may update results, a
  successful report gives extrinsics that do to every errand on the chain exactly what the abstract
  specification says of that account's votes with the stored results, in their order; the reported
  list is empty afterwards.
\<close>

theorem reported_results_are_votes:
  assumes "offchain_host H" and "app_keys H = [p]" and "approver T w (into_account H p)"
    and "load_tasks_results_info H None s = (Inr (), s')"
  shows "view (run_extrinsics T (extrinsics_of H (drop (length (sent s)) (sent s'))) w) cid =
           votes_on (DevelopmentMode w) (into_account H p) cid (results_of H (db s)) (view w cid) \<and>
         results_of H (db s') = []"
proof -
  have "signer_keys H None = [p]" using assms(1,2) by (simp add: offchain_host.keys_all)
  moreover have sent: "sent s' = sent s @ map (\<lambda>(cid, info). (None, UpdateErrand cid (r_result_cid info)))
      (results_of H (db s))" and "results_of H (db s') = []"
    using offchain_host.load_tasks_results_info_outcome [OF assms(1,4)]
      offchain_host.results_of_set [OF assms(1)] offchain_host.results_of_lock [OF assms(1)] by auto
  ultimately show ?thesis
    using run_votes [OF assms(3), of "results_of H (db s)" cid] by (simp add: extrinsics_single_key)
qed

theorem reported_results_are_votes_witness:
  "\<exists>s'. load_tasks_results_info (ref_host True [alice]) None demo_fetched = (Inr (), s') \<and>
     view (run_extrinsics ref_trait (extrinsics_of (ref_host True [alice])
             (drop (length (sent demo_fetched)) (sent s'))) demo_inited) demo_cid = (InProgress, [alice])"
proof -
  let ?H = "ref_host True [alice]"
  have "fst (load_tasks_results_info ?H None demo_fetched) = Inr ()" by code_simp
  then obtain s' where p: "load_tasks_results_info ?H None demo_fetched = (Inr (), s')"
    by (metis prod.collapse)
  have k: "app_keys ?H = [alice]" "into_account ?H alice = alice" by (simp_all add: ref_host_def)
  have "approver ref_trait demo_inited (into_account ?H alice)" by code_simp
  from reported_results_are_votes [OF host.offchain_host_axioms k(1) this p, of demo_cid]
  have "view (run_extrinsics ref_trait (extrinsics_of ?H (drop (length (sent demo_fetched)) (sent s'))) demo_inited)
      demo_cid = votes_on (DevelopmentMode demo_inited) (into_account ?H alice) demo_cid
        (results_of ?H (db demo_fetched)) (view demo_inited demo_cid)" by simp
  moreover have "votes_on (DevelopmentMode demo_inited) (into_account ?H alice) demo_cid
        (results_of ?H (db demo_fetched)) (view demo_inited demo_cid) = (InProgress, [alice])" by code_simp
  ultimately show ?thesis using p by auto
qed

text \<open>
  C34: a later task disowns the earlier delegate. The chain keeps one delegate per client, so once
  a client has begun a task with one delegate, the calls that a node sends to open the errand of
  another task of that client with a different delegate are all rejected.
\<close>

theorem later_task_disowns_earlier_delegate:
  assumes "offchain_host H" and "begin_task T (Signed client) n cid fee w = (Inr (), w')"
    and "task_call T H w' item (f, InitErrand client eid cid')" and "p \<in> set (signer_keys H f)"
    and "DelegateAccounts w' (t_delegator item) \<noteq> DelegateAccounts w' n"
  shows "dispatch T (Signed (into_account H p)) (InitErrand client eid cid') w' =
           (Inl (Abc ClientDelegatorNotExist), w')"
proof -
  from assms(2) obtain d cur where ok: "task_startable T client n d cid fee w"
    "w' = task_begun T client n d cid fee cur w" by (auto simp: begin_task_ok_iff)
  then have d: "ClientDelegate w' client = Some d" "DelegateAccounts w' n = Some d"
    by (simp_all add: task_begun_def task_startable_def)
  from assms(3) obtain d' where d': "DelegateAccounts w' (t_delegator item) = Some d'"
    "f = Some (local_keys H d')" by (auto simp: task_call_def)
  with assms(4) offchain_host.keys_filter [OF assms(1)] have "into_account H p = d'"
    by (auto simp: local_keys_def)
  with d d' assms(5) show ?thesis by (simp add: init_errand_outcome)
qed

text \<open>Alice begins a task with bob, and in the same block one with carol.\<close>

definition demo_carol_ready :: "(AccountId32, AccountId32 ledger) chain" where
  "demo_carol_ready = run_extrinsics ref_trait
     [(Signed carol, RequestDelegate [99] [49]), (Signed carol, UpdateDelegateStatus carol)] demo_begun"

theorem later_task_disowns_earlier_delegate_witness:
  "\<exists>w'. begin_task ref_trait (Signed alice) [99] [6] 40 demo_carol_ready = (Inr (), w') \<and>
     fst (dispatch ref_trait (Signed bob) (InitErrand alice (t_errand_id (hd (storage_get [] (Tasks demo_begun) 0)))
        demo_cid) w') = Inl (Abc ClientDelegatorNotExist)"
proof -
  let ?H = "ref_host True [bob]" and ?i = "hd (storage_get [] (Tasks demo_begun) 0)"
  let ?r = "begin_task ref_trait (Signed alice) [99] [6] 40 demo_carol_ready"
  have "fst ?r = Inr ()" by code_simp
  then have r: "?r = (Inr (), snd ?r)" by (metis prod.collapse)
  have h: "decode ref_trait (t_client ?i) = Some alice" "DelegateAccounts (snd ?r) (t_delegator ?i) = Some bob"
    "local_keys ?H bob = [bob]" "t_description_cid ?i = demo_cid" "bob \<in> set (signer_keys ?H (Some [bob]))"
    "into_account ?H bob = bob" "DelegateAccounts (snd ?r) (t_delegator ?i) \<noteq> DelegateAccounts (snd ?r) [99]"
    by code_simp+
  then have "task_call ref_trait ?H (snd ?r) ?i (Some [bob], InitErrand alice (t_errand_id ?i) demo_cid)"
    by (simp add: task_call_def)
  from later_task_disowns_earlier_delegate [OF host.offchain_host_axioms r this h(5,7)] h(6) r
  show ?thesis by auto
qed

end
