(* ===== verification/Joint_System.thy ===== *)
theory Joint_System
  imports Worker_Results Worker_Delegates Worker_Tasks Errand_Spec
begin

text \<open>
  The chain and any number of nodes together. A node's off-chain worker runs on a state the chain has
  been in (nodes import blocks late), the calls it hands to its signer are included later, at most once for each
  key, in any order and between any other extrinsics, and the network a node sees changes at any time. An account that may
  update results may also sign a vote by hand. The system keeps three histories that no step reads: the states of the chain, the
  responses the nodes' workers heard, and the votes signed by hand.
\<close>

section \<open>The worker and the list of results\<close>

context offchain_host
begin

lemma results_of_client [simp]:
  "results_of H (lock_set H (client_lock_key c) b d) = results_of H d"
  "results_of H (info_set H (client_key c) i d) = results_of H d"
  by (simp_all add: results_of_def results_get_lock results_get_info client_tasks_keys_apart [THEN not_sym])

lemma delegate_info_results [simp]:
  "results_of H (db (snd (save_delegate_info H c i s))) = results_of H (db s)"
  "results_of H (db (snd (load_delegate_info H c s))) = results_of H (db s)"
  unfolding save_delegate_info_def load_delegate_info_node on_db_frame
  by (rule operate_db_keeps [where P = "\<lambda>d. results_of H d = results_of H (db s)"]; auto)+

lemma request_single_delegate_results [simp]:
  "results_of H (db (snd (request_single_delegate H a addr s))) = results_of H (db s)"
proof -
  have "results_of H (db (snd (parse_delegate_response H resp c s1))) = results_of H (db s1)" for resp c s1
    unfolding parse_delegate_response_def
    by (rule and_then_keeps [where P = "\<lambda>s'. results_of H (db s') = results_of H (db s1)"])
      (auto split: sum.split)
  then show ?thesis
    using http_post_frame(1) [of H]
    by (auto simp: request_single_delegate_def Let_def split: sum.split prod.split) (metis snd_conv)+
qed

lemma send_task_to_tea_network_results [simp]:
  "results_of H (db (snd (send_task_to_tea_network H a cid eid addr s))) = results_of H (db s)"
  unfolding send_task_to_tea_network_node send_task_internal_def
  by (intro and_then_keeps [where P = "\<lambda>s'. results_of H (db s') = results_of H (db s)"])
    (auto simp: http_post_frame)

lemma results_kept:
  "results_of H (db (snd m)) = results_of H (db s) \<Longrightarrow> m = (r, s') \<Longrightarrow> results_of H (db s') = results_of H (db s)"
  by simp

lemma apply_loop_results [simp]: "results_of H (db (apply_loop T H ids accs w s)) = results_of H (db s)"
proof (induction accs arbitrary: s)
  case (Cons acc accs)
  obtain r s1 where p: "apply_single_delegate T H (snd acc) w s = (r, s1)" by fastforce
  have "results_of H (db (snd (apply_single_delegate T H (snd acc) w s))) = results_of H (db s)"
    by (auto simp: apply_single_delegate_def Let_def split: sum.split prod.split bool.split
        dest: results_kept [OF request_single_delegate_results])
  with Cons p show ?case by (cases r) (simp_all add: Let_def)
qed simp

lemma send_loop_results [simp]: "results_of H (db (snd (send_loop T H ids items w s))) = results_of H (db s)"
proof (induction items arbitrary: w s)
  case (Cons item items)
  obtain w1 s1 where p: "send_single_task T H ids item w s = (w1, s1)" by fastforce
  have "results_of H (db (snd (send_single_task T H ids item w s))) = results_of H (db s)"
    by (auto simp: send_single_task_def Let_def open_errand_db split: option.split sum.split prod.split bool.split
        dest: results_kept [OF send_task_to_tea_network_results])
  with Cons p show ?case by simp
qed simp

text \<open>The log of responses only grows.\<close>

lemma apply_loop_hears: "prefix (heard s) (heard (apply_loop T H ids accs w s))"
proof (induction accs arbitrary: s)
  case (Cons acc accs)
  obtain r s1 where p: "apply_single_delegate T H (snd acc) w s = (r, s1)" by fastforce
  have "prefix (heard s) (heard (snd (apply_single_delegate T H (snd acc) w s)))"
    using request_single_delegate_hears [of s H]
    by (auto simp: apply_single_delegate_def Let_def split: sum.split prod.split bool.split) (metis snd_conv)+
  with p have "prefix (heard s) (heard s1)" by simp
  moreover have "prefix (heard s1) (heard (apply_loop T H ids accs w (snd (send_signed_transaction H f call s1))))" for f call
    using Cons [of "snd (send_signed_transaction H f call s1)"] by simp
  ultimately show ?case using Cons [of s] p by (cases r) (auto simp: Let_def intro: prefix_order.trans)
qed simp

lemma open_errand_heard: "heard (snd (open_errand T H filt fee item w s)) = heard s"
  by (auto simp: open_errand_def init_single_errand_task_def split: option.split prod.split bool.split)
    (metis send_signed_transaction_frame(4) snd_conv)+

lemma send_loop_hears: "prefix (heard s) (heard (snd (send_loop T H ids items w s)))"
proof (induction items arbitrary: w s)
  case (Cons item items)
  obtain w1 s1 where p: "send_single_task T H ids item w s = (w1, s1)" by fastforce
  have "prefix (heard s) (heard (snd (send_single_task T H ids item w s)))"
    using send_task_to_tea_network_hears [of s H]
    by (auto simp: send_single_task_def Let_def open_errand_heard split: option.split sum.split prod.split bool.split)
      (metis snd_conv)+
  with p have "prefix (heard s) (heard s1)" by simp
  with Cons [of s1 w1] p show ?case by (auto intro: prefix_order.trans)
qed simp

lemma update_loop_heard: "heard (snd (update_loop H sg rs s)) = heard s"
  by (induction rs arbitrary: s) (auto simp: update_single_errand_def)

lemma load_tasks_results_info_heard: "heard (snd (load_tasks_results_info H sg s)) = heard s"
  unfolding load_tasks_results_info_def
  by (intro and_then_keeps [where P = "\<lambda>s'. heard s' = heard s"])
    (auto simp: update_loop_heard split: option.split intro!: and_then_keeps [where P = "\<lambda>s'. heard s' = heard s"])

end

text \<open>The two parts of the worker that open errands and confirm delegates report no result.\<close>

definition reports :: "('p list option \<times> 'a Call) list \<Rightarrow> (Cid \<times> bytes) set" where
  "reports calls = {(cid, res). \<exists>f. (f, UpdateErrand cid res) \<in> set calls}"

lemma reports_append [simp]: "reports (xs @ ys) = reports xs \<union> reports ys"
  by (auto simp: reports_def)

lemma apply_delegates_reports: "reports (sent (apply_delegates T H number w s)) = reports (sent s)"
proof -
  have "reports calls = {}" if "list_all2 (application_call H) accs calls" for accs calls
    using that by (induction rule: list_all2_induct) (auto simp: reports_def)
  then show ?thesis
    using apply_loop_sent [of T H "storage_get [] (DelegatesApplys w) number" w s]
    by (auto simp: apply_delegates_def)
qed

lemma send_errand_tasks_reports: "reports (sent (snd (send_errand_tasks T H number w s))) = reports (sent s)"
proof -
  have "reports calls = {}" if "\<forall>x \<in> set calls. \<exists>item \<in> A. task_call T H w item x" for calls A
    using that by (fastforce simp: reports_def task_call_def)
  then show ?thesis
    using send_errand_tasks_sent [of T H number w s] by auto
qed

lemma only_balances_answers:
  "only_balances w w' \<Longrightarrow> answered T H w' X = answered T H w X"
  "only_balances w w' \<Longrightarrow> ProcessingErrands w' = ProcessingErrands w"
  "only_balances w w' \<Longrightarrow> allow_to_update_result accs w' = allow_to_update_result accs w"
  unfolding only_balances_def
  by (elim exE; simp add: answered_def fun_eq_iff allow_to_update_result_iff)+

text \<open>The call for a stored result.\<close>

definition report_of :: "Cid \<times> ErrandResultInfo \<Rightarrow> Cid \<times> bytes" where
  "report_of r = (fst r, r_result_cid (snd r))"

lemma reports_of_results: "reports (map (\<lambda>(cid, info). (f, UpdateErrand cid (r_result_cid info))) rs) = report_of ` set rs"
  by (force simp: reports_def report_of_def)

context offchain_host
begin

lemma load_tasks_results_info_reports:
  assumes "load_tasks_results_info H f s = (r, s')"
  shows "set (results_of H (db s')) \<subseteq> set (results_of H (db s))"
    and "reports (sent s') \<subseteq> reports (sent s) \<union> report_of ` set (results_of H (db s))"
  using load_tasks_results_info_outcome [OF assms] by (cases r; auto simp: reports_of_results)+

text \<open>What one run of the worker adds to the stored results and to the calls sent.\<close>

lemma offchain_worker_results:
  assumes "offchain_worker T H number w s = (w', s')"
  obtains new where "collected T H w (learned s s') (ProcessingErrands w) new"
    and "new \<noteq> [] \<Longrightarrow> allow_to_update_result (get_account_ids T H) w"
    and "set (results_of H (db s')) \<subseteq> set (results_of H (db s) @ new)"
    and "reports (sent s') \<subseteq> reports (sent s) \<union> report_of ` set (results_of H (db s) @ new)"
proof -
  let ?s1 = "apply_delegates T H number w s"
  obtain w2 s2 where p: "send_errand_tasks T H number w ?s1 = (w2, s2)" by fastforce
  have w2: "only_balances w w2" using send_errand_tasks_overlay [of w T H number ?s1] p by simp
  have s2: "reports (sent s2) = reports (sent s)"
    using p send_errand_tasks_reports [of T H number w ?s1] apply_delegates_reports [of T H number w s] by simp
  have "results_of H (db (snd (send_errand_tasks T H number w ?s1))) = results_of H (db s)"
    by (simp add: send_errand_tasks_def apply_delegates_def)
  with p have r2: "results_of H (db s2) = results_of H (db s)" by simp
  have "prefix (heard s) (heard ?s1)" by (simp add: apply_delegates_def apply_loop_hears)
  moreover have "prefix (heard ?s1) (heard (snd (send_errand_tasks T H number w ?s1)))"
    by (simp add: send_errand_tasks_def send_loop_hears)
  ultimately have h2: "prefix (heard s) (heard s2)" using p by (simp add: prefix_order.trans)
  let ?s3 = "query_errand_task_results T H number w2 s2"
  obtain new where new: "results_of H (db ?s3) = results_of H (db s2) @ new" "sent ?s3 = sent s2"
    "collected T H w2 (learned s2 ?s3) (ProcessingErrands w2) new"
    "new \<noteq> [] \<Longrightarrow> allow_to_update_result (get_account_ids T H) w2"
  proof (cases "?s3 = query_loop T H (ProcessingErrands w2) w2 s2 \<and> allow_to_update_result (get_account_ids T H) w2")
    case True
    with query_loop_results [of T "ProcessingErrands w2" w2 s2] that show thesis by fastforce
  next
    case False
    then have "?s3 = s2" unfolding query_errand_task_results_def Let_def by argo
    with that [of "[]"] show thesis by (simp add: collected_def)
  qed
  have h3: "prefix (heard s2) (heard ?s3)"
    by (simp add: query_errand_task_results_def Let_def query_loop_hears)
  have s': "s' = update_errand_task_results T H number w2 ?s3"
    using assms p by (auto simp: offchain_worker_def Let_def)
  then have "heard s' = heard ?s3" by (simp add: update_errand_task_results_def load_tasks_results_info_heard)
  with learned_trans(2) [OF h2 h3] have "learned s2 ?s3 \<subseteq> learned s s'" by (simp add: learned_def)
  with new(3) have c: "collected T H w2 (learned s s') (ProcessingErrands w2) new" by (rule collected_mono [rotated])
  show thesis
  proof (rule that [of new])
    show "collected T H w (learned s s') (ProcessingErrands w) new"
      and "new \<noteq> [] \<Longrightarrow> allow_to_update_result (get_account_ids T H) w"
      using c new(4) by (simp_all add: collected_def only_balances_answers [OF w2])
    show "set (results_of H (db s')) \<subseteq> set (results_of H (db s) @ new)"
      and "reports (sent s') \<subseteq> reports (sent s) \<union> report_of ` set (results_of H (db s) @ new)"
      using load_tasks_results_info_reports [of None ?s3, OF prod.collapse [symmetric]] new(1,2) s2 r2
      by (auto simp: s' update_errand_task_results_def)
  qed
qed

end

section \<open>The joint system\<close>

text \<open>
  The last three fields are the calls of a node's log that the chain has taken and the histories that only theorems read:
  the responses that the worker of a node heard while it ran on a state of the chain, and the votes signed by hand, each
  with the state it was dispatched on.
\<close>

record ('i, 'a, 'c, 'p, 'd, 'n) System =
  sys_chain :: "('a, 'c) chain"
  sys_past :: "('a, 'c) chain list"
  sys_nodes :: "'i \<Rightarrow> ('a, 'p, 'd, 'n) Node"
  sys_included :: "('i \<times> nat \<times> 'p) set"
  sys_heard :: "('i \<times> ('a, 'c) chain \<times> bytes \<times> HttpResponse) set"
  sys_hand :: "(('a, 'c) chain \<times> 'a \<times> Cid \<times> bytes) set"

definition advance ::
    "('a, 'c) chain \<Rightarrow> ('i, 'a, 'c, 'p, 'd, 'n) System \<Rightarrow> ('i, 'a, 'c, 'p, 'd, 'n) System" where
  "advance w S = S\<lparr>sys_chain := w, sys_past := w # sys_past S\<rparr>"

definition on_node ::
    "'i \<Rightarrow> ('a, 'p, 'd, 'n) Node \<Rightarrow> ('i, 'a, 'c, 'p, 'd, 'n) System \<Rightarrow> ('i, 'a, 'c, 'p, 'd, 'n) System" where
  "on_node i s S = S\<lparr>sys_nodes := (sys_nodes S)(i := s)\<rparr>"

text \<open>The worker of a node runs on a state of the chain.\<close>

definition work ::
    "('a, 'c) Trait \<Rightarrow> ('i \<Rightarrow> ('a, 'p, 'd, 'n) Host) \<Rightarrow> 'i \<Rightarrow> ('a, 'c) chain \<Rightarrow> ('i, 'a, 'c, 'p, 'd, 'n) System \<Rightarrow>
     ('i, 'a, 'c, 'p, 'd, 'n) System" where
  "work T Hs i w S =
     (let s' = snd (offchain_worker T (Hs i) (block_number w) w (sys_nodes S i))
      in (on_node i s' S)
           \<lparr>sys_heard := sys_heard S \<union> (\<lambda>(url, response). (i, w, url, response)) ` learned (sys_nodes S i) s'\<rparr>)"

text \<open>The call number \<open>n\<close> of a node's log, signed with a key of it, becomes part of the chain.\<close>

definition include_call ::
    "('a, 'c) Trait \<Rightarrow> ('i \<Rightarrow> ('a, 'p, 'd, 'n) Host) \<Rightarrow> 'i \<Rightarrow> nat \<Rightarrow> 'p \<Rightarrow> ('i, 'a, 'c, 'p, 'd, 'n) System \<Rightarrow>
     ('i, 'a, 'c, 'p, 'd, 'n) System" where
  "include_call T Hs i n p S =
     (advance (snd (dispatch T (Signed (into_account (Hs i) p)) (snd (sent (sys_nodes S i) ! n)) (sys_chain S))) S)
       \<lparr>sys_included := insert (i, n, p) (sys_included S)\<rparr>"

text \<open>A vote that an account with the right to vote signs itself.\<close>

definition by_hand :: "('a, 'c) Trait \<Rightarrow> ('a, 'c) chain \<Rightarrow> 'a Origin \<Rightarrow> 'a Call \<Rightarrow> bool" where
  "by_hand T w origin call \<longleftrightarrow>
     (\<exists>a cid res. origin = Signed a \<and> approver T w a \<and> call = UpdateErrand cid res)"

definition hand_vote ::
    "('a, 'c) Trait \<Rightarrow> 'a \<Rightarrow> Cid \<Rightarrow> bytes \<Rightarrow> ('i, 'a, 'c, 'p, 'd, 'n) System \<Rightarrow> ('i, 'a, 'c, 'p, 'd, 'n) System" where
  "hand_vote T a cid res S =
     (advance (snd (dispatch T (Signed a) (UpdateErrand cid res) (sys_chain S))) S)
       \<lparr>sys_hand := insert (sys_chain S, a, cid, res) (sys_hand S)\<rparr>"

text \<open>The steps without a vote signed by hand, and all steps.\<close>

inductive node_step ::
    "('a, 'c) Trait \<Rightarrow> ('i \<Rightarrow> ('a, 'p, 'd, 'n) Host) \<Rightarrow> ('i, 'a, 'c, 'p, 'd, 'n) System \<Rightarrow>
     ('i, 'a, 'c, 'p, 'd, 'n) System \<Rightarrow> bool"
  for T Hs where
  worker: "w \<in> set (sys_past S) \<Longrightarrow> node_step T Hs S (work T Hs i w S)"
| network: "node_step T Hs S (on_node i ((sys_nodes S i)\<lparr>net := n\<rparr>) S)"
| included: "n < length (sent (sys_nodes S i)) \<Longrightarrow> p \<in> set (signer_keys (Hs i) (fst (sent (sys_nodes S i) ! n))) \<Longrightarrow>
     (i, n, p) \<notin> sys_included S \<Longrightarrow> node_step T Hs S (include_call T Hs i n p S)"
| other: "\<not> by_hand T (sys_chain S) origin call \<Longrightarrow>
     node_step T Hs S (advance (snd (dispatch T origin call (sys_chain S))) S)"
| block: "node_step T Hs S (advance (new_block (sys_chain S)) S)"
| pallets: "node_step T Hs S
     (advance ((sys_chain S)\<lparr>extrinsic_index := ix, random_seed := seed, currency := cur\<rparr>) S)"

inductive joint_step ::
    "('a, 'c) Trait \<Rightarrow> ('i \<Rightarrow> ('a, 'p, 'd, 'n) Host) \<Rightarrow> ('i, 'a, 'c, 'p, 'd, 'n) System \<Rightarrow>
     ('i, 'a, 'c, 'p, 'd, 'n) System \<Rightarrow> bool"
  for T Hs where
  automatic: "node_step T Hs S S' \<Longrightarrow> joint_step T Hs S S'"
| hand: "approver T (sys_chain S) a \<Longrightarrow> joint_step T Hs S (hand_vote T a cid res S)"

definition fresh_node :: "('a, 'p, 'd, 'n) Host \<Rightarrow> ('a, 'p, 'd, 'n) Node \<Rightarrow> bool" where
  "fresh_node H s \<longleftrightarrow> results_of H (db s) = [] \<and> sent s = [] \<and>
     lock_free (lock_get H LOCAL_STORAGE_TASKS_RESULTS_LOCK (db s))"

inductive joint_reachable ::
    "('a, 'c) Trait \<Rightarrow> ('i \<Rightarrow> ('a, 'p, 'd, 'n) Host) \<Rightarrow> AbcConfig \<Rightarrow> ('i, 'a, 'c, 'p, 'd, 'n) System \<Rightarrow> bool"
  for T Hs config where
  start: "\<forall>i. fresh_node (Hs i) (nodes i) \<Longrightarrow>
     joint_reachable T Hs config
       \<lparr>sys_chain = genesis_build config cur, sys_past = [genesis_build config cur], sys_nodes = nodes,
        sys_included = {},
      sys_heard = {}, sys_hand = {}\<rparr>"
| step: "joint_reachable T Hs config S \<Longrightarrow> joint_step T Hs S S' \<Longrightarrow> joint_reachable T Hs config S'"

inductive_cases joint_stepE: "joint_step T Hs S S'"

lemmas joint_reachable_node = joint_reachable.step [OF _ joint_step.automatic]

text \<open>What each change of the system leaves alone.\<close>

lemma system_simps [simp]:
  "sys_chain (advance w S) = w" "sys_past (advance w S) = w # sys_past S" "sys_nodes (advance w S) = sys_nodes S"
  "sys_included (advance w S) = sys_included S" "sys_heard (advance w S) = sys_heard S" "sys_hand (advance w S) = sys_hand S"
  "sys_chain (on_node i s S) = sys_chain S" "sys_past (on_node i s S) = sys_past S"
  "sys_nodes (on_node i s S) = (sys_nodes S)(i := s)" "sys_included (on_node i s S) = sys_included S"
  "sys_heard (on_node i s S) = sys_heard S" "sys_hand (on_node i s S) = sys_hand S"
  by (simp_all add: advance_def on_node_def)

lemma work_simps [simp]:
  "sys_chain (work T Hs i v S) = sys_chain S" "sys_past (work T Hs i v S) = sys_past S"
  "sys_nodes (work T Hs i v S) =
     (sys_nodes S)(i := snd (offchain_worker T (Hs i) (block_number v) v (sys_nodes S i)))"
  "sys_included (work T Hs i v S) = sys_included S" "sys_hand (work T Hs i v S) = sys_hand S"
  by (simp_all add: work_def Let_def)

lemma extrinsic_simps [simp]:
  "sys_chain (include_call T Hs i n p S) =
     snd (dispatch T (Signed (into_account (Hs i) p)) (snd (sent (sys_nodes S i) ! n)) (sys_chain S))"
  "sys_past (include_call T Hs i n p S) = sys_chain (include_call T Hs i n p S) # sys_past S"
  "sys_nodes (include_call T Hs i n p S) = sys_nodes S" "sys_heard (include_call T Hs i n p S) = sys_heard S"
  "sys_included (include_call T Hs i n p S) = insert (i, n, p) (sys_included S)"
  "sys_hand (include_call T Hs i n p S) = sys_hand S"
  "sys_chain (hand_vote T a cid res S) = snd (dispatch T (Signed a) (UpdateErrand cid res) (sys_chain S))"
  "sys_past (hand_vote T a cid res S) = sys_chain (hand_vote T a cid res S) # sys_past S"
  "sys_nodes (hand_vote T a cid res S) = sys_nodes S" "sys_heard (hand_vote T a cid res S) = sys_heard S"
  "sys_included (hand_vote T a cid res S) = sys_included S"
  "sys_hand (hand_vote T a cid res S) = insert (sys_chain S, a, cid, res) (sys_hand S)"
  by (simp_all add: include_call_def hand_vote_def)

section \<open>Provenance of results\<close>

text \<open>What the worker of a node heard while it ran on a state of the chain.\<close>

definition heard_by ::
    "('i, 'a, 'c, 'p, 'd, 'n) System \<Rightarrow> 'i \<Rightarrow> ('a, 'c) chain \<Rightarrow> (bytes \<times> HttpResponse) set" where
  "heard_by S i w = {(url, response). (i, w, url, response) \<in> sys_heard S}"

text \<open>A result for a description is vouched for: on some state the chain has been in, the worker of a node with the right to
  update results heard it from the service of the errand in progress.\<close>

definition vouched ::
    "('a, 'c) Trait \<Rightarrow> ('i \<Rightarrow> ('a, 'p, 'd, 'n) Host) \<Rightarrow> ('i, 'a, 'c, 'p, 'd, 'n) System \<Rightarrow> Cid \<times> bytes \<Rightarrow> bool" where
  "vouched T Hs S x \<longleftrightarrow>
     (\<exists>i w item info. w \<in> set (sys_past S) \<and> item \<in> set (ProcessingErrands w) \<and>
        allow_to_update_result (get_account_ids T (Hs i)) w \<and>
        answered T (Hs i) w (heard_by S i w) item (fst x, info) \<and> snd x = r_result_cid info)"

text \<open>An account that may update results has voted for it by hand.\<close>

definition hand_signed :: "('a, 'c) Trait \<Rightarrow> ('i, 'a, 'c, 'p, 'd, 'n) System \<Rightarrow> Cid \<times> bytes \<Rightarrow> bool" where
  "hand_signed T S x \<longleftrightarrow>
     (\<exists>w a. (w, a, fst x, snd x) \<in> sys_hand S \<and> w \<in> set (sys_past S) \<and> approver T w a)"

text \<open>The histories grow.\<close>

definition extends ::
    "('i, 'a, 'c, 'p, 'd, 'n) System \<Rightarrow> ('i, 'a, 'c, 'p, 'd, 'n) System \<Rightarrow> bool" where
  "extends S S' \<longleftrightarrow>
     set (sys_past S) \<subseteq> set (sys_past S') \<and> sys_heard S \<subseteq> sys_heard S' \<and> sys_hand S \<subseteq> sys_hand S'"

lemma extends_simps [simp]:
  "extends S (advance w S)" "extends S (on_node i s S)" "extends S (work T Hs i w S)"
  "extends S (include_call T Hs i n p S)" "extends S (hand_vote T a cid res S)"
  by (auto simp: extends_def) (auto simp: work_def Let_def)

lemma vouched_mono: "vouched T Hs S x \<Longrightarrow> extends S S' \<Longrightarrow> vouched T Hs S' x"
proof -
  assume v: "vouched T Hs S x" and e: "extends S S'"
  have "heard_by S i w \<subseteq> heard_by S' i w" for i w using e by (auto simp: extends_def heard_by_def)
  with v e show "vouched T Hs S' x" unfolding vouched_def extends_def by (meson answered_mono subsetD)
qed

lemma hand_signed_mono: "hand_signed T S x \<Longrightarrow> extends S S' \<Longrightarrow> hand_signed T S' x"
  unfolding hand_signed_def extends_def by blast

lemma work_heard: "learned (sys_nodes S i) (sys_nodes (work T Hs i w S) i) \<subseteq> heard_by (work T Hs i w S) i w"
  by (auto simp: work_def Let_def heard_by_def)

lemma collected_vouched:
  assumes "collected T (Hs i) w X (ProcessingErrands w) new" and "r \<in> set new"
    and "allow_to_update_result (get_account_ids T (Hs i)) w" and "w \<in> set (sys_past S)" and "X \<subseteq> heard_by S i w"
  shows "vouched T Hs S (report_of r)"
  using assms answered_mono [OF assms(5)] unfolding collected_def vouched_def report_of_def
  by (metis fst_conv prod.collapse snd_conv)

text \<open>A call finishes an errand only as the vote of an account that may vote.\<close>

lemma dispatch_finishes:
  assumes "fst (view (snd (dispatch T origin call w)) cid) = Finished res"
  shows "fst (view w cid) = Finished res \<or>
         (\<exists>a. origin = Signed a \<and> approver T w a \<and> call = UpdateErrand cid res)"
proof (cases "\<exists>res'. call = UpdateErrand cid res'")
  case True
  then obtain res' where call: "call = UpdateErrand cid res'" by blast
  show ?thesis
  proof (cases "\<exists>a. origin = Signed a \<and> approver T w a")
    case True
    then obtain a where a: "origin = Signed a" "approver T w a" by blast
    with assms call update_errand_view(1) [OF a(2), of cid res'] have
      "fst (vote_spec (DevelopmentMode w) a res' (view w cid)) = Finished res" by simp
    then have "fst (view w cid) = Finished res \<or> res' = res"
      by (cases "(DevelopmentMode w, a, res', view w cid)" rule: vote_spec.cases) (auto split: if_splits)
    with a call show ?thesis by blast
  next
    case False
    with update_errand_not_approver [of origin T w cid res'] assms call show ?thesis by simp
  qed
next
  case not_upd: False
  show ?thesis
  proof (cases "\<exists>client eid. call = InitErrand client eid cid")
    case True
    then obtain client eid where "call = InitErrand client eid cid" by blast
    with assms show ?thesis
      by (cases rule: init_errand_cases [of origin w client T eid cid]) (auto simp: view_def errand_inited_def)
  next
    case False
    with not_upd assms show ?thesis by (simp add: dispatch_view_other)
  qed
qed

definition provenance ::
    "('a, 'c) Trait \<Rightarrow> ('i \<Rightarrow> ('a, 'p, 'd, 'n) Host) \<Rightarrow> AbcConfig \<Rightarrow> ('i, 'a, 'c, 'p, 'd, 'n) System \<Rightarrow> bool" where
  "provenance T Hs config S \<longleftrightarrow>
     sys_chain S \<in> set (sys_past S) \<and> (\<forall>w \<in> set (sys_past S). reachable T config w) \<and>
     (\<forall>i. \<forall>r \<in> set (results_of (Hs i) (db (sys_nodes S i))). vouched T Hs S (report_of r)) \<and>
     (\<forall>i. \<forall>x \<in> reports (sent (sys_nodes S i)). vouched T Hs S x) \<and>
     (\<forall>cid res. fst (view (sys_chain S) cid) = Finished res \<longrightarrow>
        vouched T Hs S (cid, res) \<or> hand_signed T S (cid, res))"

locale joint_system =
  fixes T :: "('a, 'c) Trait" and Hs :: "'i \<Rightarrow> ('a, 'p, 'd, 'n) Host" and config :: AbcConfig
  assumes hosts: "offchain_host (Hs i)"
begin

text \<open>A change of one node, and a change of the chain.\<close>

lemma provenance_node:
  assumes "provenance T Hs config S" and "extends S S'"
    and "sys_chain S' = sys_chain S" and "sys_past S' = sys_past S" and "sys_nodes S' = (sys_nodes S)(i := s)"
    and "\<And>r. r \<in> set (results_of (Hs i) (db s)) \<Longrightarrow> vouched T Hs S' (report_of r)"
    and "\<And>x. x \<in> reports (sent s) \<Longrightarrow> vouched T Hs S' x"
  shows "provenance T Hs config S'"
  using assms vouched_mono [OF _ assms(2)] hand_signed_mono [OF _ assms(2)] by (auto simp: provenance_def) blast

lemma provenance_worker:
  assumes "provenance T Hs config S" and "w \<in> set (sys_past S)"
  shows "provenance T Hs config (work T Hs i w S)"
proof -
  let ?S = "work T Hs i w S" and ?s = "sys_nodes S i"
  obtain w' s' where p: "offchain_worker T (Hs i) (block_number w) w ?s = (w', s')" by fastforce
  then have s': "sys_nodes ?S = (sys_nodes S)(i := s')" by simp
  obtain new where new: "collected T (Hs i) w (learned ?s s') (ProcessingErrands w) new"
    "new \<noteq> [] \<Longrightarrow> allow_to_update_result (get_account_ids T (Hs i)) w"
    "set (results_of (Hs i) (db s')) \<subseteq> set (results_of (Hs i) (db ?s) @ new)"
    "reports (sent s') \<subseteq> reports (sent ?s) \<union> report_of ` set (results_of (Hs i) (db ?s) @ new)"
    using offchain_host.offchain_worker_results [OF hosts p] by blast
  have old: "vouched T Hs S x \<Longrightarrow> vouched T Hs ?S x" for x by (erule vouched_mono) simp
  have "learned ?s s' \<subseteq> heard_by ?S i w" using work_heard [of S i T Hs w] p by simp
  then have "vouched T Hs ?S (report_of r)" if "r \<in> set new" for r
    using collected_vouched [of T Hs, OF new(1) that new(2), of ?S] assms(2) that by (cases new) simp_all
  moreover have "vouched T Hs ?S (report_of r)" if "r \<in> set (results_of (Hs i) (db ?s))" for r
    using assms(1) that old by (auto simp: provenance_def)
  ultimately have v: "vouched T Hs ?S (report_of r)" if "r \<in> set (results_of (Hs i) (db ?s) @ new)" for r
    using that by (cases r) auto
  show ?thesis
  proof (rule provenance_node [OF assms(1) _ _ _ s'])
    show "vouched T Hs ?S (report_of r)" if "r \<in> set (results_of (Hs i) (db s'))" for r
      using new(3) that v by blast
    show "vouched T Hs ?S x" if "x \<in> reports (sent s')" for x
      using new(4) that v old assms(1) unfolding provenance_def by blast
  qed simp_all
qed

lemma provenance_chain:
  assumes "provenance T Hs config S" and "extends S S'" and "step T (sys_chain S) (sys_chain S')"
    and "sys_past S' = sys_chain S' # sys_past S" and "sys_nodes S' = sys_nodes S"
    and "\<And>cid res. fst (view (sys_chain S') cid) = Finished res \<Longrightarrow>
           fst (view (sys_chain S) cid) = Finished res \<or> vouched T Hs S (cid, res) \<or> hand_signed T S' (cid, res)"
  shows "provenance T Hs config S'"
proof -
  note mono = vouched_mono [OF _ assms(2)] hand_signed_mono [OF _ assms(2)]
  from assms(1,3) have "reachable T config (sys_chain S')" by (auto simp: provenance_def intro: reachable.step)
  moreover have "vouched T Hs S' (cid, res) \<or> hand_signed T S' (cid, res)"
    if "fst (view (sys_chain S') cid) = Finished res" for cid res
    using assms(1) assms(6) [OF that] mono unfolding provenance_def by blast
  ultimately show ?thesis using assms(1,4,5) mono unfolding provenance_def by simp
qed

text \<open>A call that a node has sent votes only for a result that is vouched for.\<close>

lemma sent_vouched:
  assumes "provenance T Hs config S" and "n < length (sent (sys_nodes S i))"
    and "snd (sent (sys_nodes S i) ! n) = UpdateErrand cid res"
  shows "vouched T Hs S (cid, res)"
proof -
  from assms(2,3) have "(cid, res) \<in> reports (sent (sys_nodes S i))"
    unfolding reports_def by simp (metis nth_mem prod.collapse)
  with assms(1) show ?thesis by (auto simp: provenance_def)
qed

lemma provenance_node_step: "node_step T Hs S S' \<Longrightarrow> provenance T Hs config S \<Longrightarrow> provenance T Hs config S'"
proof (induction rule: node_step.induct)
  case (worker w S i)
  then show ?case by (simp add: provenance_worker)
next
  case (network S i n)
  let ?s = "(sys_nodes S i)\<lparr>net := n\<rparr>"
  have mono: "vouched T Hs S x \<Longrightarrow> vouched T Hs (on_node i ?s S) x" for x by (erule vouched_mono) simp
  show ?case
  proof (rule provenance_node [OF network, of _ i ?s])
    show "vouched T Hs (on_node i ?s S) (report_of r)" if "r \<in> set (results_of (Hs i) (db ?s))" for r
      using network that by (intro mono) (auto simp: provenance_def)
    show "vouched T Hs (on_node i ?s S) x" if "x \<in> reports (sent ?s)" for x
      using network that by (intro mono) (auto simp: provenance_def)
  qed simp_all
next
  case (included n S i p)
  then show ?case
    by (intro provenance_chain [OF included(4)]) (auto intro: step.extrinsic dest!: dispatch_finishes sent_vouched)
next
  case (other S origin call)
  then show ?case
    unfolding by_hand_def
    by (intro provenance_chain [OF other(2)]) (auto intro: step.extrinsic dest!: dispatch_finishes)
next
  case (block S)
  then show ?case
    by (intro provenance_chain [OF block]) (simp_all add: step.new_block, simp add: view_def new_block_def)
next
  case (pallets S ix seed cur)
  then show ?case
    by (intro provenance_chain [OF pallets]) (auto intro: step.environment simp: view_def)
qed

lemma provenance_step: "joint_step T Hs S S' \<Longrightarrow> provenance T Hs config S \<Longrightarrow> provenance T Hs config S'"
proof (induction rule: joint_step.induct)
  case (automatic S S')
  then show ?case by (rule provenance_node_step)
next
  case (hand S a cid res)
  have "sys_chain S \<in> set (sys_past S)" using hand(2) by (simp add: provenance_def)
  with hand(1) have "hand_signed T (hand_vote T a cid res S) (cid, res)" by (auto simp: hand_signed_def)
  then show ?case
    by (intro provenance_chain [OF hand(2)]) (auto intro: step.extrinsic simp del: dispatch.simps dest!: dispatch_finishes)
qed

lemma provenance_reachable: "joint_reachable T Hs config S \<Longrightarrow> provenance T Hs config S"
proof (induction rule: joint_reachable.induct)
  case (start nodes cur)
  then show ?case
    by (auto simp: provenance_def fresh_node_def reports_def view_def genesis_build_def intro: reachable.genesis
        reachable.genesis [unfolded genesis_build_def])
qed (rule provenance_step)

end

interpretation ref_joint: joint_system ref_trait "\<lambda>i. ref_host True (keys i)" config for keys config
  by unfold_locales

section \<open>Properties\<close>

text \<open>
  C10: every settled result was answered by the service or signed by hand. However any number of nodes and the chain
  interleave, the result of every finished errand is one that the worker of some node, which had an account that may
  update results, heard while it ran on a state the chain has been in and in which the errand was in progress: in a response
  with status 200, to a query for the errand's id at the address on record for the delegate of the errand's client,
  that says completed. Otherwise an account that may update results has signed a vote for this very result by hand.
\<close>

theorem settled_results_answered:
  assumes "\<forall>i. offchain_host (Hs i)" and "joint_reachable T Hs config S"
    and "view (sys_chain S) cid = (Finished res, vs)"
  shows "(\<exists>i w info. w \<in> set (sys_past S) \<and> reachable T config w \<and> fst (view w cid) = InProgress \<and>
            allow_to_update_result (get_account_ids T (Hs i)) w \<and>
            answered T (Hs i) w (heard_by S i w) cid (cid, info) \<and> res = r_result_cid info) \<or>
         (\<exists>w a. (w, a, cid, res) \<in> sys_hand S \<and> reachable T config w \<and> approver T w a)"
proof -
  have "joint_system Hs" using assms(1) by (simp add: joint_system_def)
  from joint_system.provenance_reachable [OF this assms(2)]
  have past: "\<forall>w \<in> set (sys_past S). reachable T config w"
    and "fst (view (sys_chain S) cid) = Finished res \<longrightarrow> vouched T Hs S (cid, res) \<or> hand_signed T S (cid, res)"
    unfolding provenance_def by blast+
  with assms(3) have "vouched T Hs S (cid, res) \<or> hand_signed T S (cid, res)" by simp
  then show ?thesis
  proof
    assume "vouched T Hs S (cid, res)"
    then obtain i w item info where w: "w \<in> set (sys_past S)" "reachable T config w"
      and item: "item \<in> set (ProcessingErrands w)" "answered T (Hs i) w (heard_by S i w) item (cid, info)"
      and h: "allow_to_update_result (get_account_ids T (Hs i)) w" "res = r_result_cid info"
      using past unfolding vouched_def by auto
    have "errand_inv T w" using errand.inv_reachable [OF w(2)] .
    with item have "item = cid" and "fst (view w cid) = InProgress"
      by (auto simp: errand_inv_def answered_def view_def)
    with w item h show ?thesis by blast
  next
    assume "hand_signed T S (cid, res)"
    with past show ?thesis by (auto simp: hand_signed_def)
  qed
qed

text \<open>Two nodes, of alice and of carol, query and report the result of the errand that bob opened.\<close>

definition demo_hosts :: "bool \<Rightarrow> (AccountId32, AccountId32, map_db, bytes) Host" where
  "demo_hosts i = ref_host True [if i then alice else carol]"

type_synonym demo_system = "(bool, AccountId32, AccountId32 ledger, AccountId32, map_db, bytes) System"

fun run_others :: "(AccountId32 Origin \<times> AccountId32 Call) list \<Rightarrow> demo_system \<Rightarrow> demo_system" where
  "run_others [] S = S"
| "run_others ((origin, call) # xs) S = run_others xs (advance (snd (dispatch ref_trait origin call (sys_chain S))) S)"

definition run_worker :: "bool \<Rightarrow> demo_system \<Rightarrow> demo_system" where
  "run_worker i S = work ref_trait demo_hosts i (sys_chain S) S"

definition demo_opened :: demo_system where
  "demo_opened = run_others
     [(Signed bob, RequestDelegate demo_name [49]), (Signed bob, UpdateDelegateStatus bob),
      (Signed alice, BeginTask demo_name demo_cid 40), (Signed bob, InitErrand alice [9] demo_cid)]
     \<lparr>sys_chain = demo_start, sys_past = [demo_start], sys_nodes = (\<lambda>_. demo_node),
      sys_included = {},
      sys_heard = {}, sys_hand = {}\<rparr>"

definition demo_reported :: demo_system where
  "demo_reported = run_worker False (run_worker True demo_opened)"

definition demo_settled :: demo_system where
  "demo_settled =
     include_call ref_trait demo_hosts False 0 carol (include_call ref_trait demo_hosts True 0 alice demo_reported)"

lemma run_others_reachable:
  "joint_reachable ref_trait Hs config S \<Longrightarrow> list_all (\<lambda>(_, call). \<forall>cid res. call \<noteq> UpdateErrand cid res) xs \<Longrightarrow>
   joint_reachable ref_trait Hs config (run_others xs S)"
proof (induction xs S rule: run_others.induct)
  case (2 origin call xs S)
  then have "\<not> by_hand ref_trait (sys_chain S) origin call" by (auto simp: by_hand_def)
  from 2 joint_reachable_node [OF 2(2) node_step.other [OF this]] show ?case by simp
qed simp

lemma run_others_simps [simp]:
  "sys_chain (run_others xs S) = run_extrinsics ref_trait xs (sys_chain S)" "sys_nodes (run_others xs S) = sys_nodes S"
  "sys_included (run_others xs S) = sys_included S" "sys_hand (run_others xs S) = sys_hand S"
  by (induction xs S rule: run_others.induct) (simp_all add: advance_def)

lemma run_others_past: "sys_chain S \<in> set (sys_past S) \<Longrightarrow> sys_chain (run_others xs S) \<in> set (sys_past (run_others xs S))"
  by (induction xs S rule: run_others.induct) (simp_all add: advance_def)

lemma run_worker_reachable:
  assumes "joint_reachable ref_trait demo_hosts config S" and "sys_chain S \<in> set (sys_past S)"
  shows "joint_reachable ref_trait demo_hosts config (run_worker i S)"
    and "sys_chain (run_worker i S) \<in> set (sys_past (run_worker i S))"
  using assms joint_reachable_node [OF assms(1) node_step.worker [OF assms(2)]]
  by (simp_all add: run_worker_def on_node_def)

lemma demo_opened_reachable: "joint_reachable ref_trait demo_hosts prod_config demo_opened"
proof -
  have "fresh_node (demo_hosts i) demo_node" for i by (cases i) code_simp+
  then have "joint_reachable ref_trait demo_hosts prod_config
      \<lparr>sys_chain = demo_start, sys_past = [demo_start], sys_nodes = (\<lambda>_. demo_node), sys_included = {},
      sys_heard = {}, sys_hand = {}\<rparr>"
    unfolding demo_start_def by (intro joint_reachable.start) blast
  then show ?thesis unfolding demo_opened_def by (rule run_others_reachable) simp
qed

lemma demo_reported_reachable: "joint_reachable ref_trait demo_hosts prod_config demo_reported"
proof -
  have "sys_chain demo_opened \<in> set (sys_past demo_opened)"
    unfolding demo_opened_def by (rule run_others_past) simp
  with demo_opened_reachable show ?thesis unfolding demo_reported_def by (intro run_worker_reachable)
qed

text \<open>What the two workers sent, and the two systems after their calls are included.\<close>

lemma demo_reported_sent: "sent (sys_nodes demo_reported i) = [(None, UpdateErrand demo_cid [7])]"
proof -
  have "sys_chain demo_opened = demo_inited" "sys_nodes demo_opened = (\<lambda>_. demo_node)"
    by (simp_all add: demo_opened_def demo_inited_def demo_begun_def demo_ready_def)
  then have n: "sys_nodes demo_reported i =
      snd (offchain_worker ref_trait (demo_hosts i) (block_number demo_inited) demo_inited demo_node)"
    by (cases i) (simp_all add: demo_reported_def run_worker_def)
  have "sent (snd (offchain_worker ref_trait (demo_hosts True) (block_number demo_inited) demo_inited demo_node)) =
      [(None, UpdateErrand demo_cid [7])]"
    "sent (snd (offchain_worker ref_trait (demo_hosts False) (block_number demo_inited) demo_inited demo_node)) =
      [(None, UpdateErrand demo_cid [7])]"
    by code_simp+
  with n show ?thesis by (cases i) simp_all
qed

definition demo_half_settled :: demo_system where
  "demo_half_settled = include_call ref_trait demo_hosts True 0 alice demo_reported"

lemma demo_settled_chain:
  "sys_chain demo_reported = demo_inited"
  "sys_chain demo_half_settled = run_extrinsics ref_trait [(Signed alice, UpdateErrand demo_cid [7])] demo_inited"
  "sys_chain demo_settled =
     run_extrinsics ref_trait [(Signed alice, UpdateErrand demo_cid [7]), (Signed carol, UpdateErrand demo_cid [7])] demo_inited"
proof -
  have into: "into_account (demo_hosts i) p = p" for i p by (simp add: demo_hosts_def ref_host_def)
  show r: "sys_chain demo_reported = demo_inited"
    by (simp add: demo_reported_def run_worker_def on_node_def demo_opened_def demo_inited_def demo_begun_def demo_ready_def advance_def)
  show h: "sys_chain demo_half_settled = run_extrinsics ref_trait [(Signed alice, UpdateErrand demo_cid [7])] demo_inited"
    using demo_reported_sent into r by (simp add: demo_half_settled_def include_call_def advance_def)
  have "sys_nodes demo_half_settled = sys_nodes demo_reported"
    by (simp add: demo_half_settled_def include_call_def advance_def)
  then show "sys_chain demo_settled =
      run_extrinsics ref_trait [(Signed alice, UpdateErrand demo_cid [7]), (Signed carol, UpdateErrand demo_cid [7])] demo_inited"
    using demo_reported_sent into h
    by (simp add: demo_settled_def demo_half_settled_def [symmetric] include_call_def [of _ _ False] advance_def)
qed

lemma demo_settled_reachable:
  "joint_reachable ref_trait demo_hosts prod_config demo_half_settled"
  "node_step ref_trait demo_hosts demo_half_settled demo_settled"
  "joint_reachable ref_trait demo_hosts prod_config demo_settled"
proof -
  have none: "sys_included demo_reported = {}"
    by (simp add: demo_reported_def run_worker_def on_node_def demo_opened_def advance_def)
  have keys: "alice \<in> set (signer_keys (demo_hosts True) None)" "carol \<in> set (signer_keys (demo_hosts False) None)"
    by (simp_all add: demo_hosts_def ref_host_def)
  have "node_step ref_trait demo_hosts demo_reported demo_half_settled"
    unfolding demo_half_settled_def using demo_reported_sent keys(1) none by (intro node_step.included) simp_all
  with demo_reported_reachable show r: "joint_reachable ref_trait demo_hosts prod_config demo_half_settled"
    by (rule joint_reachable_node)
  have half: "sys_nodes demo_half_settled = sys_nodes demo_reported" "sys_included demo_half_settled = {(True, 0, alice)}"
    using none by (simp_all add: demo_half_settled_def include_call_def advance_def)
  show step: "node_step ref_trait demo_hosts demo_half_settled demo_settled"
    unfolding demo_settled_def demo_half_settled_def [symmetric]
    using demo_reported_sent keys(2) half by (intro node_step.included) simp_all
  from r step show "joint_reachable ref_trait demo_hosts prod_config demo_settled" by (rule joint_reachable_node)
qed

lemma demo_settled_hand: "sys_hand demo_settled = {}"
  by (simp add: demo_settled_def demo_reported_def run_worker_def demo_opened_def)

theorem settled_results_answered_witness:
  "view (sys_chain demo_settled) demo_cid = (Finished [7], [alice, carol]) \<and>
   (\<exists>i w info. w \<in> set (sys_past demo_settled) \<and> fst (view w demo_cid) = InProgress \<and>
      answered ref_trait (demo_hosts i) w (heard_by demo_settled i w) demo_cid (demo_cid, info) \<and>
      [7] = r_result_cid info)"
proof -
  have hosts: "\<forall>i. offchain_host (demo_hosts i)" by (simp add: demo_hosts_def host.offchain_host_axioms)
  have "view (run_extrinsics ref_trait [(Signed alice, UpdateErrand demo_cid [7]), (Signed carol, UpdateErrand demo_cid [7])]
      demo_inited) demo_cid = (Finished [7], [alice, carol])" by code_simp
  then have v: "view (sys_chain demo_settled) demo_cid = (Finished [7], [alice, carol])" by (simp only: demo_settled_chain)
  from settled_results_answered [OF hosts demo_settled_reachable(3) v] v demo_settled_hand show ?thesis by auto
qed

end
