(* ===== verification/Joint_Progress.thy ===== *)
theory Joint_Progress
  imports Joint_System
begin

text \<open>
  Progress of the joint system: an errand in progress can always be finished, and one node whose account may update
  results is enough, because its worker asks again in every tenth block and each answer is one more vote.
\<close>

section \<open>A node whose service answers\<close>

text \<open>The database serves one worker at a time, and the service answers queries for the errand as completed.\<close>

locale diligent_host = offchain_host H + quiet_db H for H :: "('a, 'p, 'd, 'n) Host"

interpretation ref_diligent: diligent_host "ref_host std keys" for std keys
  by (intro diligent_host.intro host.offchain_host_axioms qhost.quiet_db_axioms)

definition serves :: "('a, 'c) Trait \<Rightarrow> ('a, 'p, 'd, 'n) Host \<Rightarrow> ('a, 'c) chain \<Rightarrow> Cid \<Rightarrow> bool" where
  "serves T H w cid \<longleftrightarrow>
     (\<forall>e client s. Errands w cid = Some e \<and> decode T (e_account_id e) = Some client \<longrightarrow>
        (\<exists>resp s' info.
           http_query_task_result H (e_errand_id e)
             (storage_get [] (DelegateNetAddress w) (storage_get (default_account T) (ClientDelegate w) client)) s
             = (Inr resp, s') \<and>
           json_ErrandResultInfo H resp = Inr info \<and> r_completed info))"

text \<open>The log of calls only grows.\<close>

lemma apply_delegates_sent: "\<exists>xs. sent (apply_delegates T H number w s) = sent s @ xs"
  using apply_loop_sent [of T H "storage_get [] (DelegatesApplys w) number" w s]
  by (auto simp: apply_delegates_def)

lemma worker_sent_before:
  assumes "send_errand_tasks T H number w (apply_delegates T H number w s) = (w2, s2)"
  shows "\<exists>xs. sent s2 = sent s @ xs"
proof -
  obtain xs where xs: "sent (apply_delegates T H number w s) = sent s @ xs" using apply_delegates_sent by blast
  have "\<exists>ys. sent (snd (send_errand_tasks T H number w s1)) = sent s1 @ ys" for s1
    using send_errand_tasks_sent by blast
  with assms xs show ?thesis by (metis append_assoc snd_conv)
qed

context diligent_host
begin

lemma http_query_valid: "http_query_task_result H eid addr s = (Inr resp, s') \<Longrightarrow> utf8_valid resp"
  by (auto simp: http_query_task_result_def and_then_Inr dest: http_post_valid)

lemma fetch_stores:
  assumes "http_query_task_result H eid addr s = (Inr resp, s1)" and "json_ErrandResultInfo H resp = Inr info"
    and "r_completed info" and "lock_free (lock_get H LOCAL_STORAGE_TASKS_RESULTS_LOCK (db s))"
  shows "(cid, info) \<in> set (results_of H (db (snd (fetch_single_task_result H eid cid addr s))))"
proof -
  have s1: "db s1 = db s" using http_query_frame [of H eid addr s] assms(1) by simp
  obtain u d2 where "append_result H cid info LOCAL_STORAGE_TASKS_RESULTS_KEY
      (lock_set H LOCAL_STORAGE_TASKS_RESULTS_LOCK True (db s1)) = (u, d2)" by (metis prod.collapse)
  from operate_free [where callback = "append_result H cid info", OF assms(4) [folded s1] this] obtain d' where
    op: "operate_local_storage H LOCAL_STORAGE_TASKS_RESULTS_KEY LOCAL_STORAGE_TASKS_RESULTS_LOCK
      (append_result H cid info) (db s1) = (Inr u, d')" by blast
  have "snd (fetch_single_task_result H eid cid addr s) = s1\<lparr>db := d'\<rparr>"
    using assms http_query_valid [OF assms(1)] op
    by (simp add: fetch_single_task_result_node fetch_errand_result_info_def on_db_def)
  with store_result [OF op] show ?thesis by simp
qed

lemma query_loop_grows: "set (results_of H (db s)) \<subseteq> set (results_of H (db (query_loop T H items w s)))"
  using query_loop_results [of T items w s] by auto

lemma query_loop_gets:
  assumes "serves T H w cid" and "feature_std H" and "Errands w cid = Some e" and "decode T (e_account_id e) = Some client"
    and "cid \<in> set items" and "lock_free (lock_get H LOCAL_STORAGE_TASKS_RESULTS_LOCK (db s))"
  shows "\<exists>info. (e_description_cid e, info) \<in> set (results_of H (db (query_loop T H items w s)))"
  using assms(5,6)
proof (induction items arbitrary: s)
  case (Cons item items)
  let ?addr = "\<lambda>c. storage_get [] (DelegateNetAddress w) (storage_get (default_account T) (ClientDelegate w) c)"
  show ?case
  proof (cases "item = cid")
    case True
    from assms(1,3,4) obtain resp s' info where
      q: "http_query_task_result H (e_errand_id e) (?addr client) s = (Inr resp, s')"
      "json_ErrandResultInfo H resp = Inr info" "r_completed info" unfolding serves_def by blast
    from fetch_stores [OF q Cons.prems(2)] query_loop_grows True assms(2-4) show ?thesis
      by (force simp: Let_def)
  next
    case False
    have k: "worker_lock H LOCAL_STORAGE_TASKS_RESULTS_LOCK" by (simp add: worker_lock_def)
    have "lock_free (lock_get H LOCAL_STORAGE_TASKS_RESULTS_LOCK
        (db (snd (fetch_single_task_result H eid c addr s))))" for eid c addr
      by (rule fetch_single_task_result_locks [OF k Cons.prems(2)])
    with Cons False assms(2) show ?thesis by (auto simp: Let_def split: option.split)
  qed
qed simp

lemma load_tasks_results_info_ok:
  assumes "lock_free (lock_get H LOCAL_STORAGE_TASKS_RESULTS_LOCK (db s))"
  shows "sent (snd (load_tasks_results_info H f s)) =
           sent s @ map (\<lambda>(cid, info). (f, UpdateErrand cid (r_result_cid info))) (results_of H (db s))"
proof -
  obtain r s' where p: "load_tasks_results_info H f s = (r, s')" by fastforce
  have ul: "update_loop H f rs x \<noteq> (Inl e, y)" for rs x e y
    using update_loop_eq [of H f rs x] by auto
  have "r \<noteq> Inl LocalStorageError"
    using p assms try_quiet [of LOCAL_STORAGE_TASKS_RESULTS_LOCK True "db s"]
    by (auto simp: load_tasks_results_info_def lock_mutate_def acquire_results_lock_def on_db_def and_then_def ul
        split: option.splits sum.splits prod.splits)
  with load_tasks_results_info_outcome [OF p] p show ?thesis by (cases r) auto
qed

text \<open>In a tenth block a node that may update results sends a vote on every errand its service answers for.\<close>

lemma worker_reports:
  assumes "serves T H w cid" and "feature_std H" and "Errands w cid = Some e" and "e_description_cid e = cid"
    and "decode T (e_account_id e) = Some client" and "cid \<in> set (ProcessingErrands w)" and "10 dvd unat number"
    and "can_sign H None" and "allow_to_update_result (get_account_ids T H) w"
    and free: "lock_free (lock_get H LOCAL_STORAGE_TASKS_RESULTS_LOCK (db s))"
  shows "\<exists>res. (None, UpdateErrand cid res) \<in>
           set (drop (length (sent s)) (sent (snd (offchain_worker T H number w s))))"
proof -
  let ?L = LOCAL_STORAGE_TASKS_RESULTS_LOCK
  have k: "worker_lock H ?L" by (simp add: worker_lock_def)
  let ?s1 = "apply_delegates T H number w s"
  obtain w2 s2 where p: "send_errand_tasks T H number w ?s1 = (w2, s2)" by fastforce
  have w2: "only_balances w w2" using send_errand_tasks_overlay [of w T H number ?s1] p by simp
  have "lock_free (lock_get H ?L (db ?s1))" by (simp add: apply_delegates_def apply_loop_locks [OF k] free)
  then have "lock_free (lock_get H ?L (db (snd (send_errand_tasks T H number w ?s1))))"
    by (simp add: send_errand_tasks_def send_loop_locks)
  with p have free2: "lock_free (lock_get H ?L (db s2))" by simp
  let ?s3 = "query_loop T H (ProcessingErrands w2) w2 s2"
  have "\<exists>info. (cid, info) \<in> set (results_of H (db ?s3))"
    using query_loop_gets [of T w2 cid e client, OF _ assms(2) _ assms(5) _ free2] assms(1,3,4,6) w2
    by (auto simp: only_balances_def serves_def)
  then obtain info where info: "(cid, info) \<in> set (results_of H (db ?s3))" by blast
  have free3: "lock_free (lock_get H ?L (db ?s3))" by (rule query_loop_locks [OF k free2])
  have s3: "query_errand_task_results T H number w2 s2 = ?s3"
    using assms(7-9) by (simp add: query_errand_task_results_def tenth_block only_balances_answers [OF w2])
  have "snd (offchain_worker T H number w s) = snd (load_tasks_results_info H None ?s3)"
    using p s3 assms(8,9)
    by (simp add: offchain_worker_def update_errand_task_results_def only_balances_answers [OF w2])
  then have sent: "sent (snd (offchain_worker T H number w s)) =
      sent ?s3 @ map (\<lambda>(cid, info). (None, UpdateErrand cid (r_result_cid info))) (results_of H (db ?s3))"
    using load_tasks_results_info_ok [OF free3] by simp
  have "\<exists>xs. sent ?s3 = sent s @ xs"
    using worker_sent_before [OF p] query_loop_results [of T "ProcessingErrands w2" w2 s2] by auto
  then show ?thesis using sent info by force
qed

end

section \<open>Bookkeeping of the joint system\<close>

context offchain_host
begin

lemma offchain_worker_sent_after:
  assumes p: "send_errand_tasks T H number w (apply_delegates T H number w s) = (w2, s2)"
  shows "\<exists>xs. sent (snd (offchain_worker T H number w s)) = sent s2 @ xs"
proof -
  let ?s3 = "query_errand_task_results T H number w2 s2"
  have s3: "sent ?s3 = sent s2"
    using query_loop_results [of T "ProcessingErrands w2" w2 s2]
    by (auto simp: query_errand_task_results_def Let_def)
  have "\<exists>xs. sent (snd (load_tasks_results_info H None ?s3)) = sent ?s3 @ xs"
    using load_tasks_results_info_outcome [of None ?s3, OF prod.collapse [symmetric]]
    by (cases "fst (load_tasks_results_info H None ?s3)") auto
  then have "\<exists>xs. sent (update_errand_task_results T H number w2 ?s3) = sent ?s3 @ xs"
    by (simp add: update_errand_task_results_def)
  with s3 p show ?thesis by (auto simp: offchain_worker_def)
qed

lemma offchain_worker_sent: "\<exists>xs. sent (snd (offchain_worker T H number w s)) = sent s @ xs"
proof -
  obtain w2 s2 where p: "send_errand_tasks T H number w (apply_delegates T H number w s) = (w2, s2)" by fastforce
  from worker_sent_before [OF p] offchain_worker_sent_after [OF p] show ?thesis by (metis append_assoc)
qed

end

text \<open>What is included was sent, and no node is left with the lock of its results taken.\<close>

definition orderly :: "('i \<Rightarrow> ('a, 'p, 'd, 'n) Host) \<Rightarrow> ('i, 'a, 'c, 'p, 'd, 'n) System \<Rightarrow> bool" where
  "orderly Hs S \<longleftrightarrow>
     (\<forall>i n p. (i, n, p) \<in> sys_included S \<longrightarrow> n < length (sent (sys_nodes S i))) \<and>
     (\<forall>i. lock_free (lock_get (Hs i) LOCAL_STORAGE_TASKS_RESULTS_LOCK (db (sys_nodes S i))))"

context joint_system
begin

lemma orderly_node:
  assumes "orderly Hs S" and "sys_nodes S' = (sys_nodes S)(i := s)" and "sys_included S' = sys_included S"
    and "\<exists>xs. sent s = sent (sys_nodes S i) @ xs"
    and "lock_free (lock_get (Hs i) LOCAL_STORAGE_TASKS_RESULTS_LOCK (db s))"
  shows "orderly Hs S'"
  using assms by (fastforce simp: orderly_def)

lemma orderly_worker:
  assumes "orderly Hs S"
  shows "orderly Hs (work T Hs i w S)"
proof (rule orderly_node [OF assms])
  let ?s = "snd (offchain_worker T (Hs i) (block_number w) w (sys_nodes S i))"
  show "sys_nodes (work T Hs i w S) = (sys_nodes S)(i := ?s)" by simp
  show "\<exists>xs. sent ?s = sent (sys_nodes S i) @ xs" by (rule offchain_host.offchain_worker_sent [OF hosts])
  show "lock_free (lock_get (Hs i) LOCAL_STORAGE_TASKS_RESULTS_LOCK (db ?s))"
    by (rule offchain_host.offchain_worker_locks [OF hosts]) (use assms in \<open>simp_all add: worker_lock_def orderly_def\<close>)
qed simp

lemma orderly_node_step: "node_step T Hs S S' \<Longrightarrow> orderly Hs S \<Longrightarrow> orderly Hs S'"
proof (induction rule: node_step.induct)
  case (worker w S i)
  then show ?case by (simp add: orderly_worker)
next
  case (network S i n)
  then show ?case by (intro orderly_node [OF network]) (auto simp: orderly_def)
qed (auto simp: orderly_def)

lemma orderly_step: "joint_step T Hs S S' \<Longrightarrow> orderly Hs S \<Longrightarrow> orderly Hs S'"
  by (induction rule: joint_step.induct) (erule (1) orderly_node_step, simp add: orderly_def)

lemma orderly_reachable: "joint_reachable T Hs config S \<Longrightarrow> orderly Hs S"
proof (induction rule: joint_reachable.induct)
  case (start nodes cur)
  then show ?case by (simp add: orderly_def fresh_node_def)
qed (rule orderly_step)

end

section \<open>Rounds\<close>

text \<open>Blocks without extrinsics change only the block number and the events.\<close>

lemma blocks_chain: "\<exists>ev. (new_block ^^ k) w = w\<lparr>block_number := block_number w + of_nat k, events := ev\<rparr>"
proof (induction k)
  case 0
  show ?case by (rule exI [of _ "events w"]) simp
next
  case (Suc k)
  then obtain ev where "(new_block ^^ k) w = w\<lparr>block_number := block_number w + of_nat k, events := ev\<rparr>" by blast
  then have "(new_block ^^ Suc k) w = new_block (w\<lparr>block_number := block_number w + of_nat k, events := ev\<rparr>)" by simp
  also have "\<dots> = w\<lparr>block_number := block_number w + of_nat (Suc k), events := []\<rparr>"
    by (simp add: new_block_def algebra_simps)
  finally show ?case by blast
qed

lemma tenth_block_comes: "\<exists>k. 10 dvd unat (block_number w + of_nat k)"
  by (rule exI [of _ "unat (- block_number w)"]) simp

lemma blocks_run:
  "\<exists>S'. (node_step T Hs)\<^sup>*\<^sup>* S S' \<and> sys_chain S' = (new_block ^^ k) (sys_chain S) \<and> sys_nodes S' = sys_nodes S \<and>
     sys_included S' = sys_included S \<and> (sys_chain S \<in> set (sys_past S) \<longrightarrow> sys_chain S' \<in> set (sys_past S'))"
proof (induction k)
  case (Suc k)
  then obtain S' where S': "(node_step T Hs)\<^sup>*\<^sup>* S S'" "sys_chain S' = (new_block ^^ k) (sys_chain S)"
    "sys_nodes S' = sys_nodes S" "sys_included S' = sys_included S" by blast
  have "(node_step T Hs)\<^sup>*\<^sup>* S (advance (new_block (sys_chain S')) S')"
    using S'(1) node_step.block by (rule rtranclp.rtrancl_into_rtrancl)
  with S' show ?case by (intro exI [of _ "advance (new_block (sys_chain S')) S'"]) simp
qed (auto intro: exI [of _ S])

lemma serves_block [simp]: "serves T H (w\<lparr>block_number := n, events := ev\<rparr>) cid = serves T H w cid"
  by (simp add: serves_def)

lemma serves_voted [simp]: "serves T H (voted cid' a w) cid = serves T H w cid"
  by (simp add: serves_def)

lemma joint_reachable_steps:
  "(node_step T Hs)\<^sup>*\<^sup>* S S' \<Longrightarrow> joint_reachable T Hs config S \<Longrightarrow> joint_reachable T Hs config S'"
  by (induction rule: rtranclp_induct) (auto intro: joint_reachable_node)

text \<open>A node that can vote and whose service answers.\<close>

definition ready_node ::
    "('a, 'c) Trait \<Rightarrow> ('a, 'p, 'd, 'n) Host \<Rightarrow> 'p \<Rightarrow> ('a, 'c) chain \<Rightarrow> Cid \<Rightarrow> bool" where
  "ready_node T H p w cid \<longleftrightarrow>
     feature_std H \<and> p \<in> set (app_keys H) \<and> approver T w (into_account H p) \<and> serves T H w cid"

lemma ready_allowed:
  assumes "ready_node T H p w cid"
  shows "allow_to_update_result (get_account_ids T H) w"
  using assms by (force simp: ready_node_def approver_def allow_to_update_result_iff get_account_ids_eq)

context joint_system
begin

text \<open>A call the worker hands to its signer can be the next extrinsic.\<close>

lemma worker_call:
  fixes S :: "('i, 'a, 'c, 'p, 'd, 'n) System" and i :: 'i
  defines "s \<equiv> sys_nodes S i"
    and "s' \<equiv> snd (offchain_worker T (Hs i) (block_number (sys_chain S)) (sys_chain S) (sys_nodes S i))"
  assumes "orderly Hs S" and "sys_chain S \<in> set (sys_past S)"
    and "(f, call) \<in> set (drop (length (sent s)) (sent s'))" and "p \<in> set (signer_keys (Hs i) f)"
  obtains S' where "(node_step T Hs)\<^sup>*\<^sup>* S S'"
    and "sys_chain S' = snd (dispatch T (Signed (into_account (Hs i) p)) call (sys_chain S))"
    and "sys_nodes S' = (sys_nodes S)(i := s')"
proof -
  obtain m where m: "m < length (drop (length (sent s)) (sent s'))"
    "drop (length (sent s)) (sent s') ! m = (f, call)" using assms(5) by (metis in_set_conv_nth)
  let ?n = "length (sent s) + m" and ?S1 = "work T Hs i (sys_chain S) S"
  have n: "?n < length (sent s')" "sent s' ! ?n = (f, call)" using m by simp_all
  have S1: "sys_nodes ?S1 = (sys_nodes S)(i := s')" by (simp add: s'_def)
  have "(i, ?n, p) \<notin> sys_included ?S1" using assms(3) by (auto simp: orderly_def s_def)
  then have "node_step T Hs ?S1 (include_call T Hs i ?n p ?S1)"
    using n assms(6) by (intro node_step.included) (simp_all only: S1 fun_upd_same fst_conv not_False_eq_True)
  moreover have "node_step T Hs S ?S1" by (rule node_step.worker [OF assms(4)])
  ultimately have "(node_step T Hs)\<^sup>*\<^sup>* S (include_call T Hs i ?n p ?S1)" by (meson converse_rtranclp_into_rtranclp r_into_rtranclp)
  then show thesis using that [of "include_call T Hs i ?n p ?S1"] n(2) S1 by (simp add: s'_def [symmetric])
qed

text \<open>One round: the next tenth block, the worker, and its vote.\<close>

lemma round:
  assumes "diligent_host (Hs i)" and "abc_trait T" and "joint_reachable T Hs config S"
    and "fst (view (sys_chain S) cid) = InProgress" and "ready_node T (Hs i) p (sys_chain S) cid"
  obtains S' res n ev where "(node_step T Hs)\<^sup>*\<^sup>* S S'"
    and "sys_chain S' = snd (update_errand T (Signed (into_account (Hs i) p)) cid res
           ((sys_chain S)\<lparr>block_number := n, events := ev\<rparr>))"
proof -
  let ?w = "sys_chain S" and ?H = "Hs i"
  have prov: "?w \<in> set (sys_past S)" "reachable T config ?w"
    using provenance_reachable [OF assms(3)] by (auto simp: provenance_def)
  have inv: "errand_inv T ?w" using errand.inv_reachable [OF prov(2)] .
  from assms(4) obtain e where e: "Errands ?w cid = Some e" "e_status e = Processing"
    by (cases "Errands ?w cid") (auto simp: view_def split: ErrandStatus.splits)
  with inv obtain c where c: "e_description_cid e = cid" "e_account_id e = encode T c" "cid \<in> set (ProcessingErrands ?w)"
    unfolding errand_inv_def by blast
  obtain k where k: "10 dvd unat (block_number ?w + of_nat k)" using tenth_block_comes by blast
  obtain ev where ev: "(new_block ^^ k) ?w = ?w\<lparr>block_number := block_number ?w + of_nat k, events := ev\<rparr>"
    using blocks_chain by blast
  obtain S1 where S1: "(node_step T Hs)\<^sup>*\<^sup>* S S1" "sys_chain S1 = (new_block ^^ k) ?w" "sys_nodes S1 = sys_nodes S"
    "sys_included S1 = sys_included S" "sys_chain S1 \<in> set (sys_past S1)"
    using blocks_run prov(1) by metis
  let ?w1 = "sys_chain S1" and ?s = "sys_nodes S1 i"
  have ord: "orderly Hs S1" using orderly_reachable [OF joint_reachable_steps [OF S1(1) assms(3)]] .
  have ready: "ready_node T ?H p ?w1 cid" using assms(5) by (simp add: ready_node_def S1(2) ev approver_def)
  have keys: "p \<in> set (signer_keys ?H None)" using ready hosts by (simp add: ready_node_def offchain_host.keys_all)
  then have "can_sign ?H None" by (auto simp: can_sign_def)
  moreover have "decode T (e_account_id e) = Some c" using c(2) assms(2) by (simp add: abc_trait.decode_encode)
  ultimately obtain res where "(None, UpdateErrand cid res) \<in>
      set (drop (length (sent ?s)) (sent (snd (offchain_worker T ?H (block_number ?w1) ?w1 ?s))))"
    using diligent_host.worker_reports [OF assms(1), of T ?w1 cid e c "block_number ?w1" ?s] e c k ord ready ready_allowed [OF ready]
    by (auto simp: S1(2) ev ready_node_def orderly_def)
  then obtain S' where "(node_step T Hs)\<^sup>*\<^sup>* S1 S'"
    "sys_chain S' = snd (dispatch T (Signed (into_account ?H p)) (UpdateErrand cid res) ?w1)"
    using worker_call [OF ord S1(5) _ keys] by blast
  with S1(1) show thesis using that by (simp add: S1(2) ev) (meson rtranclp_trans)
qed

text \<open>A vote that does not finish the errand leaves the node ready for another.\<close>

lemma ready_after_vote:
  assumes "ready_node T H p w cid" and "fst (view w cid) = InProgress"
    and "fst (view (snd (update_errand T (Signed a) cid res w)) cid) = InProgress"
  shows "ready_node T H p (snd (update_errand T (Signed a) cid res w)) cid"
  using assms
  by (cases rule: update_errand_cases [of T "Signed a" cid res w])
    (auto simp: ready_node_def approver_def view_def errand_updated_def complete_errand_def)

lemma vote_round:
  assumes "diligent_host (Hs i)" and "abc_trait T" and "joint_reachable T Hs config S"
    and "fst (view (sys_chain S) cid) = InProgress" and "ready_node T (Hs i) p (sys_chain S) cid"
  obtains S' res where "(node_step T Hs)\<^sup>*\<^sup>* S S'"
    and "view (sys_chain S') cid =
           vote_spec (DevelopmentMode (sys_chain S)) (into_account (Hs i) p) res (view (sys_chain S) cid)"
    and "fst (view (sys_chain S') cid) = InProgress \<Longrightarrow> ready_node T (Hs i) p (sys_chain S') cid"
proof -
  obtain S' res n ev where S': "(node_step T Hs)\<^sup>*\<^sup>* S S'"
    "sys_chain S' = snd (update_errand T (Signed (into_account (Hs i) p)) cid res
       ((sys_chain S)\<lparr>block_number := n, events := ev\<rparr>))" by (rule round [OF assms])
  let ?w = "(sys_chain S)\<lparr>block_number := n, events := ev\<rparr>"
  have w: "view ?w cid = view (sys_chain S) cid" "ready_node T (Hs i) p ?w cid"
    using assms(5) by (simp_all add: view_def ready_node_def approver_def)
  then have "approver T ?w (into_account (Hs i) p)" by (simp add: ready_node_def)
  from update_errand_view(1) [OF this, of cid res] w(1) S'(2) have
    "view (sys_chain S') cid =
       vote_spec (DevelopmentMode (sys_chain S)) (into_account (Hs i) p) res (view (sys_chain S) cid)" by simp
  moreover have "fst (view ?w cid) = InProgress" using w(1) assms(4) by simp
  ultimately show thesis using that [OF S'(1)] ready_after_vote [OF w(2), of "into_account (Hs i) p" res] S'(2)
    by simp
qed

end

section \<open>Properties\<close>

text \<open>
  C12: an errand in progress can always be finished, by one node alone. In every state the joint system can reach, if
  a node has a key of an account that may update results, its database serves it and its service answers for the
  errand, there is a continuation with no vote signed by hand that finishes the errand, and every vote it adds is by that
  one account:
  the worker asks again in a later block and its second answer counts as a second vote.
\<close>

theorem one_node_can_finish:
  assumes "\<forall>j. offchain_host (Hs j)" and "diligent_host (Hs i)" and "abc_trait T"
    and "joint_reachable T Hs config S" and "view (sys_chain S) cid = (InProgress, vs)"
    and "ready_node T (Hs i) p (sys_chain S) cid"
  shows "\<exists>S' res k. (node_step T Hs)\<^sup>*\<^sup>* S S' \<and>
           view (sys_chain S') cid = (Finished res, vs @ replicate k (into_account (Hs i) p))"
proof -
  let ?a = "into_account (Hs i) p" and ?dev = "\<lambda>S. DevelopmentMode (sys_chain S)"
  have J: "joint_system Hs" using assms(1) by (simp add: joint_system_def)
  have "fst (view (sys_chain S) cid) = InProgress" using assms(5) by simp
  then obtain S1 res where S1: "(node_step T Hs)\<^sup>*\<^sup>* S S1"
    "view (sys_chain S1) cid = vote_spec (?dev S) ?a res (InProgress, vs)"
    "fst (view (sys_chain S1) cid) = InProgress \<Longrightarrow> ready_node T (Hs i) p (sys_chain S1) cid"
    using joint_system.vote_round [OF J assms(2-4) _ assms(6)] assms(5) by metis
  show ?thesis
  proof (cases "fst (view (sys_chain S1) cid) = InProgress")
    case False
    with S1(2) have "\<exists>k. view (sys_chain S1) cid = (Finished res, vs @ replicate k ?a)"
      by (cases "?dev S") (auto intro: exI [of _ 0] exI [of _ 1] split: if_splits)
    with S1(1) show ?thesis by blast
  next
    case True
    with S1(2) have v1: "view (sys_chain S1) cid = (InProgress, vs @ [?a])"
      by (cases "?dev S") (auto split: if_splits)
    obtain S2 res2 where S2: "(node_step T Hs)\<^sup>*\<^sup>* S1 S2"
      "view (sys_chain S2) cid = vote_spec (?dev S1) ?a res2 (InProgress, vs @ [?a])"
      using joint_system.vote_round [OF J assms(2,3) joint_reachable_steps [OF S1(1) assms(4)] True S1(3) [OF True]]
        v1 by metis
    from S2(2) have "\<exists>k. view (sys_chain S2) cid = (Finished res2, vs @ replicate k ?a)"
      by (cases "?dev S1")
        (auto simp: MIN_UPDATE_RESULT_ACCOUNT_def numeral_2_eq_2 intro: exI [of _ 1] exI [of _ "Suc (Suc 0)"])
    moreover have "(node_step T Hs)\<^sup>*\<^sup>* S S2" using S1(1) S2(1) by (rule rtranclp_trans)
    ultimately show ?thesis by blast
  qed
qed

text \<open>Alice's node alone, on the errand that bob opened.\<close>

lemma demo_serves: "serves ref_trait (demo_hosts True) (sys_chain demo_opened) demo_cid"
proof -
  let ?w = "sys_chain demo_opened"
  have e: "map_option e_errand_id (Errands ?w demo_cid) = Some [9]"
    "map_option (\<lambda>e. decode ref_trait (e_account_id e)) (Errands ?w demo_cid) = Some (Some alice)"
    "storage_get [] (DelegateNetAddress ?w) (storage_get (default_account ref_trait) (ClientDelegate ?w) alice) = [49]"
    by code_simp+
  have "utf8_valid [49]" "utf8_valid [9]" "utf8_valid []" by code_simp+
  then have "\<exists>s'. http_query_task_result (demo_hosts True) [9] [49] s = (Inr [], s')" for s
    by (simp add: http_query_task_result_def get_url_def http_post_def parse_response_def Let_def demo_hosts_def
        ref_host_def)
  moreover have "json_ErrandResultInfo (demo_hosts True) [] = Inr demo_result" "r_completed demo_result"
    by (simp_all add: demo_hosts_def ref_host_def demo_result_def)
  ultimately show ?thesis using e unfolding serves_def by fastforce
qed

theorem one_node_can_finish_witness:
  "view (sys_chain demo_opened) demo_cid = (InProgress, []) \<and>
   (\<exists>S' res k. (node_step ref_trait demo_hosts)\<^sup>*\<^sup>* demo_opened S' \<and>
      view (sys_chain S') demo_cid = (Finished res, replicate k alice))"
proof -
  have v: "view (sys_chain demo_opened) demo_cid = (InProgress, [])" by code_simp
  have hosts: "\<forall>j. offchain_host (demo_hosts j)" by (simp add: demo_hosts_def host.offchain_host_axioms)
  have d: "diligent_host (demo_hosts True)" unfolding demo_hosts_def by (rule ref_diligent.diligent_host_axioms)
  have a: "into_account (demo_hosts True) alice = alice" by (simp add: demo_hosts_def ref_host_def)
  have "approver ref_trait (sys_chain demo_opened) alice" by code_simp
  then have "ready_node ref_trait (demo_hosts True) alice (sys_chain demo_opened) demo_cid"
    using demo_serves a by (simp add: ready_node_def) (simp add: demo_hosts_def ref_host_def)
  from one_node_can_finish [OF hosts d rt.abc_trait_axioms demo_opened_reachable v this] v a show ?thesis by simp
qed

end
