(* ===== verification/Errand_Ids.thy ===== *)
theory Errand_Ids
  imports Scenario Rust_Strings
begin

text \<open>
  The ids \<^verbatim>\<open>generate_errand_id\<close> gives to tasks. What the crates promise, a hash of sixteen bytes and UUIDs as RFC 4122
  has them, is the locale \<open>uuid_crate\<close>; under it every task on the chain carries the text of a random
  UUID.
\<close>

section \<open>The contract of the crates\<close>

locale uuid_crate =
  fixes T :: "('a, 'c) Trait"
  assumes hash_size: "length (blake2_128 T bs) = 16"
    and variant: "length bs = 16 \<Longrightarrow> \<exists>b. uuid_set_variant T RFC4122 bs = bs[8 := b] \<and> unat b div 64 = 2"
    and version: "length bs = 16 \<Longrightarrow> \<exists>b. uuid_set_version T Random bs = bs[6 := b] \<and> unat b div 16 = 4"
    and text_form: "length bs = 16 \<Longrightarrow> uuid_encode_lower T bs = hyphenated bs"
begin

lemma generated_text: "uuid_v4_text (generate_errand_id T sender w)"
proof -
  let ?h = "blake2_128 T (encode_payload T (random_seed w, sender, extrinsic_index w))"
  obtain b where b: "uuid_set_variant T RFC4122 ?h = ?h[8 := b]" "unat b div 64 = 2"
    using variant [OF hash_size] by blast
  have l: "length (?h[8 := b]) = 16" using hash_size by simp
  from version [OF l] obtain c where c: "uuid_set_version T Random (?h[8 := b]) = ?h[8 := b, 6 := c]" "unat c div 16 = 4"
    by blast
  have "length (?h[8 := b, 6 := c]) = 16" using l by simp
  moreover from this have "uuid_v4_text (hyphenated (?h[8 := b, 6 := c]))"
    by (rule hyphenated_v4) (use b c hash_size in \<open>simp_all\<close>)
  ultimately show ?thesis by (simp add: generate_errand_id_def b c text_form)
qed

end

text \<open>Text of ids is ASCII, hence a Rust string.\<close>

lemma id_char_ascii: "id_char c \<Longrightarrow> c < 0x80"
  by (auto simp: id_char_def lower_hex_def hyphen_def intro: order_le_less_trans)

lemma uuid_v4_valid: "uuid_v4_text t \<Longrightarrow> utf8_valid t"
  by (drule uuid_v4_chars) (auto simp: list_all_iff intro!: utf8_valid_ascii id_char_ascii)

interpretation ref_uuid: uuid_crate ref_trait
  by unfold_locales (use set_bits in \<open>auto simp: ref_trait_def rfc4122_variant_def random_version_def\<close>)

section \<open>Every task has such an id\<close>

definition id_inv :: "('a, 'c) chain \<Rightarrow> bool" where
  "id_inv w \<longleftrightarrow> (\<forall>b l. Tasks w b = Some l \<longrightarrow> (\<forall>t \<in> set l. uuid_v4_text (t_errand_id t)))"

lemma id_inv_block: "id_inv w \<Longrightarrow> t \<in> set (storage_get [] (Tasks w) b) \<Longrightarrow> uuid_v4_text (t_errand_id t)"
  by (cases "Tasks w b") (auto simp: id_inv_def storage_get_def)

context uuid_crate
begin

lemma id_inv_begun: "id_inv w \<Longrightarrow> id_inv (task_begun T client n d cid fee cur w)"
  using generated_text [of d w] id_inv_block [of w _ "block_number w"]
  by (auto simp: task_begun_def id_inv_def task_of_def storage_insert_def)

lemma id_inv_dispatch: "id_inv w \<Longrightarrow> id_inv (snd (dispatch T origin call w))"
proof (cases call)
  case (BeginTask n cid fee)
  assume "id_inv w"
  with BeginTask show ?thesis
    by (cases rule: begin_task_cases [of origin T n cid fee w])
      (simp_all add: id_inv_begun, auto simp: id_inv_def storage_remove_def)
qed (simp_all add: frame_simps id_inv_def)

end

sublocale uuid_crate \<subseteq> ids: chain_invariant T config id_inv for config
  by unfold_locales (auto simp: id_inv_dispatch, auto simp: id_inv_def genesis_build_def new_block_def)

context uuid_crate
begin

lemma id_inv_reachable: "reachable T config w \<Longrightarrow> id_inv w"
  by (rule ids.inv_reachable)

end

end
