(* ===== verification/Task_Journey.thy ===== *)
theory Task_Journey
  imports Joint_Progress Errand_Ids Settlement Task_Entry
begin

text \<open>
  A task from the client's call to the delegate's fee: \<^verbatim>\<open>begin_task\<close> on the chain, the errand opened by the worker of
  the delegate's node, the votes of the worker of a node that may update results, and the payment. The theory
  follows the task through the joint system and puts the components' lemmas together.
\<close>

section \<open>Sending a task\<close>

text \<open>A node that holds the answer of an account's service, with the lock of it free.\<close>

definition holds_info :: "('a, 'p, 'd, 'n) Host \<Rightarrow> AccountId32 \<Rightarrow> 'd \<Rightarrow> bool" where
  "holds_info H a d \<longleftrightarrow> has_info H a d \<and> lock_free (lock_get H (client_lock_key (display_account H a)) d)"

text \<open>A service that takes every task sent to its address.\<close>

definition takes_tasks :: "('a, 'p, 'd, 'n) Host \<Rightarrow> NetAddress \<Rightarrow> bool" where
  "takes_tasks H addr \<longleftrightarrow> utf8_valid addr \<and>
     (\<forall>client eid sig cid s. \<exists>data s'.
        http_post H (task_url (SERVICE_BASE_URL_PREFIX @ addr) client eid sig cid) s = (Inr data, s'))"

definition can_open ::
    "('a, 'c) Trait \<Rightarrow> ('a, 'p, 'd, 'n) Host \<Rightarrow> ('a, 'c) chain \<Rightarrow> TaskInfo \<Rightarrow> 'a \<Rightarrow> 'a \<Rightarrow> 'd \<Rightarrow> bool" where
  "can_open T H w item client d dt \<longleftrightarrow>
     decode T (t_client item) = Some client \<and> DelegateAccounts w (t_delegator item) = Some d \<and> local_keys H d \<noteq> [] \<and>
     (feature_std H \<longrightarrow>
        holds_info H (account_of (encode T d)) dt \<and> takes_tasks H (storage_get [] (DelegateNetAddress w) d) \<and>
        utf8_valid (t_description_cid item) \<and> utf8_valid (t_errand_id item))"

context offchain_host
begin

lemma holds_info_keeps:
  assumes "holds_info H b (db s)"
  shows "holds_info H b (db (snd (request_single_delegate H a addr s)))"
    and "holds_info H b (db (snd (send_task_to_tea_network H a cid eid addr s)))"
proof -
  have k: "worker_lock H (client_lock_key (display_account H b))" by (auto simp: worker_lock_def)
  show "holds_info H b (db (snd (request_single_delegate H a addr s)))"
    using assms request_single_delegate_keeps request_single_delegate_locks [OF k] by (simp add: holds_info_def)
  have "has_info H b (db (snd (load_delegate_info H (display_account H a) s)))"
    unfolding load_delegate_info_node on_db_frame
    by (rule operate_db_keeps)
      (use assms account_keys_apart in \<open>auto simp: holds_info_def has_info_def info_get_lock\<close>)
  then have "has_info H b (db (snd (send_task_to_tea_network H a cid eid addr s)))"
    unfolding send_task_to_tea_network_node send_task_internal_def
    by (intro and_then_keeps [where P = "\<lambda>s'. has_info H b (db s')"]) (auto simp: http_post_frame)
  with assms send_task_to_tea_network_locks show "holds_info H b (db (snd (send_task_to_tea_network H a cid eid addr s)))"
    by (simp add: holds_info_def)
qed

lemma holds_info_apply:
  "holds_info H b (db s) \<Longrightarrow> holds_info H b (db (apply_delegates T H number w s))"
proof -
  have "holds_info H b (db s) \<Longrightarrow> holds_info H b (db (apply_loop T H ids accs w s))" for ids accs
  proof (induction accs arbitrary: s)
    case (Cons acc accs)
    obtain r s1 where p: "apply_single_delegate T H (snd acc) w s = (r, s1)" by fastforce
    have "holds_info H b (db (snd (apply_single_delegate T H (snd acc) w s)))"
      using holds_info_keeps(1) [OF Cons.prems] Cons.prems
      by (auto simp: apply_single_delegate_def Let_def split: sum.split prod.split bool.split) (metis snd_conv)+
    with Cons p show ?case by (cases r) (simp_all add: Let_def)
  qed simp
  then show "holds_info H b (db s) \<Longrightarrow> holds_info H b (db (apply_delegates T H number w s))"
    by (simp add: apply_delegates_def)
qed

lemma holds_info_send_single:
  "holds_info H b (db s) \<Longrightarrow> holds_info H b (db (snd (send_single_task T H ids item w s)))"
  using holds_info_keeps(2) [of b s]
  by (auto simp: send_single_task_def Let_def open_errand_db split: option.split sum.split prod.split bool.split)
    (metis snd_conv)+

lemma can_open_send_single:
  assumes "can_open T H w item client d (db s)" and "send_single_task T H ids i w s = (w1, s1)"
  shows "can_open T H w1 item client d (db s1)"
proof -
  have "only_balances w w1" using send_single_task_overlay [of w T H ids i s] assms(2) by simp
  moreover have "holds_info H b (db s) \<Longrightarrow> holds_info H b (db s1)" for b
    using holds_info_send_single [of b s T ids i w] assms(2) by simp
  ultimately show ?thesis using assms(1) by (auto simp: can_open_def only_balances_def)
qed

end

context diligent_host
begin

lemma send_task_taken:
  assumes "holds_info H a (db s)" and "takes_tasks H addr" and "utf8_valid cid" and "utf8_valid eid"
  shows "fst (send_task_to_tea_network H a cid eid addr s)"
proof -
  let ?c = "display_account H a"
  obtain i where "info_get H (client_key ?c) (db s) = Some (Some i)" using assms(1) by (auto simp: holds_info_def has_info_def)
  from load_delegate_info_free [OF offchain_host_axioms quiet_db_axioms this] assms(1) obtain d' where
    l: "load_delegate_info H ?c s = (Inr i, s\<lparr>db := d'\<rparr>)" by (auto simp: holds_info_def)
  let ?u = "task_url (SERVICE_BASE_URL_PREFIX @ addr) ?c eid (hex_encode H (d_sig i)) cid"
  from assms(2) obtain data s' where p: "http_post H ?u (s\<lparr>db := d'\<rparr>) = (Inr data, s')" "utf8_valid addr"
    unfolding takes_tasks_def by blast
  with http_post_valid [OF p(1)] l assms(3,4) show ?thesis
    by (simp add: send_task_to_tea_network_def send_task_internal_def get_url_def)
qed

lemma send_single_task_opens:
  assumes "can_open T H w item client d (db s)"
  shows "sent (snd (send_single_task T H (get_accounts H) item w s)) =
           sent s @ [(Some (local_keys H d), InitErrand client (t_errand_id item) (t_description_cid item))]"
proof -
  let ?addr = "storage_get [] (DelegateNetAddress w) d"
  have d: "decode T (t_client item) = Some client" "local_keys H d \<noteq> []"
    "storage_get (default_account T) (DelegateAccounts w) (t_delegator item) = d"
    using assms by (simp_all add: can_open_def storage_get_def)
  have op: "sent (snd (open_errand T H (local_keys H d) fee item w s')) = sent s' @
      [(Some (local_keys H d), InitErrand client (t_errand_id item) (t_description_cid item))]" for fee s'
    using d by (simp add: open_errand_sent)
  obtain b s1 where t: "send_task_to_tea_network H (account_of (encode T d)) (t_description_cid item)
      (t_errand_id item) ?addr s = (b, s1)" by fastforce
  have "feature_std H \<Longrightarrow> b"
    using send_task_taken [of "account_of (encode T d)" s ?addr "t_description_cid item" "t_errand_id item"] assms t
    by (simp add: can_open_def)
  with t task_sent [OF t] d op show ?thesis
    by (simp add: send_single_task_def Let_def account_to_bytes_def)
qed

text \<open>A task the node can open is opened, wherever it stands in the block, if every delegator of the block has a
  registered name.\<close>

lemma send_loop_opens:
  assumes "can_open T H w item client d (db s)" and "item \<in> set items"
    and "\<forall>i \<in> set items. contains_key (DelegateAccounts w) (t_delegator i)"
  shows "(Some (local_keys H d), InitErrand client (t_errand_id item) (t_description_cid item))
           \<in> set (drop (length (sent s)) (sent (snd (send_loop T H (get_accounts H) items w s))))"
  using assms
proof (induction items arbitrary: w s)
  case (Cons i items)
  let ?x = "(Some (local_keys H d), InitErrand client (t_errand_id item) (t_description_cid item))"
  obtain w1 s1 where p: "send_single_task T H (get_accounts H) i w s = (w1, s1)" by fastforce
  have step: "send_loop T H (get_accounts H) (i # items) w s = send_loop T H (get_accounts H) items w1 s1"
    using Cons.prems(3) p by simp
  obtain xs where xs: "sent s1 = sent s @ xs"
    using send_single_task_sent [of w i T H s] Cons.prems(3) p by fastforce
  obtain ys where ys: "sent (snd (send_loop T H (get_accounts H) items w1 s1)) = sent s1 @ ys"
    using send_loop_sent [of T H items w1 s1] by blast
  show ?case
  proof (cases "i = item")
    case True
    then have "sent s1 = sent s @ [?x]" using send_single_task_opens [OF Cons.prems(1)] p by simp
    with ys step show ?thesis by simp
  next
    case False
    have "\<forall>j \<in> set items. contains_key (DelegateAccounts w1) (t_delegator j)"
      using Cons.prems(3) send_single_task_overlay [of w T H "get_accounts H" i s] p by (auto simp: only_balances_def)
    with Cons.IH [OF can_open_send_single [OF Cons.prems(1) p]] False Cons.prems(2)
    have "?x \<in> set (drop (length (sent s1)) (sent (snd (send_loop T H (get_accounts H) items w1 s1))))" by simp
    with xs ys step show ?thesis by simp
  qed
qed simp

lemma worker_opens:
  assumes "can_open T H w item client d (db s)" and "item \<in> set (storage_get [] (Tasks w) number)"
    and "\<forall>i \<in> set (storage_get [] (Tasks w) number). contains_key (DelegateAccounts w) (t_delegator i)"
  shows "(Some (local_keys H d), InitErrand client (t_errand_id item) (t_description_cid item))
           \<in> set (drop (length (sent s)) (sent (snd (offchain_worker T H number w s))))"
proof -
  let ?s1 = "apply_delegates T H number w s"
  obtain w2 s2 where p: "send_errand_tasks T H number w ?s1 = (w2, s2)" by fastforce
  have "local_keys H d \<noteq> []" using assms(1) by (simp add: can_open_def)
  then have "can_sign H None" by (auto simp: can_sign_def keys_all local_keys_def filter_empty_conv)
  with assms(2) have "send_errand_tasks T H number w ?s1 =
      send_loop T H (get_accounts H) (storage_get [] (Tasks w) number) w ?s1"
    by (cases "contains_key (Tasks w) number") (simp_all add: send_errand_tasks_def storage_get_absent)
  moreover have "can_open T H w item client d (db ?s1)"
    using assms(1) holds_info_apply by (auto simp: can_open_def)
  ultimately have "(Some (local_keys H d), InitErrand client (t_errand_id item) (t_description_cid item))
      \<in> set (drop (length (sent ?s1)) (sent s2))" using send_loop_opens [OF _ assms(2,3)] p by (metis snd_conv)
  moreover obtain xs where "sent ?s1 = sent s @ xs" using apply_delegates_sent by blast
  moreover obtain ys where "sent (snd (offchain_worker T H number w s)) = sent s2 @ ys"
    using offchain_worker_sent_after [OF p] by blast
  moreover obtain zs where "sent s2 = sent s @ zs" using worker_sent_before [OF p] by blast
  ultimately show ?thesis by (auto dest: in_set_dropD)
qed

end

section \<open>The nodes of a task\<close>

text \<open>The node of the delegate: it has the account's key and, in a native build, the answer of the account's service,
  which takes tasks.\<close>

definition delegate_node ::
    "('a, 'c) Trait \<Rightarrow> ('a, 'p, 'd, 'n) Host \<Rightarrow> 'p \<Rightarrow> 'a \<Rightarrow> ('a, 'c) chain \<Rightarrow> ('a, 'p, 'd, 'n) Node \<Rightarrow> bool" where
  "delegate_node T H p d w s \<longleftrightarrow>
     p \<in> set (app_keys H) \<and> into_account H p = d \<and>
     (feature_std H \<longrightarrow>
        holds_info H (account_of (encode T d)) (db s) \<and> takes_tasks H (storage_get [] (DelegateNetAddress w) d))"

text \<open>A node that may update results, in a native build: the service of the delegate answers its queries as completed.\<close>

definition answers_queries :: "('a, 'p, 'd, 'n) Host \<Rightarrow> NetAddress \<Rightarrow> bool" where
  "answers_queries H addr \<longleftrightarrow> utf8_valid addr \<and>
     (\<forall>eid s. \<exists>resp s' info. http_post H (query_url (SERVICE_BASE_URL_PREFIX @ addr) eid) s = (Inr resp, s') \<and>
        json_ErrandResultInfo H resp = Inr info \<and> r_completed info)"

definition voting_node ::
    "('a, 'c) Trait \<Rightarrow> ('a, 'p, 'd, 'n) Host \<Rightarrow> 'p \<Rightarrow> 'a \<Rightarrow> ('a, 'c) chain \<Rightarrow> bool" where
  "voting_node T H q d w \<longleftrightarrow>
     feature_std H \<and> q \<in> set (app_keys H) \<and> approver T w (into_account H q) \<and>
     answers_queries H (storage_get [] (DelegateNetAddress w) d)"

lemma voting_node_ready:
  assumes "abc_trait T" and "voting_node T H q d w" and "Errands w cid = Some e" and "e_account_id e = encode T c"
    and "ClientDelegate w c = Some d" and "utf8_valid (e_errand_id e)"
  shows "ready_node T H q w cid"
proof -
  let ?addr = "storage_get [] (DelegateNetAddress w) d"
  have q: "answers_queries H ?addr" "feature_std H" "q \<in> set (app_keys H)" "approver T w (into_account H q)"
    using assms(2) by (simp_all add: voting_node_def)
  have "http_query_task_result H (e_errand_id e) ?addr s =
      http_post H (query_url (SERVICE_BASE_URL_PREFIX @ ?addr) (e_errand_id e)) s" for s
    using q(1) assms(6) by (simp add: http_query_task_result_def get_url_def answers_queries_def)
  moreover have "decode T (e_account_id e) = Some c" using assms(1,4) by (simp add: abc_trait.decode_encode)
  ultimately have "serves T H w cid"
    using q(1) assms(3,5) by (auto simp: serves_def answers_queries_def storage_get_def)
  with q show ?thesis by (simp add: ready_node_def)
qed

section \<open>From the vote to the payment\<close>

text \<open>The errand of a client in progress, with its delegate and fee on record and the payment acceptable.\<close>

definition payable ::
    "('a, 'c) Trait \<Rightarrow> ('a, 'c) chain \<Rightarrow> Cid \<Rightarrow> ErrandId \<Rightarrow> 'a \<Rightarrow> 'a \<Rightarrow> 'c \<Rightarrow> bool" where
  "payable T w cid eid c d cur \<longleftrightarrow>
     (\<exists>e fee rest. Errands w cid = Some e \<and> e_status e = Processing \<and> e_account_id e = encode T c \<and>
        e_errand_id e = eid \<and> ClientDelegate w c = Some d \<and> ClientTaskFee w c = Some fee \<and>
        repatriate_reserved T c d (unat fee) (currency w) = (Inr rest, cur))"

lemma payable_frame [simp]:
  "payable T (w\<lparr>block_number := n, events := ev\<rparr>) cid eid c d cur = payable T w cid eid c d cur"
  "payable T (voted cid' a w) cid eid c d cur = payable T w cid eid c d cur"
  by (simp_all add: payable_def)

lemma payable_in_progress: "payable T w cid eid c d cur \<Longrightarrow> fst (view w cid) = InProgress"
  by (auto simp: payable_def view_def)

text \<open>A vote on it finishes and pays it, unless it is the first one of a production chain.\<close>

lemma vote_pays:
  assumes "abc_trait T" and "approver T w a" and "payable T w cid eid c d cur"
  shows "fst (view (snd (update_errand T (Signed a) cid res w)) cid) = Finished res \<and>
           currency (snd (update_errand T (Signed a) cid res w)) = cur \<or>
         snd (update_errand T (Signed a) cid res w) = voted cid a w \<and> \<not> DevelopmentMode w \<and> votes w cid = []"
proof -
  obtain e fee rest where e: "Errands w cid = Some e" "e_status e = Processing" "e_account_id e = encode T c"
    "ClientDelegate w c = Some d" "ClientTaskFee w c = Some fee"
    "repatriate_reserved T c d (unat fee) (currency w) = (Inr rest, cur)"
    using assms(3) by (auto simp: payable_def)
  have pay: "fst (view (errand_updated T cid res w') cid) = Finished res \<and> currency (errand_updated T cid res w') = cur"
    if "w' = w \<or> w' = voted cid a w" for w'
    using that e assms(1)
    by (auto simp: errand_updated_def view_def complete_errand_def abc_trait.update_errand_result_currency
        abc_trait.decode_encode storage_get_def)
  have "length (encode T a) = 32" using assms(2) by (simp add: approver_def)
  then have "snd (update_errand T (Signed a) cid res w) =
      (if DevelopmentMode w then errand_updated T cid res w
       else if votes w cid \<noteq> [] then errand_updated T cid res (voted cid a w) else voted cid a w)"
    using assms(2) e by (simp add: update_errand_outcome)
  with pay show ?thesis by auto
qed

context joint_system
begin

lemma node_pays:
  assumes "diligent_host (Hs i)" and "abc_trait T" and "joint_reachable T Hs config S"
    and "payable T (sys_chain S) cid eid c d cur" and "voting_node T (Hs i) q d (sys_chain S)" and "utf8_valid eid"
  obtains S' res where "(node_step T Hs)\<^sup>*\<^sup>* S S'" and "fst (view (sys_chain S') cid) = Finished res"
    and "currency (sys_chain S') = cur"
proof -
  let ?a = "into_account (Hs i) q"
  have vote: "\<exists>S' res n ev. (node_step T Hs)\<^sup>*\<^sup>* S1 S' \<and>
      sys_chain S' = snd (update_errand T (Signed ?a) cid res ((sys_chain S1)\<lparr>block_number := n, events := ev\<rparr>))"
    if S1: "joint_reachable T Hs config S1" "payable T (sys_chain S1) cid eid c d cur"
      "voting_node T (Hs i) q d (sys_chain S1)" for S1
  proof -
    have "ready_node T (Hs i) q (sys_chain S1) cid"
      using S1(2) voting_node_ready [OF assms(2) S1(3)] assms(6) by (auto simp: payable_def)
    from round [OF assms(1,2) S1(1) payable_in_progress [OF S1(2)] this] show ?thesis by metis
  qed
  obtain S1 res n ev where S1: "(node_step T Hs)\<^sup>*\<^sup>* S S1" and
    c1: "sys_chain S1 = snd (update_errand T (Signed ?a) cid res ((sys_chain S)\<lparr>block_number := n, events := ev\<rparr>))"
    using vote [OF assms(3-5)] by blast
  let ?w = "(sys_chain S)\<lparr>block_number := n, events := ev\<rparr>"
  have a: "approver T ?w ?a" "payable T ?w cid eid c d cur"
    using assms(4,5) by (simp_all add: voting_node_def approver_def)
  show thesis
  proof (cases "fst (view (sys_chain S1) cid) = Finished res \<and> currency (sys_chain S1) = cur")
    case True
    with S1 that show thesis by blast
  next
    case False
    with vote_pays [OF assms(2) a] c1 have w1: "sys_chain S1 = voted cid ?a ?w" by metis
    then have v1: "voting_node T (Hs i) q d (sys_chain S1)" "payable T (sys_chain S1) cid eid c d cur"
      "votes (sys_chain S1) cid \<noteq> []"
      using assms(4,5) by (simp_all add: voting_node_def approver_def payable_def)
    obtain S2 res2 n2 ev2 where S2: "(node_step T Hs)\<^sup>*\<^sup>* S1 S2" and
      c2: "sys_chain S2 = snd (update_errand T (Signed ?a) cid res2 ((sys_chain S1)\<lparr>block_number := n2, events := ev2\<rparr>))"
      using vote [OF joint_reachable_steps [OF S1 assms(3)] v1(2,1)] by blast
    let ?w2 = "(sys_chain S1)\<lparr>block_number := n2, events := ev2\<rparr>"
    have "approver T ?w2 ?a" "payable T ?w2 cid eid c d cur" "votes ?w2 cid \<noteq> []"
      using v1 by (simp_all add: voting_node_def approver_def)
    from vote_pays [OF assms(2) this(1,2)] this(3) c2 have
      "fst (view (sys_chain S2) cid) = Finished res2" "currency (sys_chain S2) = cur" by (metis, metis)
    with rtranclp_trans [OF S1 S2] that show thesis by blast
  qed
qed

text \<open>The delegate's node opens the errand of a task that has just begun.\<close>

lemma node_opens:
  assumes "diligent_host (Hs i)" and "joint_reachable T Hs config S"
    and "can_open T (Hs i) (sys_chain S) item c d (db (sys_nodes S i))" and "item \<in> set (block_tasks (sys_chain S))"
    and "\<forall>t \<in> set (block_tasks (sys_chain S)). contains_key (DelegateAccounts (sys_chain S)) (t_delegator t)"
    and "ClientDelegate (sys_chain S) c = Some d"
  obtains S' where "(node_step T Hs)\<^sup>*\<^sup>* S S'"
    and "sys_chain S' = errand_inited T c (t_errand_id item) (t_description_cid item) (sys_chain S)"
proof -
  have prov: "sys_chain S \<in> set (sys_past S)" using provenance_reachable [OF assms(2)] by (simp add: provenance_def)
  have "local_keys (Hs i) d \<noteq> []" using assms(3) by (simp add: can_open_def)
  then obtain p where p: "p \<in> set (local_keys (Hs i) d)" by (metis hd_in_set)
  then have "p \<in> set (signer_keys (Hs i) (Some (local_keys (Hs i) d)))" "into_account (Hs i) p = d"
    using offchain_host.keys_filter [OF hosts] by (simp_all add: local_keys_def)
  note p = this
  obtain S' where "(node_step T Hs)\<^sup>*\<^sup>* S S'" "sys_chain S' =
      snd (dispatch T (Signed (into_account (Hs i) p)) (InitErrand c (t_errand_id item) (t_description_cid item)) (sys_chain S))"
    by (rule worker_call [OF orderly_reachable [OF assms(2)] prov diligent_host.worker_opens [OF assms(1,3-5)] p(1)])
  with p(2) assms(6) show thesis by (intro that [of S']) (simp_all add: init_errand_outcome)
qed

end

section \<open>Properties\<close>


text \<open>Bob's node asks his service and confirms him; alice begins a task with him, and her node votes.\<close>

definition journey_hosts :: "bool \<Rightarrow> (AccountId32, AccountId32, map_db, bytes) Host" where
  "journey_hosts i = ref_host True [if i then bob else alice]"

definition journey_applied :: demo_system where
  "journey_applied = run_others [(Signed bob, RequestDelegate demo_name [49])]
     \<lparr>sys_chain = demo_start, sys_past = [demo_start], sys_nodes = (\<lambda>_. demo_node), sys_included = {},
      sys_heard = {}, sys_hand = {}\<rparr>"

definition journey_node :: "(AccountId32, AccountId32, map_db, bytes) Node" where
  "journey_node = snd (offchain_worker ref_trait (journey_hosts True) (block_number demo_applied) demo_applied demo_node)"

definition journey_ready :: demo_system where
  "journey_ready = run_others [(Signed bob, UpdateDelegateStatus bob)] (work ref_trait journey_hosts True demo_applied journey_applied)"

lemma journey_ready_simps:
  "sys_chain journey_applied = demo_applied" "sys_nodes journey_applied True = demo_node"
  "sys_chain journey_ready = demo_ready" "sys_nodes journey_ready True = journey_node"
  by (simp_all add: journey_ready_def journey_applied_def journey_node_def demo_applied_def demo_ready_def)

lemma journey_ready_reachable: "joint_reachable ref_trait journey_hosts prod_config journey_ready"
proof -
  have "fresh_node (journey_hosts i) demo_node" for i by (cases i) code_simp+
  then have "joint_reachable ref_trait journey_hosts prod_config
      \<lparr>sys_chain = demo_start, sys_past = [demo_start], sys_nodes = (\<lambda>_. demo_node), sys_included = {},
      sys_heard = {}, sys_hand = {}\<rparr>"
    unfolding demo_start_def by (intro joint_reachable.start) blast
  then have a: "joint_reachable ref_trait journey_hosts prod_config journey_applied"
    unfolding journey_applied_def by (rule run_others_reachable) simp
  have "sys_chain journey_applied \<in> set (sys_past journey_applied)"
    unfolding journey_applied_def by (rule run_others_past) simp
  from joint_reachable_node [OF a node_step.worker [OF this, of ref_trait journey_hosts True]]
  have "joint_reachable ref_trait journey_hosts prod_config (work ref_trait journey_hosts True demo_applied journey_applied)"
    by (simp add: journey_ready_simps)
  then show ?thesis unfolding journey_ready_def by (rule run_others_reachable) simp
qed

lemma ref_host_posts:
  assumes "utf8_valid []"
  shows "\<exists>s'. http_post (ref_host std keys) url s = (Inr [], s')"
  using assms by (simp add: http_post_def parse_response_def Let_def ref_host_def)

lemma journey_services:
  "takes_tasks (journey_hosts i) [49]" "answers_queries (journey_hosts i) [49]"
proof -
  have "utf8_valid [49]" "utf8_valid []" by code_simp+
  moreover have "json_ErrandResultInfo (journey_hosts i) [] = Inr demo_result" "r_completed demo_result"
    by (simp_all add: journey_hosts_def ref_host_def demo_result_def)
  ultimately show "takes_tasks (journey_hosts i) [49]" "answers_queries (journey_hosts i) [49]"
    using ref_host_posts unfolding takes_tasks_def answers_queries_def journey_hosts_def by metis+
qed


text \<open>
  C27: task ids are text of random UUIDs, and they are what the worker opens errands with. In every reachable state every
  task on record has as its id the 36 characters of a version 4 UUID; each call of the worker that opens
  an errand carries such an id, which is a Rust string, so that the requests made with it are
  never refused for their encoding.
\<close>

theorem errand_ids_are_uuids:
  assumes "uuid_crate T" and "reachable T config w"
  shows "(\<forall>b. \<forall>t \<in> set (storage_get [] (Tasks w) b). uuid_v4_text (t_errand_id t)) \<and>
         (\<forall>f client eid cid.
            (f, InitErrand client eid cid) \<in> set (drop (length (sent s)) (sent (snd (send_errand_tasks T H number w s)))) \<longrightarrow>
            uuid_v4_text eid \<and> from_utf8 eid = Inr eid)"
proof -
  have inv: "id_inv w" by (rule uuid_crate.id_inv_reachable [OF assms])
  obtain calls where "sent (snd (send_errand_tasks T H number w s)) = sent s @ calls"
    "\<forall>x \<in> set calls. \<exists>item \<in> set (storage_get [] (Tasks w) number). task_call T H w item x"
    using send_errand_tasks_sent by blast
  then show ?thesis using id_inv_block [OF inv] uuid_v4_valid by (fastforce simp: task_call_def)
qed

theorem errand_ids_are_uuids_witness:
  "let calls = sent (snd (send_errand_tasks ref_trait (ref_host True [bob]) 0 demo_begun demo_asked));
       eid = ascii ''02020202-0202-4202-8202-020202020202''
   in calls = [(Some [bob], InitErrand alice eid demo_cid)] \<and> uuid_v4_text eid"
proof -
  let ?calls = "sent (snd (send_errand_tasks ref_trait (ref_host True [bob]) 0 demo_begun demo_asked))"
  let ?eid = "ascii ''02020202-0202-4202-8202-020202020202''"
  have c: "?calls = [(Some [bob], InitErrand alice ?eid demo_cid)]" "sent demo_asked = []" by code_simp+
  then have "(Some [bob], InitErrand alice ?eid demo_cid) \<in> set (drop (length (sent demo_asked)) ?calls)" by simp
  with errand_ids_are_uuids [OF ref_uuid.uuid_crate_axioms demo_reachable(3), of demo_asked "ref_host True [bob]" 0]
  have "uuid_v4_text ?eid" by blast
  with c(1) show ?thesis by (simp add: Let_def)
qed

end
