(* ===== verification/Delegate_Journey.thy ===== *)
theory Delegate_Journey
  imports Task_Journey
begin

text \<open>
  A delegate from its request to its readiness: \<^verbatim>\<open>request_delegate\<close> on the chain, the worker of its node asking the
  service, and the confirmation. At the end the node holds what theory \<open>Task_Journey\<close> asks of the node of a
  delegate. The last section is about money in the joint system.
\<close>

section \<open>Asking the service\<close>

text \<open>A service that answers every application sent to its address with a delegate info.\<close>

definition answers_applications :: "('a, 'p, 'd, 'n) Host \<Rightarrow> NetAddress \<Rightarrow> bool" where
  "answers_applications H addr \<longleftrightarrow> utf8_valid addr \<and>
     (\<forall>account. \<exists>buf. prost_encode H \<lparr>layer1_account = display_account H account, nonce = []\<rparr> = Inr buf \<and>
        (\<forall>s. \<exists>resp s' info.
           http_post H (delegate_request_url (SERVICE_BASE_URL_PREFIX @ addr) (base64_encode H buf)) s = (Inr resp, s') \<and>
           json_DelegateInfo H resp = Inr info))"

context diligent_host
begin

lemma request_answered:
  assumes "answers_applications H addr" and "lock_free (lock_get H (client_lock_key (display_account H a)) (db s))"
  obtains s' where "request_single_delegate H a addr s = (True, s')"
proof -
  let ?c = "display_account H a"
  from assms(1) obtain buf resp s1 info where
    p: "prost_encode H \<lparr>layer1_account = ?c, nonce = []\<rparr> = Inr buf"
      "http_post H (delegate_request_url (SERVICE_BASE_URL_PREFIX @ addr) (base64_encode H buf)) s = (Inr resp, s1)"
      "json_DelegateInfo H resp = Inr info" "utf8_valid addr"
    unfolding answers_applications_def by metis
  have "db s1 = db s" using http_post_frame(1) [of H _ s] p(2) by (metis snd_conv)
  with assms(2) have "lock_free (lock_get H (client_lock_key ?c) (db s1))" by simp
  from operate_free [OF this, of "\<lambda>key d. ((), info_set H key info d)" "client_key ?c"] obtain d' where
    "save_delegate_info H ?c info s1 = (Inr (), s1\<lparr>db := d'\<rparr>)"
    by (auto simp: save_delegate_info_def on_db_def)
  with p http_post_valid [OF p(2)] show thesis
    by (intro that [of "s1\<lparr>db := d'\<rparr>"])
      (simp add: request_single_delegate_def get_url_def encode_protobuf_def parse_delegate_response_def Let_def)
qed

text \<open>An application whose service answers is confirmed, wherever it stands in the list of its block.\<close>

lemma apply_loop_confirms:
  assumes "(n, d) \<in> set accs" and "local_keys H d \<noteq> []" and "length (encode T d) = 32"
    and "feature_std H \<Longrightarrow> answers_applications H (storage_get [] (DelegateNetAddress w) d)"
    and "feature_std H \<Longrightarrow> lock_free (lock_get H (client_lock_key (display_account H (account_of (encode T d)))) (db s))"
  shows "(Some (local_keys H d), UpdateDelegateStatus d)
           \<in> set (drop (length (sent s)) (sent (apply_loop T H (get_accounts H) accs w s)))"
  using assms(1,5)
proof (induction accs arbitrary: s)
  case (Cons acc accs)
  let ?x = "(Some (local_keys H d), UpdateDelegateStatus d)" and ?k = "client_lock_key (display_account H (account_of (encode T d)))"
  show ?case
  proof (cases "local_keys H (snd acc) = []")
    case True
    with assms(2) Cons show ?thesis by (auto simp: Let_def)
  next
    case False
    obtain r s1 where p: "apply_single_delegate T H (snd acc) w s = (r, s1)" by fastforce
    then have s1: "sent s1 = sent s" using apply_single_delegate_sent by (metis snd_conv)
    let ?call = "case r of Inl e \<Rightarrow> Unreserve (fst acc) (snd acc) | Inr _ \<Rightarrow> UpdateDelegateStatus (snd acc)"
    let ?s2 = "snd (send_signed_transaction H (Some (local_keys H (snd acc))) ?call s1)"
    have step: "apply_loop T H (get_accounts H) (acc # accs) w s = apply_loop T H (get_accounts H) accs w ?s2"
      using False p by (cases r) (simp_all add: Let_def)
    obtain calls where calls: "sent (apply_loop T H (get_accounts H) accs w ?s2) = sent ?s2 @ calls"
      using apply_loop_sent by blast
    show ?thesis
    proof (cases "snd acc = d")
      case True
      have "r = Inr ()"
      proof (cases "feature_std H")
        case std: True
        obtain s' where "request_single_delegate H (account_of (encode T d)) (storage_get [] (DelegateNetAddress w) d) s = (True, s')"
          by (rule request_answered [OF assms(4) [OF std] Cons.prems(2) [OF std]])
        with std p True assms(3) show ?thesis by (simp add: apply_single_delegate_def account_to_bytes_def)
      qed (use p True assms(3) in \<open>simp add: apply_single_delegate_def account_to_bytes_def\<close>)
      with True s1 calls step show ?thesis by simp
    next
      case other: False
      have "lock_free (lock_get H ?k (db ?s2))" if "feature_std H"
      proof -
        have "worker_lock H ?k" by (auto simp: worker_lock_def)
        from request_single_delegate_locks [OF this Cons.prems(2) [OF that]] Cons.prems(2) [OF that]
        have "lock_free (lock_get H ?k (db (snd (apply_single_delegate T H (snd acc) w s))))"
          by (auto simp: apply_single_delegate_def Let_def split: sum.split prod.split bool.split) (metis snd_conv)+
        with p show ?thesis by simp
      qed
      with Cons.IH [of ?s2] Cons.prems(1) other have
        "?x \<in> set (drop (length (sent ?s2)) (sent (apply_loop T H (get_accounts H) accs w ?s2)))" by fastforce
      with s1 calls step show ?thesis by simp
    qed
  qed
qed simp

end

section \<open>What the worker keeps\<close>

context offchain_host
begin

lemma has_info_frame:
  "has_info H b (lock_set H LOCAL_STORAGE_TASKS_RESULTS_LOCK v dt) = has_info H b dt"
  "has_info H b (results_set H LOCAL_STORAGE_TASKS_RESULTS_KEY rs dt) = has_info H b dt"
  by (simp_all add: has_info_def info_get_lock info_get_results)

lemma fetch_keeps_info:
  assumes "has_info H b (db s)"
  shows "has_info H b (db (snd (fetch_single_task_result H eid cid addr s)))"
proof -
  have op: "has_info H b (snd (operate_local_storage H LOCAL_STORAGE_TASKS_RESULTS_KEY LOCAL_STORAGE_TASKS_RESULTS_LOCK
      (append_result H cid info) dt))" if "has_info H b dt" for info dt
    by (rule operate_db_keeps) (use that in \<open>auto simp: append_result_def has_info_frame split: option.splits\<close>)
  show ?thesis
    unfolding fetch_single_task_result_node fetch_errand_result_info_def
    by (intro and_then_keeps [where P = "\<lambda>s'. has_info H b (db s')"])
      (use assms op in \<open>auto simp: http_query_frame split: sum.split
         intro: and_then_keeps [where P = "\<lambda>s'. has_info H b (db s')"]\<close>)
qed

lemma query_loop_keeps_info: "has_info H b (db s) \<Longrightarrow> has_info H b (db (query_loop T H items w s))"
  by (induction items arbitrary: s) (auto simp: Let_def fetch_keeps_info split: option.split)

lemma report_keeps_info:
  assumes "has_info H b (db s)"
  shows "has_info H b (db (snd (load_tasks_results_info H f s)))"
proof -
  obtain r s' where p: "load_tasks_results_info H f s = (r, s')" by fastforce
  from load_tasks_results_info_outcome [OF p] assms p show ?thesis by (cases r) (auto simp: has_info_frame)
qed

lemma send_loop_keeps_info:
  "has_info H b (db s) \<Longrightarrow> lock_free (lock_get H (client_lock_key (display_account H b)) (db s)) \<Longrightarrow>
   has_info H b (db (snd (send_loop T H ids items w s)))"
proof (induction items arbitrary: w s)
  case (Cons item items)
  obtain w1 s1 where p: "send_single_task T H ids item w s = (w1, s1)" by fastforce
  with holds_info_send_single [of b s T ids item w] Cons.prems have "holds_info H b (db s1)" by (simp add: holds_info_def)
  with Cons p show ?case by (simp add: holds_info_def)
qed simp

text \<open>What a node holds after confirming an account it still holds at the end of the worker.\<close>

lemma worker_holds_info:
  assumes "holds_info H b (db (apply_delegates T H number w s))"
  shows "holds_info H b (db (snd (offchain_worker T H number w s)))"
proof -
  let ?k = "client_lock_key (display_account H b)" and ?s1 = "apply_delegates T H number w s"
  have k: "worker_lock H ?k" by (auto simp: worker_lock_def)
  obtain w2 s2 where p: "send_errand_tasks T H number w ?s1 = (w2, s2)" by fastforce
  have free: "lock_free (lock_get H ?k (db ?s1))" and i1: "has_info H b (db ?s1)"
    using assms by (simp_all add: holds_info_def)
  have "has_info H b (db (snd (send_errand_tasks T H number w ?s1)))"
    using i1 free by (auto simp: send_errand_tasks_def intro: send_loop_keeps_info)
  with p have i2: "has_info H b (db s2)" by simp
  have "lock_free (lock_get H ?k (db (snd (send_errand_tasks T H number w ?s1))))"
    using free by (simp add: send_errand_tasks_def send_loop_locks)
  with p have f2: "lock_free (lock_get H ?k (db s2))" by simp
  let ?s3 = "query_errand_task_results T H number w2 s2"
  have "has_info H b (db ?s3)" "lock_free (lock_get H ?k (db ?s3))"
    using i2 f2 k by (simp_all add: query_errand_task_results_def Let_def query_loop_keeps_info query_loop_locks)
  then have "has_info H b (db (update_errand_task_results T H number w2 ?s3))"
    "lock_free (lock_get H ?k (db (update_errand_task_results T H number w2 ?s3)))"
    using k by (simp_all add: update_errand_task_results_def report_keeps_info load_tasks_results_info_locks)
  with p show ?thesis by (simp add: offchain_worker_def Let_def holds_info_def)
qed

end

context diligent_host
begin

lemma worker_confirms:
  assumes "(n, d) \<in> set (storage_get [] (DelegatesApplys w) number)" and "local_keys H d \<noteq> []"
    and "length (encode T d) = 32"
    and "feature_std H \<Longrightarrow> answers_applications H (storage_get [] (DelegateNetAddress w) d)"
    and "feature_std H \<Longrightarrow> lock_free (lock_get H (client_lock_key (display_account H (account_of (encode T d)))) (db s))"
  shows "(Some (local_keys H d), UpdateDelegateStatus d)
           \<in> set (drop (length (sent s)) (sent (snd (offchain_worker T H number w s))))"
    and "feature_std H \<Longrightarrow> holds_info H (account_of (encode T d)) (db (snd (offchain_worker T H number w s)))"
proof -
  let ?x = "(Some (local_keys H d), UpdateDelegateStatus d)" and ?a = "account_of (encode T d)"
  let ?s1 = "apply_delegates T H number w s"
  have "can_sign H None" using assms(2) by (auto simp: can_sign_def keys_all local_keys_def filter_empty_conv)
  with assms(1) have e: "?s1 = apply_loop T H (get_accounts H) (storage_get [] (DelegatesApplys w) number) w s"
    by (cases "contains_key (DelegatesApplys w) number") (simp_all add: apply_delegates_def storage_get_absent)
  have x: "?x \<in> set (drop (length (sent s)) (sent ?s1))"
    unfolding e by (rule apply_loop_confirms [OF assms]) assumption+
  obtain w2 s2 where p: "send_errand_tasks T H number w ?s1 = (w2, s2)" by fastforce
  obtain xs where "sent s2 = sent ?s1 @ xs"
    using send_errand_tasks_sent [of T H number w ?s1] p by auto
  moreover obtain ys where "sent (snd (offchain_worker T H number w s)) = sent s2 @ ys"
    using offchain_worker_sent_after [OF p] by blast
  ultimately show "?x \<in> set (drop (length (sent s)) (sent (snd (offchain_worker T H number w s))))"
    using x by (auto dest: in_set_dropD)
  show "holds_info H ?a (db (snd (offchain_worker T H number w s)))" if std: "feature_std H"
  proof (rule worker_holds_info)
    have "has_info H ?a (db ?s1)"
      using apply_loop_info [OF std, of s "sent s" "[]" T] x e by simp
    moreover have "worker_lock H (client_lock_key (display_account H ?a))" by (auto simp: worker_lock_def)
    then have "lock_free (lock_get H (client_lock_key (display_account H ?a)) (db ?s1))"
      unfolding e by (rule apply_loop_locks) (rule assms(5) [OF std])
    ultimately show "holds_info H ?a (db ?s1)" by (simp add: holds_info_def)
  qed
qed

end

section \<open>Money needs an answer\<close>

text \<open>How far a reserve can fall by the payment for an errand: by the fee on record, or, where that closes the account, to
  nothing.\<close>

definition fee_bounded :: "('a, 'c) Trait \<Rightarrow> ('a, 'c) chain \<Rightarrow> ('a, 'c) chain \<Rightarrow> 'a \<Rightarrow> bool" where
  "fee_bounded T w w' a \<longleftrightarrow>
     reserved_balance T (currency w) a \<le> reserved_balance T (currency w') a + unat (storage_get 0 (ClientTaskFee w) a) \<or>
     closed T w' a \<and> account_funds T w a < unat (storage_get 0 (ClientTaskFee w) a) + minimum_balance T"

text \<open>A call that lowers a reserve finishes an errand of the account with the result it votes for.\<close>

lemma reserve_vote:
  assumes "abc_trait T"
    and "reserved_balance T (currency (snd (dispatch T origin call w))) a < reserved_balance T (currency w) a"
  obtains s cid res e where "origin = Signed s" and "approver T w s" and "call = UpdateErrand cid res"
    and "Errands w cid = Some e" and "decode T (e_account_id e) = Some a"
    and "fst (view (snd (dispatch T origin call w)) cid) = Finished res"
    and "fee_bounded T w (snd (dispatch T origin call w)) a"
proof -
  from abc_trait.held_drop [OF assms] obtain s cid res e where h: "origin = Signed s" "approver T w s"
    "call = UpdateErrand cid res" "Errands w cid = Some e" "decode T (e_account_id e) = Some a"
    and f: "fee_bounded T w (snd (dispatch T origin call w)) a"
    by (auto simp: votes_for_def fee_bounded_def)
  have "fst (view (snd (update_errand T origin cid res w)) cid) = Finished res"
    using assms(2) h(3,4)
    by (cases rule: update_errand_cases [of T origin cid res w])
      (auto simp: view_def errand_updated_def complete_errand_def)
  with h f that show thesis by simp
qed

section \<open>Properties\<close>


text \<open>Bob's request on the chain of the journey, with his node as it was started.\<close>

definition journey_start :: demo_system where
  "journey_start = \<lparr>sys_chain = demo_start, sys_past = [demo_start], sys_nodes = (\<lambda>_. demo_node), sys_included = {},
      sys_heard = {}, sys_hand = {}\<rparr>"

lemma journey_start_reachable: "joint_reachable ref_trait journey_hosts prod_config journey_start"
proof -
  have "fresh_node (journey_hosts i) demo_node" for i by (cases i) code_simp+
  then show ?thesis unfolding journey_start_def demo_start_def by (intro joint_reachable.start) blast
qed

lemma journey_applications: "answers_applications (journey_hosts i) [49]"
proof -
  have "utf8_valid [49]" "utf8_valid []" by code_simp+
  moreover have "json_DelegateInfo (journey_hosts i) [] = Inr demo_info"
    "prost_encode (journey_hosts i) msg = Inr (layer1_account msg)" for msg
    by (simp_all add: journey_hosts_def ref_host_def)
  ultimately show ?thesis
    using ref_host_posts unfolding answers_applications_def journey_hosts_def by metis
qed


text \<open>
  C11: no payment without an answer or a vote signed by hand. Whatever step of the joint system lowers the reserve of an
  account, the other pallets' own changes apart, is one that finishes an errand of that account. Either its result is one
  that the worker of a node that may update results heard from the delegate's service as completed, while it ran on a state
  of the chain with the errand in progress; or the step is a vote that an account that may update results signs by hand. The
  reserve falls by at most the fee on record, unless the payment leaves the account below the minimum balance and so nothing.
\<close>

theorem payment_needs_answer:
  assumes "\<forall>k. offchain_host (Hs k)" and "abc_trait T" and "joint_reachable T Hs config S" and "joint_step T Hs S S'"
    and "reserved_balance T (currency (sys_chain S')) a < reserved_balance T (currency (sys_chain S)) a"
    and own: "\<forall>ix seed cur. sys_chain S' \<noteq> (sys_chain S)\<lparr>extrinsic_index := ix, random_seed := seed, currency := cur\<rparr>"
  shows "\<exists>cid res e. Errands (sys_chain S) cid = Some e \<and> decode T (e_account_id e) = Some a \<and>
           fst (view (sys_chain S') cid) = Finished res \<and> fee_bounded T (sys_chain S) (sys_chain S') a \<and>
           ((\<exists>k w info. w \<in> set (sys_past S) \<and> cid \<in> set (ProcessingErrands w) \<and>
               allow_to_update_result (get_account_ids T (Hs k)) w \<and>
               answered T (Hs k) w (heard_by S k w) cid (cid, info) \<and> res = r_result_cid info) \<or>
            (\<exists>s. approver T (sys_chain S) s \<and> S' = hand_vote T s cid res S))"
proof -
  have J: "joint_system Hs" using assms(1) by (simp add: joint_system_def)
  have prov: "provenance T Hs config S" by (rule joint_system.provenance_reachable [OF J assms(3)])
  have answer: "\<exists>k w info. w \<in> set (sys_past S) \<and> cid \<in> set (ProcessingErrands w) \<and>
      allow_to_update_result (get_account_ids T (Hs k)) w \<and>
      answered T (Hs k) w (heard_by S k w) cid (cid, info) \<and> res = r_result_cid info"
    if "vouched T Hs S (cid, res)" for cid res
  proof -
    from that obtain k w item info where v: "w \<in> set (sys_past S)" "item \<in> set (ProcessingErrands w)"
      "allow_to_update_result (get_account_ids T (Hs k)) w" "answered T (Hs k) w (heard_by S k w) item (cid, info)"
      "res = r_result_cid info"
      unfolding vouched_def by auto
    have "errand_inv T w" using prov v(1) errand.inv_reachable by (auto simp: provenance_def)
    with v(4) have "item = cid" by (auto simp: errand_inv_def answered_def)
    with v show ?thesis by blast
  qed
  from assms(4) show ?thesis
  proof cases
    case automatic
    then show ?thesis
    proof cases
      case (included n i p)
      let ?origin = "Signed (into_account (Hs i) p)" and ?call = "snd (sent (sys_nodes S i) ! n)"
      have c: "sys_chain S' = snd (dispatch T ?origin ?call (sys_chain S))" by (simp add: included(1))
      from reserve_vote [OF assms(2,5) [unfolded c]] obtain cid res e where
        h: "?call = UpdateErrand cid res" "Errands (sys_chain S) cid = Some e" "decode T (e_account_id e) = Some a"
          "fst (view (sys_chain S') cid) = Finished res" "fee_bounded T (sys_chain S) (sys_chain S') a"
        unfolding c by metis
      from answer [OF joint_system.sent_vouched [OF J prov included(2) h(1)]] h(2-5) show ?thesis by blast
    next
      case (other origin call)
      have c: "sys_chain S' = snd (dispatch T origin call (sys_chain S))" by (simp add: other(1))
      from reserve_vote [OF assms(2,5) [unfolded c]] have "by_hand T (sys_chain S) origin call"
        unfolding by_hand_def by metis
      with other(2) show ?thesis by simp
    next
      case (pallets cur seed ix)
      then have "sys_chain S' = (sys_chain S)\<lparr>extrinsic_index := ix, random_seed := seed, currency := cur\<rparr>" by simp
      with own show ?thesis by blast
    qed (use assms(5) in \<open>simp_all add: new_block_def\<close>)
  next
    case (hand s cid res)
    have c: "sys_chain S' = snd (dispatch T (Signed s) (UpdateErrand cid res) (sys_chain S))" by (simp add: hand(1))
    from reserve_vote [OF assms(2,5) [unfolded c]] obtain e where
      "Errands (sys_chain S) cid = Some e" "decode T (e_account_id e) = Some a"
      "fst (view (sys_chain S') cid) = Finished res" "fee_bounded T (sys_chain S) (sys_chain S') a"
      unfolding c by (metis Call.inject(5))
    with hand show ?thesis by blast
  qed
qed

theorem payment_needs_answer_witness:
  "reserved_balance ref_trait (currency (sys_chain demo_half_settled)) alice = 40 \<and>
   reserved_balance ref_trait (currency (sys_chain demo_settled)) alice = 0 \<and>
   (\<exists>cid res. fst (view (sys_chain demo_settled) cid) = Finished res \<and>
      (\<exists>k w info. w \<in> set (sys_past demo_half_settled) \<and>
         answered ref_trait (demo_hosts k) w (heard_by demo_half_settled k w) cid (cid, info) \<and>
         res = r_result_cid info))"
proof -
  have hosts: "\<forall>i. offchain_host (demo_hosts i)" by (simp add: demo_hosts_def host.offchain_host_axioms)
  let ?half = "run_extrinsics ref_trait [(Signed alice, UpdateErrand demo_cid [7])] demo_inited"
  let ?full = "run_extrinsics ref_trait [(Signed alice, UpdateErrand demo_cid [7]), (Signed carol, UpdateErrand demo_cid [7])] demo_inited"
  have "reserved_balance ref_trait (currency ?half) alice = 40" "reserved_balance ref_trait (currency ?full) alice = 0"
    "ProcessingErrands ?half = [demo_cid]" "ProcessingErrands ?full = []" by code_simp+
  note c = this [folded demo_settled_chain]
  have own: "\<forall>ix seed cur. sys_chain demo_settled \<noteq>
      (sys_chain demo_half_settled)\<lparr>extrinsic_index := ix, random_seed := seed, currency := cur\<rparr>"
  proof (intro allI notI)
    fix ix seed cur
    assume "sys_chain demo_settled =
      (sys_chain demo_half_settled)\<lparr>extrinsic_index := ix, random_seed := seed, currency := cur\<rparr>"
    then have "ProcessingErrands (sys_chain demo_settled) = ProcessingErrands (sys_chain demo_half_settled)" by simp
    with c(3,4) show False by simp
  qed
  have step: "joint_step ref_trait demo_hosts demo_half_settled demo_settled"
    by (rule joint_step.automatic [OF demo_settled_reachable(2)])
  have "sys_hand demo_settled = {}" by (rule demo_settled_hand)
  then have no_hand: "demo_settled \<noteq> hand_vote ref_trait s cid res demo_half_settled" for s cid res
    by (metis empty_not_insert extrinsic_simps(12))
  have "reserved_balance ref_trait (currency (sys_chain demo_settled)) alice <
      reserved_balance ref_trait (currency (sys_chain demo_half_settled)) alice" using c(1,2) by simp
  from payment_needs_answer [OF hosts rt.abc_trait_axioms demo_settled_reachable(1) step this own] no_hand c(1,2)
  show ?thesis by blast
qed

end
