(* ===== verification/Net_Address.thy ===== *)
theory Net_Address
  imports Delegate_Client
begin

text \<open>
  The strings of the off-chain part against Unicode: \<open>utf8_char\<close> is the encoding of a Unicode scalar value
  as the standard defines it, arithmetically; the byte-wise validation of \<open>Rust_Strings\<close> accepts exactly the
  sequences of encoded scalar values, and so does \<^verbatim>\<open>get_url\<close> of \<^verbatim>\<open>pallets/abc-demo/src/delegate.rs\<close> with
  a net address, which is any bytes an account sent.
\<close>

section \<open>Scalar values and their encoding\<close>

definition scalar_value :: "nat \<Rightarrow> bool" where
  "scalar_value c \<longleftrightarrow> c < 0xD800 \<or> 0xE000 \<le> c \<and> c < 0x110000"

definition trail :: "nat \<Rightarrow> u8" where
  "trail c = of_nat (0x80 + c mod 64)"

definition utf8_char :: "nat \<Rightarrow> bytes" where
  "utf8_char c =
     (if c < 0x80 then [of_nat c]
      else if c < 0x800 then [of_nat (0xC0 + c div 64), trail c]
      else if c < 0x10000 then [of_nat (0xE0 + c div 4096), trail (c div 64), trail c]
      else [of_nat (0xF0 + c div 262144), trail (c div 4096), trail (c div 64), trail c])"

definition utf8_encode :: "nat list \<Rightarrow> bytes" where
  "utf8_encode cs = concat (map utf8_char cs)"

section \<open>Bytes as numbers\<close>

lemma unat_byte: "n < 256 \<Longrightarrow> unat (of_nat n :: u8) = n"
  by (simp add: unat_of_nat)

lemmas byte_nat = word_le_nat_alt word_less_nat_alt word_unat_eq_iff

lemma unat_trail [simp]: "unat (trail c) = 128 + c mod 64"
proof -
  have "128 + c mod 64 < 256" by (rule less_trans [of _ "128 + 64"]) simp_all
  then show ?thesis by (simp add: trail_def unat_byte del: of_nat_add)
qed

lemma cont_byte_nat: "cont_byte b \<longleftrightarrow> 128 \<le> unat b \<and> unat b \<le> 191"
  by (simp add: cont_byte_def byte_nat)

lemma cont_byte_trail [simp]: "cont_byte (trail c)"
proof -
  have "c mod 64 < 64" by simp
  then show ?thesis by (simp add: cont_byte_nat)
qed

lemma cont_byte_is_trail: "cont_byte b \<longleftrightarrow> b = trail (unat b - 128) \<and> 128 \<le> unat b \<and> unat b < 192"
  by (auto simp: cont_byte_nat word_unat_eq_iff)

lemma utf8_width_nat:
  "utf8_width a =
     (if unat a < 128 then Some 1
      else if 194 \<le> unat a \<and> unat a \<le> 223 then Some 2
      else if 224 \<le> unat a \<and> unat a \<le> 239 then Some 3
      else if 240 \<le> unat a \<and> unat a \<le> 244 then Some 4
      else None)"
  by (simp add: utf8_width_def byte_nat)

lemma second_byte_nat:
  "second_of_three a b \<longleftrightarrow> cont_byte b \<and> (unat a = 224 \<longrightarrow> 160 \<le> unat b) \<and> (unat a = 237 \<longrightarrow> unat b \<le> 159)"
  "second_of_four a b \<longleftrightarrow> cont_byte b \<and> (unat a = 240 \<longrightarrow> 144 \<le> unat b) \<and> (unat a = 244 \<longrightarrow> unat b \<le> 143)"
  by (auto simp: second_of_three_def second_of_four_def cont_byte_nat byte_nat)

text \<open>A number in digits to the base 64.\<close>

lemma digit: "(q * 64 + r) mod 64 = r" "(q * 64 + r) div 64 = q" if "r < 64" for q r :: nat
  using that by simp_all

lemma digits:
  fixes c :: nat
  assumes "c = ((u * 64 + t) * 64 + s) * 64 + r" and "r < 64" and "s < 64" and "t < 64"
  shows "c mod 64 = r" "c div 64 = (u * 64 + t) * 64 + s" "c div 64 mod 64 = s"
    "c div 4096 = u * 64 + t" "c div 4096 mod 64 = t" "c div 262144 = u"
proof -
  show d1: "c mod 64 = r" "c div 64 = (u * 64 + t) * 64 + s"
    using assms(1) digit [OF assms(2), of "(u * 64 + t) * 64 + s"] by (simp_all only:)
  show "c div 64 mod 64 = s" using d1(2) digit [OF assms(3), of "u * 64 + t"] by (simp only:)
  have "c div 4096 = c div 64 div 64" by (simp add: div_mult2_eq [symmetric])
  then show d2: "c div 4096 = u * 64 + t" using d1(2) digit [OF assms(3), of "u * 64 + t"] by (simp only:)
  show "c div 4096 mod 64 = t" using d2 digit [OF assms(4), of u] by (simp only:)
  have "c div 262144 = c div 4096 div 64" by (simp add: div_mult2_eq [symmetric])
  then show "c div 262144 = u" using d2 digit [OF assms(4), of u] by (simp only:)
qed

lemma digitsE:
  fixes c :: nat
  obtains u t s r where "c = ((u * 64 + t) * 64 + s) * 64 + r" and "r < 64" and "s < 64" and "t < 64"
proof -
  have "c = (((c div 64 div 64 div 64) * 64 + c div 64 div 64 mod 64) * 64 + c div 64 mod 64) * 64 + c mod 64"
    by (simp only: div_mult_mod_eq)
  then show thesis by (rule that) simp_all
qed

section \<open>Validation is decoding\<close>

lemma utf8_valid_char:
  assumes "scalar_value c"
  shows "utf8_valid (utf8_char c @ bs) = utf8_valid bs"
proof -
  obtain u t s r where c: "c = ((u * 64 + t) * 64 + s) * 64 + r" and lt: "r < 64" "s < 64" "t < 64"
    by (rule digitsE)
  note d = digits(1,3-6) [OF c lt]
  note q = digits(2) [OF c lt]
  have c': "c = 262144 * u + 4096 * t + 64 * s + r" using c by simp
  consider "c < 128" | "128 \<le> c" "c < 2048" | "2048 \<le> c" "c < 65536" | "65536 \<le> c" by linarith
  then show ?thesis
  proof cases
    case 1
    then have "unat (of_nat c :: u8) = c" by (simp add: unat_byte)
    with 1 show ?thesis by (simp add: utf8_char_def utf8_width_nat)
  next
    case 2
    then have ut: "u = 0" "t = 0" using c' by linarith+
    with 2 c' lt have "2 \<le> s" "s < 32" by linarith+
    with q ut have "unat (of_nat (192 + c div 64) :: u8) = 192 + s" by (subst unat_byte) simp_all
    with 2 \<open>2 \<le> s\<close> \<open>s < 32\<close> show ?thesis by (simp add: utf8_char_def utf8_width_nat)
  next
    case 3
    then have "u = 0" using c' by linarith
    then have h: "u = 0" "t < 16" "t = 0 \<Longrightarrow> 32 \<le> s" using 3 c' lt by linarith+
    moreover have "t = 13 \<Longrightarrow> s \<le> 31" using assms 3 c' lt h(1) by (auto simp: scalar_value_def)
    moreover from d h have "unat (of_nat (224 + c div 4096) :: u8) = 224 + t" by (subst unat_byte) simp_all
    ultimately show ?thesis using 3 d by (simp add: utf8_char_def utf8_width_nat second_byte_nat)
  next
    case 4
    have "c < 1114112" using assms by (auto simp: scalar_value_def)
    then have h: "u < 5" "u = 0 \<Longrightarrow> 16 \<le> t" "u = 4 \<Longrightarrow> t \<le> 15" using c' lt 4 by linarith+
    moreover from d h have "unat (of_nat (240 + c div 262144) :: u8) = 240 + u" by (subst unat_byte) simp_all
    ultimately show ?thesis using 4 d(1,2,4,5) by (simp add: utf8_char_def utf8_width_nat second_byte_nat)
  qed
qed

lemma utf8_valid_encode: "list_all scalar_value cs \<Longrightarrow> utf8_valid (utf8_encode cs)"
  by (induction cs) (simp_all add: utf8_encode_def utf8_valid_char)

lemma lead_byte: "k \<le> unat a \<Longrightarrow> of_nat (k + (unat a - k)) = (a :: u8)"
  by (simp only: le_add_diff_inverse of_nat_unat ucast_id)

lemma trail_byte: "cont_byte b \<Longrightarrow> c mod 64 = unat b - 128 \<Longrightarrow> trail c = b"
  by (simp add: trail_def lead_byte cont_byte_nat del: of_nat_add)

lemma cont_digit: "cont_byte b \<Longrightarrow> unat b - 128 < 64"
  unfolding cont_byte_nat by linarith

text \<open>A valid string starts with the encoding of a scalar value.\<close>

lemma utf8_valid_first:
  assumes "utf8_valid (a # bs)"
  obtains c rest where "scalar_value c" and "a # bs = utf8_char c @ rest" and "utf8_valid rest"
proof -
  consider (one) "utf8_width a = Some 1" | (two) "utf8_width a = Some 2" | (three) "utf8_width a = Some 3"
    | (four) "utf8_width a = Some 4" using assms by (auto split: if_splits)
  then show thesis
  proof cases
    case one
    then have "unat a < 128" by (simp add: utf8_width_nat split: if_splits)
    then have "scalar_value (unat a)" "a # bs = utf8_char (unat a) @ bs"
      by (simp_all add: scalar_value_def utf8_char_def)
    moreover have "utf8_valid bs" using one assms by simp
    ultimately show thesis by (rule that)
  next
    case two
    then have a: "194 \<le> unat a" "unat a \<le> 223" by (simp_all add: utf8_width_nat split: if_splits)
    obtain b cs where bs: "bs = b # cs" "cont_byte b" "utf8_valid cs"
      using assms two by (auto split: list.splits)
    let ?s = "unat a - 192" and ?r = "unat b - 128"
    define c where "c = ((0 * 64 + 0) * 64 + ?s) * 64 + ?r"
    have lt: "?r < 64" "?s < 64" using cont_digit [OF bs(2)] a by linarith+
    note d = digits [OF c_def lt zero_less_numeral]
    have c': "c = 64 * ?s + ?r" by (simp add: c_def)
    have c: "128 \<le> c" "c < 2048" using c' a lt by linarith+
    then have "utf8_char c = [of_nat (192 + c div 64), trail c]" unfolding utf8_char_def by simp
    also have "\<dots> = [a, b]" using d lead_byte [of 192 a] trail_byte [OF bs(2), of c] a by simp
    finally have "a # bs = utf8_char c @ cs" by (simp add: bs)
    moreover have "scalar_value c" using c unfolding scalar_value_def by linarith
    ultimately show thesis using bs(3) by (intro that)
  next
    case three
    then have a: "224 \<le> unat a" "unat a \<le> 239" by (simp_all add: utf8_width_nat split: if_splits)
    obtain b1 b2 cs where bs: "bs = b1 # b2 # cs" "second_of_three a b1" "cont_byte b2" "utf8_valid cs"
      using assms three by (auto split: list.splits)
    then have b1: "cont_byte b1" by (simp add: second_byte_nat)
    let ?t = "unat a - 224" and ?s = "unat b1 - 128" and ?r = "unat b2 - 128"
    define c where "c = ((0 * 64 + ?t) * 64 + ?s) * 64 + ?r"
    have lt: "?r < 64" "?s < 64" "?t < 64" using cont_digit [OF bs(3)] cont_digit [OF b1] a by linarith+
    note d = digits [OF c_def lt]
    have c': "c = 4096 * ?t + 64 * ?s + ?r" by (simp add: c_def)
    have first: "?t = 0 \<Longrightarrow> 32 \<le> ?s" "?t = 13 \<Longrightarrow> ?s < 32"
      using bs(2) b1 a by (auto simp: second_byte_nat cont_byte_nat)
    have c: "2048 \<le> c" "c < 65536" using c' first(1) lt a by linarith+
    then have "utf8_char c = [of_nat (224 + c div 4096), trail (c div 64), trail c]"
      unfolding utf8_char_def by simp
    also have "\<dots> = [a, b1, b2]"
      using d lead_byte [of 224 a] trail_byte [OF b1, of "c div 64"] trail_byte [OF bs(3), of c] a by simp
    finally have "a # bs = utf8_char c @ cs" by (simp add: bs)
    moreover have "scalar_value c"
    proof -
      have "?t < 13 \<or> ?t = 13 \<or> 14 \<le> ?t" by linarith
      with c' c(2) first(2) lt show ?thesis unfolding scalar_value_def by linarith
    qed
    ultimately show thesis using bs(4) by (intro that)
  next
    case four
    then have a: "240 \<le> unat a" "unat a \<le> 244" by (simp_all add: utf8_width_nat split: if_splits)
    obtain b1 b2 b3 cs where bs: "bs = b1 # b2 # b3 # cs" "second_of_four a b1" "cont_byte b2" "cont_byte b3"
      "utf8_valid cs" using assms four by (auto split: list.splits)
    then have b1: "cont_byte b1" by (simp add: second_byte_nat)
    let ?u = "unat a - 240" and ?t = "unat b1 - 128" and ?s = "unat b2 - 128" and ?r = "unat b3 - 128"
    define c where "c = ((?u * 64 + ?t) * 64 + ?s) * 64 + ?r"
    have lt: "?r < 64" "?s < 64" "?t < 64"
      using cont_digit [OF bs(4)] cont_digit [OF bs(3)] cont_digit [OF b1] by linarith+
    note d = digits [OF c_def lt]
    have c': "c = 262144 * ?u + 4096 * ?t + 64 * ?s + ?r" by (simp add: c_def)
    have first: "?u = 0 \<Longrightarrow> 16 \<le> ?t" "?u = 4 \<Longrightarrow> ?t < 16"
      using bs(2) b1 a by (auto simp: second_byte_nat cont_byte_nat)
    have c: "65536 \<le> c" using c' first(1) lt a by linarith
    then have "utf8_char c = [of_nat (240 + c div 262144), trail (c div 4096), trail (c div 64), trail c]"
      unfolding utf8_char_def by simp
    also have "\<dots> = [a, b1, b2, b3]"
      using d lead_byte [of 240 a] trail_byte [OF b1, of "c div 4096"] trail_byte [OF bs(3), of "c div 64"]
        trail_byte [OF bs(4), of c] a by simp
    finally have "a # bs = utf8_char c @ cs" by (simp add: bs)
    moreover have "scalar_value c"
    proof -
      have "?u < 4 \<or> ?u = 4" using a by linarith
      with c' c first(2) lt show ?thesis unfolding scalar_value_def by linarith
    qed
    ultimately show thesis using bs(5) by (intro that)
  qed
qed

lemma utf8_valid_iff: "utf8_valid bs \<longleftrightarrow> (\<exists>cs. list_all scalar_value cs \<and> bs = utf8_encode cs)"
proof
  show "utf8_valid bs \<Longrightarrow> \<exists>cs. list_all scalar_value cs \<and> bs = utf8_encode cs"
  proof (induction "length bs" arbitrary: bs rule: less_induct)
    case less
    show ?case
    proof (cases bs)
      case Nil
      then show ?thesis by (intro exI [of _ "[]"]) (simp add: utf8_encode_def)
    next
      case (Cons a as)
      obtain c rest where c: "scalar_value c" "bs = utf8_char c @ rest" "utf8_valid rest"
        using less.prems unfolding Cons by (rule utf8_valid_first)
      then have "length rest < length bs" by (auto simp: utf8_char_def)
      with less.hyps c(3) obtain cs where "list_all scalar_value cs" "rest = utf8_encode cs" by blast
      with c show ?thesis by (intro exI [of _ "c # cs"]) (simp add: utf8_encode_def)
    qed
  qed
qed (auto simp: utf8_valid_encode)

section \<open>Strings in JSON\<close>

text \<open>\<^verbatim>\<open>de_string_to_bytes\<close>, which serde calls for the fields that are kept as bytes: the string the deserializer gives, as a
  list of Unicode scalar values, is taken as its UTF-8 bytes.\<close>

definition de_string_to_bytes :: "('de \<Rightarrow> 'e + nat list) \<Rightarrow> 'de \<Rightarrow> 'e + bytes" where
  "de_string_to_bytes deserialize_str de =
     (case deserialize_str de of Inl e \<Rightarrow> Inl e | Inr s \<Rightarrow> Inr (utf8_encode s))"

lemma de_string_to_bytes_text:
  assumes "\<And>de s. deserialize_str de = Inr s \<Longrightarrow> list_all scalar_value s"
    and "de_string_to_bytes deserialize_str de = Inr bs"
  shows "from_utf8 bs = Inr bs"
  using assms by (auto simp: de_string_to_bytes_def utf8_valid_encode split: sum.splits)

section \<open>Properties\<close>

text \<open>
  C30: \<^verbatim>\<open>get_url\<close> takes exactly the addresses that are text. For every net address, whatever its bytes, the result
  is the service's prefix followed by the address if the bytes are the UTF-8 encoding of some sequence of
  Unicode scalar values, and the error about the encoding if they are not.
\<close>

theorem get_url_takes_text:
  "get_url net_address =
     (if \<exists>cs. list_all scalar_value cs \<and> net_address = utf8_encode cs
      then Inr (ascii ''http://'' @ net_address)
      else Inl (Details (ascii ''get url from net address failed, error:'') Utf8Error))"
  unfolding utf8_valid_iff [symmetric]
  by (simp add: get_url_def from_utf8_def SERVICE_BASE_URL_PREFIX_def)

end
