(* ===== verification/Posted_Urls.thy ===== *)
theory Posted_Urls
  imports Net_Address Reference_Host
begin

text \<open>
  The addresses a node posts to. They are put together from the prefix, a net address, account and errand ids,
  encoded messages and signatures, most of which come from the chain or from a service as bytes; this theory
  follows them through every part of the worker.
\<close>

section \<open>Addresses\<close>

definition service_url :: "bytes \<Rightarrow> bool" where
  "service_url url \<longleftrightarrow> (\<exists>cs. list_all scalar_value cs \<and> url = SERVICE_BASE_URL_PREFIX @ utf8_encode cs)"

lemma service_url_iff: "service_url url \<longleftrightarrow> (\<exists>rest. utf8_valid rest \<and> url = SERVICE_BASE_URL_PREFIX @ rest)"
  by (auto simp: service_url_def utf8_valid_iff)

text \<open>A node that has only posted such addresses since another state of it.\<close>

definition posts_urls :: "('a, 'p, 'd, 'n) Node \<Rightarrow> ('a, 'p, 'd, 'n) Node \<Rightarrow> bool" where
  "posts_urls s s' \<longleftrightarrow> (\<exists>urls. posted s' = posted s @ urls \<and> list_all service_url urls)"

lemma posts_urls_same: "posted s' = posted s \<Longrightarrow> posts_urls s s'"
  by (simp add: posts_urls_def)

lemma posts_urls_refl [simp]: "posts_urls s s"
  by (simp add: posts_urls_same)

lemma posts_urls_trans: "posts_urls s s' \<Longrightarrow> posts_urls s' s'' \<Longrightarrow> posts_urls s s''"
  unfolding posts_urls_def by (metis append.assoc list_all_append)

lemma posts_urls_db [simp]: "posts_urls s (snd (on_db f s')) \<longleftrightarrow> posts_urls s s'"
  by (simp add: posts_urls_def)

lemma posts_urls_sent [simp]: "posts_urls s (snd (send_signed_transaction H f call s')) \<longleftrightarrow> posts_urls s s'"
  by (simp add: posts_urls_def)

lemma http_post_urls: "service_url url \<Longrightarrow> posts_urls s s' \<Longrightarrow> posts_urls s (snd (http_post H url s'))"
  by (auto simp: posts_urls_def http_post_frame)

lemma url_parts [simp]:
  "utf8_valid APPLY_DELEGATE" "utf8_valid QUERY_ERRAND_RESULT_ACTION" "utf8_valid SEND_ERRAND_TASK_ACTION"
  "utf8_valid (ascii ''/'')" "utf8_valid (ascii ''?content='')"
  by code_simp+

lemma service_urls:
  "utf8_valid addr \<Longrightarrow> utf8_valid eid \<Longrightarrow> service_url (query_url (SERVICE_BASE_URL_PREFIX @ addr) eid)"
  "utf8_valid addr \<Longrightarrow> utf8_valid c \<Longrightarrow> utf8_valid eid \<Longrightarrow> utf8_valid sig \<Longrightarrow> utf8_valid cid \<Longrightarrow>
     service_url (task_url (SERVICE_BASE_URL_PREFIX @ addr) c eid sig cid)"
  "utf8_valid addr \<Longrightarrow> utf8_valid msg \<Longrightarrow> service_url (delegate_request_url (SERVICE_BASE_URL_PREFIX @ addr) msg)"
  by (simp_all add: service_url_iff query_url_def task_url_def delegate_request_url_def utf8_valid_append)

section \<open>The worker\<close>

context offchain_host
begin

lemma fetch_single_task_result_urls: "posts_urls s (snd (fetch_single_task_result H eid cid addr s))"
proof -
  have "posts_urls s (snd (http_query_task_result H eid addr s))"
    unfolding http_query_task_result_def
    by (intro and_then_keeps [where P = "posts_urls s"]) (auto simp: get_url_Inr intro: http_post_urls service_urls)
  then show ?thesis
    unfolding fetch_single_task_result_node fetch_errand_result_info_def
    by (intro and_then_keeps [where P = "posts_urls s"])
      (auto split: sum.split intro: and_then_keeps [where P = "posts_urls s"])
qed

lemma send_task_to_tea_network_urls: "posts_urls s (snd (send_task_to_tea_network H a cid eid addr s))"
proof -
  have "posts_urls s (snd (load_delegate_info H c s))" for c by (simp add: posts_urls_same)
  then show ?thesis
    unfolding send_task_to_tea_network_node send_task_internal_def
    by (intro and_then_keeps [where P = "posts_urls s"])
      (auto simp: get_url_Inr intro!: http_post_urls service_urls ss58_valid hex_string)
qed

lemma request_single_delegate_urls: "posts_urls s (snd (request_single_delegate H a addr s))"
proof -
  have "posts_urls s (snd (parse_delegate_response H resp c s1))" if "posts_urls s s1" for resp c s1
    unfolding parse_delegate_response_def
    by (intro and_then_keeps [where P = "posts_urls s"])
      (use that in \<open>auto simp: save_delegate_info_def split: sum.split\<close>)
  moreover have "posts_urls s (snd (http_post H (delegate_request_url url (base64_encode H buf)) s))"
    if "get_url addr = Inr url" for url buf
    using that by (auto simp: get_url_Inr intro!: http_post_urls service_urls base64_string)
  ultimately show ?thesis
    by (auto simp: request_single_delegate_def Let_def split: sum.split prod.split) (metis snd_conv)+
qed

text \<open>What a step adds to, from a state that is already later.\<close>

lemma urls_after:
  "posts_urls s1 (snd m) \<Longrightarrow> m = (r, s2) \<Longrightarrow> posts_urls s s1 \<Longrightarrow> posts_urls s s2"
  by (auto intro: posts_urls_trans)

lemma apply_loop_urls: "posts_urls s s' \<Longrightarrow> posts_urls s (apply_loop T H ids accs w s')"
proof (induction accs arbitrary: s')
  case (Cons acc accs)
  obtain r s1 where p: "apply_single_delegate T H (snd acc) w s' = (r, s1)" by fastforce
  have "posts_urls s (snd (apply_single_delegate T H (snd acc) w s'))"
    using Cons.prems
    by (auto simp: apply_single_delegate_def Let_def split: sum.split prod.split bool.split
        dest: urls_after [OF request_single_delegate_urls])
  with Cons p show ?case by (cases r) (simp_all add: Let_def)
qed simp

lemma open_errand_urls [simp]: "posted (snd (open_errand T H filt fee item w s)) = posted s"
  by (auto simp: open_errand_def init_single_errand_task_def split: option.split prod.split bool.split)
    (metis send_signed_transaction_frame(2) snd_conv)+

lemma send_loop_urls: "posts_urls s s' \<Longrightarrow> posts_urls s (snd (send_loop T H ids items w s'))"
proof (induction items arbitrary: w s')
  case (Cons item items)
  obtain w1 s1 where p: "send_single_task T H ids item w s' = (w1, s1)" by fastforce
  have op: "posts_urls s s2 \<Longrightarrow> posts_urls s (snd (open_errand T H filt fee item w s2))" for filt fee s2
    by (simp add: posts_urls_def)
  have "posts_urls s (snd (send_single_task T H ids item w s'))"
    using Cons.prems
    by (auto simp: send_single_task_def Let_def split: option.split sum.split prod.split bool.split
        intro!: op dest: urls_after [OF send_task_to_tea_network_urls])
  with Cons p show ?case by simp
qed simp

lemma query_loop_urls: "posts_urls s s' \<Longrightarrow> posts_urls s (query_loop T H items w s')"
proof (induction items arbitrary: s')
  case (Cons item items)
  then show ?case
    using posts_urls_trans [OF Cons.prems fetch_single_task_result_urls]
    by (auto simp: Let_def split: option.split)
qed simp

lemma load_tasks_results_info_urls: "posts_urls s s' \<Longrightarrow> posts_urls s (snd (load_tasks_results_info H f s'))"
proof -
  assume s': "posts_urls s s'"
  have db: "posts_urls s (x\<lparr>db := d\<rparr>) \<longleftrightarrow> posts_urls s x" for x d by (simp add: posts_urls_def)
  have "posts_urls s (snd (update_loop H f rs x)) \<longleftrightarrow> posts_urls s x" for rs x
    using update_loop_eq [of H f rs x] by (simp add: posts_urls_def)
  then show ?thesis
    unfolding load_tasks_results_info_def
    by (intro and_then_keeps [where P = "posts_urls s"])
      (auto simp: db s' split: option.split intro!: and_then_keeps [where P = "posts_urls s"])
qed

lemma offchain_worker_urls: "posts_urls s (snd (offchain_worker T H number w s))"
proof -
  let ?s1 = "apply_delegates T H number w s"
  obtain w2 s2 where p: "send_errand_tasks T H number w ?s1 = (w2, s2)" by fastforce
  have "posts_urls s ?s1" by (simp add: apply_delegates_def apply_loop_urls)
  then have "posts_urls s (snd (send_errand_tasks T H number w ?s1))"
    by (simp add: send_errand_tasks_def send_loop_urls)
  then have "posts_urls s (query_errand_task_results T H number w2 s2)"
    using p by (simp add: query_errand_task_results_def Let_def query_loop_urls)
  then show ?thesis
    using p by (simp add: offchain_worker_def Let_def update_errand_task_results_def load_tasks_results_info_urls)
qed

end

section \<open>Properties\<close>

text \<open>
  C29: every address posted is text with the service's prefix. Whatever bytes accounts put on the chain as net
  addresses and ids, and whatever a service answered, each address the off-chain worker posts to is
  \<^verbatim>\<open>http://\<close> followed by the UTF-8 encoding of some sequence of Unicode scalar values: data that is not text never
  reaches the HTTP client.
\<close>

theorem posted_urls_are_text:
  assumes "offchain_host H"
  shows "\<exists>urls. posted (snd (offchain_worker T H number w s)) = posted s @ urls \<and>
           list_all (\<lambda>url. \<exists>cs. list_all scalar_value cs \<and> url = ascii ''http://'' @ utf8_encode cs) urls"
  using offchain_host.offchain_worker_urls [OF assms, of s T number w]
  unfolding posts_urls_def service_url_def SERVICE_BASE_URL_PREFIX_def .

theorem posted_urls_are_text_witness:
  "\<exists>cs. list_all scalar_value cs \<and>
     posted (snd (offchain_worker ref_trait (ref_host True [alice]) 0 demo_inited demo_node)) =
       [ascii ''http://'' @ utf8_encode cs]"
proof -
  let ?s = "snd (offchain_worker ref_trait (ref_host True [alice]) 0 demo_inited demo_node)"
  have "length (posted ?s) = 1" by code_simp
  then obtain url where url: "posted ?s = [url]" by (auto simp: length_Suc_conv)
  moreover have "posted demo_node = []" by (simp add: demo_node_def)
  ultimately show ?thesis
    using posted_urls_are_text [OF host.offchain_host_axioms, of ref_trait True "[alice]" 0 demo_inited demo_node]
    by auto
qed

end
