(* ===== verification/Runtime_Config.thy ===== *)
theory Runtime_Config
  imports Chain
begin

text \<open>
  The part of \<^verbatim>\<open>runtime/src/lib.rs\<close> that computes: the time constants, the parameters, the outer
  call the pallets' calls are wrapped in, and \<^verbatim>\<open>create_transaction\<close>, which turns a call of the
  off-chain worker into a signed transaction. The signed extensions are data; building the payload
  and signing it are code of other crates and fields of the record \<open>Crypto\<close>.
\<close>

section \<open>Constants and parameters\<close>

definition MILLISECS_PER_BLOCK :: u64 where "MILLISECS_PER_BLOCK = 6000"
definition SLOT_DURATION :: u64 where "SLOT_DURATION = MILLISECS_PER_BLOCK"

definition MINUTES :: BlockNumber where "MINUTES = 60000 div ucast MILLISECS_PER_BLOCK"
definition HOURS :: BlockNumber where "HOURS = MINUTES * 60"
definition DAYS :: BlockNumber where "DAYS = HOURS * 24"

definition BlockHashCount :: BlockNumber where "BlockHashCount = 2400"
definition MaximumBlockLength :: u32 where "MaximumBlockLength = 5 * 1024 * 1024"
definition MinimumPeriod :: u64 where "MinimumPeriod = SLOT_DURATION div 2"
definition ExistentialDeposit :: Balance where "ExistentialDeposit = 500"
definition MaxLocks :: u32 where "MaxLocks = 50"
definition TransactionByteFee :: Balance where "TransactionByteFee = 1"

section \<open>Transactions of the off-chain worker\<close>

text \<open>The signed extensions in the order of \<^verbatim>\<open>SignedExtra\<close>; the first three and \<^verbatim>\<open>CheckWeight\<close> carry
  no data.\<close>

datatype Era = mortal u64 u64

record SignedExtra =
  x_era :: Era
  x_nonce :: u32
  x_tip :: Balance

text \<open>
  \<open>signed_payload\<close> is \<^verbatim>\<open>SignedPayload::new\<close> with \<^verbatim>\<open>using_encoded\<close>: the bytes to sign, or nothing if
  the extensions' implicit data is not available; \<open>sign\<close> is \<^verbatim>\<open>C::sign\<close>.
\<close>

record ('a, 'p, 'g) Crypto =
  signed_payload :: "'a Call \<Rightarrow> SignedExtra \<Rightarrow> bytes option"
  sign :: "bytes \<Rightarrow> 'p \<Rightarrow> 'g option"

definition saturating_pred :: "u64 \<Rightarrow> u64" where
  "saturating_pred n = (if n = 0 then 0 else n - 1)"

definition create_transaction ::
    "('a, 'p, 'g) Crypto \<Rightarrow> 'a Call \<Rightarrow> 'p \<Rightarrow> 'a \<Rightarrow> u32 \<Rightarrow> ('a, 'c) chain \<Rightarrow>
     ('a Call \<times> 'a \<times> 'g \<times> SignedExtra) option" where
  "create_transaction K call public account index w =
     (let period = ucast BlockHashCount;
          current_block = saturating_pred (ucast (block_number w));
          tip = 0;
          extra = \<lparr> x_era = mortal period current_block, x_nonce = index, x_tip = tip \<rparr>
      in case signed_payload K call extra of
           None \<Rightarrow> None
         | Some raw_payload \<Rightarrow>
             (case sign K raw_payload public of
                None \<Rightarrow> None
              | Some signature \<Rightarrow> Some (call, account, signature, extra)))"

lemma saturating_pred_nat: "unat (saturating_pred n) = unat n - 1"
  by (cases "n = 0") (simp_all add: saturating_pred_def unat_minus_one)

section \<open>Properties\<close>

text \<open>
  A transaction of the off-chain worker is the call, signed for the account: if
  \<^verbatim>\<open>create_transaction\<close> succeeds, the transaction carries the call and the account it was given,
  the account's nonce, no tip, and an era of 2400 blocks that starts at the parent of the current
  block (at 0 in the genesis block), and the signature is the one of exactly that payload.
\<close>

theorem create_transaction_signed:
  assumes "create_transaction K call public account index w = Some (call', account', signature, extra)"
  shows "call' = call \<and> account' = account \<and> x_nonce extra = index \<and> x_tip extra = 0 \<and>
         (\<exists>first. x_era extra = mortal 2400 first \<and> unat first = unat (block_number w) - 1) \<and>
         (\<exists>payload. signed_payload K call extra = Some payload \<and> sign K payload public = Some signature)"
proof -
  have "(ucast BlockHashCount :: u64) = 2400" by (simp add: BlockHashCount_def)
  then show ?thesis
    using assms
    by (auto simp: create_transaction_def Let_def saturating_pred_nat unat_ucast_u64 split: option.splits)
qed

definition demo_crypto :: "(AccountId32, AccountId32, bytes) Crypto" where
  "demo_crypto = \<lparr> signed_payload = (\<lambda>call extra. Some [1]), sign = (\<lambda>payload public. Some (payload @ [2])) \<rparr>"

theorem create_transaction_signed_witness:
  "\<exists>signature extra. create_transaction demo_crypto (UpdateDelegateStatus alice) alice alice 3
       (genesis_build \<lparr>development_mode = False, update_result_accounts = [alice]\<rparr> demo_ledger)
       = Some (UpdateDelegateStatus alice, alice, signature, extra) \<and>
     x_nonce extra = 3 \<and> x_era extra = mortal 2400 0"
proof -
  let ?w = "genesis_build \<lparr>development_mode = False, update_result_accounts = [alice]\<rparr> demo_ledger"
  let ?t = "create_transaction demo_crypto (UpdateDelegateStatus alice) alice alice 3 ?w"
  obtain signature extra where t: "?t = Some (UpdateDelegateStatus alice, alice, signature, extra)"
    by (auto simp: create_transaction_def demo_crypto_def Let_def)
  from t create_transaction_signed [OF t] show ?thesis by (auto simp: genesis_build_def unat_eq_zero)
qed

end
