(* ===== verification/Runtime_Api.thy ===== *)
theory Runtime_Api
  imports Runtime_Config
begin

text \<open>
  The composition of the runtime (\<^verbatim>\<open>runtime/src/lib.rs\<close>): its version, its weights, the pallets of
  \<^verbatim>\<open>construct_runtime!\<close> with their parts, and the runtime APIs. \<^verbatim>\<open>Perbill\<close>, the executive and the modules the
  APIs forward to are code of other crates: the records \<open>Perbill\<close> and \<open>Executive\<close>.
\<close>

section \<open>Weights\<close>

record 'r Perbill =
  from_percent :: "u32 \<Rightarrow> 'r"
  saturating_sub :: "'r \<Rightarrow> 'r \<Rightarrow> 'r"
  times :: "'r \<Rightarrow> u64 \<Rightarrow> u64"

definition MaximumBlockWeight :: "u64 \<Rightarrow> u64" where
  "MaximumBlockWeight WEIGHT_PER_SECOND = 2 * WEIGHT_PER_SECOND"

definition AvailableBlockRatio :: "'r Perbill \<Rightarrow> 'r" where
  "AvailableBlockRatio P = from_percent P 75"

definition MaximumExtrinsicWeight :: "'r Perbill \<Rightarrow> u64 \<Rightarrow> u64" where
  "MaximumExtrinsicWeight P WEIGHT_PER_SECOND =
     times P (saturating_sub P (AvailableBlockRatio P) (from_percent P 10)) (MaximumBlockWeight WEIGHT_PER_SECOND)"

text \<open>Rounding to a nearest hundredth keeps the order of 65 and 75 per cent, and stays below the whole.\<close>

lemma rounded_ratios:
  fixes w v n :: int
  assumes "\<bar>100 * w - 65 * n\<bar> \<le> 50" and "\<bar>100 * v - 75 * n\<bar> \<le> 50" and "0 \<le> n"
  shows "w \<le> v" and "v \<le> n"
proof -
  have w: "100 * w \<le> 65 * n + 50" using assms(1) by linarith
  have v: "75 * n - 50 \<le> 100 * v" "100 * v \<le> 75 * n + 50" using assms(2) by linarith+
  show "w \<le> v"
  proof (rule ccontr)
    assume "\<not> w \<le> v"
    then have "v + 1 \<le> w" by simp
    with w v(1) have "n \<le> 0" by linarith
    with w v(1) assms(3) have "w < 1" "- 1 < v" by linarith+
    with \<open>v + 1 \<le> w\<close> show False by linarith
  qed
  show "v \<le> n" using v(2) assms(3) by linarith
qed

text \<open>The documented behaviour of \<^verbatim>\<open>Perbill\<close>: a number of parts of a billion; a percentage above 100
  saturates, a difference below zero too; a product is rounded to a nearest integer.\<close>

locale perbill_laws =
  fixes P :: "'r Perbill" and parts :: "'r \<Rightarrow> nat"
  assumes parts_percent: "parts (from_percent P x) = min 100 (unat x) * 10 ^ 7"
    and parts_sub: "parts (saturating_sub P a b) = parts a - parts b"
    and times_nearest: "parts r \<le> 10 ^ 9 \<Longrightarrow>
      \<bar>uint (times P r n) * 10 ^ 9 - int (parts r) * uint n\<bar> \<le> 5 * 10 ^ 8"
begin

lemma times_percent:
  assumes "parts r = p * 10 ^ 7" and "p \<le> 100"
  shows "\<bar>100 * uint (times P r n) - int p * uint n\<bar> \<le> 50"
  using times_nearest [of r n] assms by simp

lemma weight_ratios:
  "parts (AvailableBlockRatio P) = 75 * 10 ^ 7"
  "parts (saturating_sub P (AvailableBlockRatio P) (from_percent P 10)) = 65 * 10 ^ 7"
  by (simp_all add: AvailableBlockRatio_def parts_percent parts_sub)

lemma extrinsic_weight:
  fixes wps :: u64
  defines "n \<equiv> MaximumBlockWeight wps"
  shows "\<bar>100 * uint (MaximumExtrinsicWeight P wps) - 65 * uint n\<bar> \<le> 50"
    and "MaximumExtrinsicWeight P wps \<le> times P (AvailableBlockRatio P) n"
    and "times P (AvailableBlockRatio P) n \<le> n"
proof -
  show w: "\<bar>100 * uint (MaximumExtrinsicWeight P wps) - 65 * uint n\<bar> \<le> 50"
    using times_percent [OF weight_ratios(2), of n] by (simp add: MaximumExtrinsicWeight_def n_def)
  have v: "\<bar>100 * uint (times P (AvailableBlockRatio P) n) - 75 * uint n\<bar> \<le> 50"
    using times_percent [OF weight_ratios(1), of n] by simp
  show "MaximumExtrinsicWeight P wps \<le> times P (AvailableBlockRatio P) n"
    and "times P (AvailableBlockRatio P) n \<le> n"
    using rounded_ratios [OF w v] by (simp_all add: word_le_def)
qed

end

text \<open>Parts of a billion as natural numbers, with products rounded down from half a part.\<close>

definition nat_Perbill :: "nat Perbill" where
  "nat_Perbill =
     \<lparr> from_percent = (\<lambda>x. min 100 (unat x) * 10 ^ 7), saturating_sub = (\<lambda>a b. a - b),
       times = (\<lambda>r n. of_nat ((min r (10 ^ 9) * unat n + 5 * 10 ^ 8) div 10 ^ 9)) \<rparr>"

lemma nearest_div:
  fixes m :: nat
  shows "\<bar>int ((m + 5 * 10 ^ 8) div 10 ^ 9) * 10 ^ 9 - int m\<bar> \<le> 5 * 10 ^ 8"
proof -
  let ?q = "(m + 5 * 10 ^ 8) div 10 ^ 9" and ?k = "(m + 5 * 10 ^ 8) mod 10 ^ 9"
  have "int (?q * 10 ^ 9 + ?k) = int (m + 5 * 10 ^ 8)" by (simp only: div_mult_mod_eq)
  then have "int ?q * 10 ^ 9 - int m = 5 * 10 ^ 8 - int ?k"
    by (simp only: of_nat_add of_nat_mult of_nat_power of_nat_numeral)
  moreover have "int ?k < 10 ^ 9" "0 \<le> int ?k" by simp_all
  ultimately show ?thesis by simp
qed

interpretation nat_perbill: perbill_laws nat_Perbill "\<lambda>r. r"
proof
  show "from_percent nat_Perbill x = min 100 (unat x) * 10 ^ 7" for x by (simp add: nat_Perbill_def)
  show "saturating_sub nat_Perbill a b = a - b" for a b by (simp add: nat_Perbill_def)
  show "\<bar>uint (times nat_Perbill r n) * 10 ^ 9 - int r * uint n\<bar> \<le> 5 * 10 ^ 8"
    if "r \<le> 10 ^ 9" for r n
  proof -
    let ?q = "(r * unat n + 5 * 10 ^ 8) div 10 ^ 9"
    have "r * unat n \<le> unat n * 10 ^ 9" using mult_le_mono1 [OF that, of "unat n"] by (simp add: mult.commute)
    moreover have "Suc (unat n) * 10 ^ 9 = 10 ^ 9 + unat n * 10 ^ 9" by (rule mult_Suc)
    moreover have "5 * 10 ^ 8 < (10 ^ 9 :: nat)" by simp
    ultimately have "r * unat n + 5 * 10 ^ 8 < Suc (unat n) * 10 ^ 9" by linarith
    then have "?q < Suc (unat n)" by (rule div_less_iff_less_mult [THEN iffD2, rotated]) simp
    then have "?q < 2 ^ 64" using unsigned_less [of n, where ?'a = nat] by simp
    moreover have "times nat_Perbill r n = of_nat ?q" using that by (simp add: nat_Perbill_def)
    ultimately have "unat (times nat_Perbill r n) = ?q"
      by (simp only: unsigned_of_nat take_bit_nat_eq_self) (simp add: take_bit_nat_eq_self)
    then have "uint (times nat_Perbill r n) = int ?q" by (metis uint_nat)
    moreover have "int r * uint n = int (r * unat n)" by simp
    ultimately show ?thesis using nearest_div [of "r * unat n"] by presburger
  qed
qed

section \<open>Version and pallets\<close>

record RuntimeVersion =
  v_spec_name :: string
  v_impl_name :: string
  v_authoring_version :: u32
  v_spec_version :: u32
  v_impl_version :: u32
  v_apis :: "(bytes \<times> u32) list"
  v_transaction_version :: u32

definition VERSION :: "(bytes \<times> u32) list \<Rightarrow> RuntimeVersion" where
  "VERSION RUNTIME_API_VERSIONS =
     \<lparr> v_spec_name = ''node-template'', v_impl_name = ''node-template'', v_authoring_version = 1,
       v_spec_version = 1, v_impl_version = 1, v_apis = RUNTIME_API_VERSIONS, v_transaction_version = 1 \<rparr>"

record NativeVersion =
  runtime_version :: RuntimeVersion
  native_can_author_with :: "u32 list"

definition native_version :: "(bytes \<times> u32) list \<Rightarrow> NativeVersion" where
  "native_version RUNTIME_API_VERSIONS =
     \<lparr> runtime_version = VERSION RUNTIME_API_VERSIONS, native_can_author_with = [] \<rparr>"

datatype Pallet =
    System | RandomnessCollectiveFlip | Timestamp | Aura | Grandpa | Balances | TransactionPayment | Sudo | AbcPallet

datatype Part = Module_part | Call_part | Config_part | Storage_part | Event_part | Inherent_part

definition construct_runtime :: "(Pallet \<times> Part list) list" where
  "construct_runtime =
     [(System, [Module_part, Call_part, Config_part, Storage_part, Event_part]),
      (RandomnessCollectiveFlip, [Module_part, Call_part, Storage_part]),
      (Timestamp, [Module_part, Call_part, Storage_part, Inherent_part]),
      (Aura, [Module_part, Config_part, Inherent_part]),
      (Grandpa, [Module_part, Call_part, Storage_part, Config_part, Event_part]),
      (Balances, [Module_part, Call_part, Storage_part, Config_part, Event_part]),
      (TransactionPayment, [Module_part, Storage_part]),
      (Sudo, [Module_part, Call_part, Config_part, Storage_part, Event_part]),
      (AbcPallet, [Module_part, Call_part, Storage_part, Event_part, Config_part])]"

text \<open>The pallets that have a part, in the order of the runtime.\<close>

definition pallets_with :: "Part \<Rightarrow> Pallet list" where
  "pallets_with part = map fst (filter (\<lambda>(pallet, parts). part \<in> set parts) construct_runtime)"

section \<open>Runtime APIs\<close>

text \<open>
  The functions the APIs forward to: the executive on a state \<open>'s\<close> and the modules' own functions.
  The two functions on GRANDPA equivocations answer nothing, as the runtime has no key ownership
  proofs.
\<close>

record ('b, 'hd, 'x, 's, 'a) Executive =
  x_execute_block :: "'b \<Rightarrow> 's \<Rightarrow> 's"
  x_initialize_block :: "'hd \<Rightarrow> 's \<Rightarrow> 's"
  x_apply_extrinsic :: "'x \<Rightarrow> 's \<Rightarrow> bytes \<times> 's"
  x_finalize_block :: "'s \<Rightarrow> 'hd \<times> 's"
  x_validate_transaction :: "bytes \<Rightarrow> 'x \<Rightarrow> 's \<Rightarrow> bytes"
  x_offchain_worker :: "'hd \<Rightarrow> 's \<Rightarrow> 's"
  x_metadata :: bytes
  x_inherent_extrinsics :: "bytes \<Rightarrow> 'x list"
  x_check_inherents :: "'b \<Rightarrow> bytes \<Rightarrow> bytes"
  x_random_seed :: "'s \<Rightarrow> bytes"
  x_slot_duration :: "'s \<Rightarrow> u64"
  x_aura_authorities :: "'s \<Rightarrow> bytes list"
  x_generate_session_keys :: "bytes option \<Rightarrow> bytes"
  x_decode_session_keys :: "bytes \<Rightarrow> (bytes \<times> bytes) list option"
  x_grandpa_authorities :: "'s \<Rightarrow> (bytes \<times> u64) list"
  x_account_nonce :: "'a \<Rightarrow> 's \<Rightarrow> u32"
  x_query_info :: "'x \<Rightarrow> u32 \<Rightarrow> 's \<Rightarrow> bytes"

record ('b, 'hd, 'x, 's, 'a) RuntimeApi =
  api_version :: RuntimeVersion
  api_execute_block :: "'b \<Rightarrow> 's \<Rightarrow> 's"
  api_initialize_block :: "'hd \<Rightarrow> 's \<Rightarrow> 's"
  api_metadata :: bytes
  api_apply_extrinsic :: "'x \<Rightarrow> 's \<Rightarrow> bytes \<times> 's"
  api_finalize_block :: "'s \<Rightarrow> 'hd \<times> 's"
  api_inherent_extrinsics :: "bytes \<Rightarrow> 'x list"
  api_check_inherents :: "'b \<Rightarrow> bytes \<Rightarrow> bytes"
  api_random_seed :: "'s \<Rightarrow> bytes"
  api_validate_transaction :: "bytes \<Rightarrow> 'x \<Rightarrow> 's \<Rightarrow> bytes"
  api_offchain_worker :: "'hd \<Rightarrow> 's \<Rightarrow> 's"
  api_slot_duration :: "'s \<Rightarrow> u64"
  api_authorities :: "'s \<Rightarrow> bytes list"
  api_generate_session_keys :: "bytes option \<Rightarrow> bytes"
  api_decode_session_keys :: "bytes \<Rightarrow> (bytes \<times> bytes) list option"
  api_grandpa_authorities :: "'s \<Rightarrow> (bytes \<times> u64) list"
  api_submit_report_equivocation :: "bytes \<Rightarrow> bytes \<Rightarrow> unit option"
  api_generate_key_ownership_proof :: "u64 \<Rightarrow> bytes \<Rightarrow> bytes option"
  api_account_nonce :: "'a \<Rightarrow> 's \<Rightarrow> u32"
  api_query_info :: "'x \<Rightarrow> u32 \<Rightarrow> 's \<Rightarrow> bytes"

definition impl_runtime_apis ::
    "(bytes \<times> u32) list \<Rightarrow> ('b, 'hd, 'x, 's, 'a) Executive \<Rightarrow> ('b, 'hd, 'x, 's, 'a) RuntimeApi" where
  "impl_runtime_apis api_versions X =
     \<lparr> api_version = VERSION api_versions,
       api_execute_block = x_execute_block X,
       api_initialize_block = x_initialize_block X,
       api_metadata = x_metadata X,
       api_apply_extrinsic = x_apply_extrinsic X,
       api_finalize_block = x_finalize_block X,
       api_inherent_extrinsics = x_inherent_extrinsics X,
       api_check_inherents = x_check_inherents X,
       api_random_seed = x_random_seed X,
       api_validate_transaction = x_validate_transaction X,
       api_offchain_worker = x_offchain_worker X,
       api_slot_duration = x_slot_duration X,
       api_authorities = x_aura_authorities X,
       api_generate_session_keys = x_generate_session_keys X,
       api_decode_session_keys = x_decode_session_keys X,
       api_grandpa_authorities = x_grandpa_authorities X,
       api_submit_report_equivocation = (\<lambda>_ _. None),
       api_generate_key_ownership_proof = (\<lambda>_ _. None),
       api_account_nonce = x_account_nonce X,
       api_query_info = x_query_info X \<rparr>"

section \<open>Properties\<close>

text \<open>
  The weight of an extrinsic. Whatever a second of computation weighs, the maximal weight of an
  extrinsic is 65 per cent of the maximal weight of a block, rounded to a nearest integer; it never exceeds
  the share of the block that is available to extrinsics, and that never exceeds the block.
\<close>

theorem extrinsic_weight_bounds:
  assumes "perbill_laws P parts"
  shows "\<bar>100 * uint (MaximumExtrinsicWeight P wps) - 65 * uint (MaximumBlockWeight wps)\<bar> \<le> 50 \<and>
         MaximumExtrinsicWeight P wps \<le> times P (AvailableBlockRatio P) (MaximumBlockWeight wps) \<and>
         times P (AvailableBlockRatio P) (MaximumBlockWeight wps) \<le> MaximumBlockWeight wps"
  using perbill_laws.extrinsic_weight [OF assms] by blast

theorem extrinsic_weight_bounds_witness:
  "MaximumExtrinsicWeight nat_Perbill 1000000000000 = 1300000000000 \<and>
   MaximumExtrinsicWeight nat_Perbill 1000000000000 \<le> MaximumBlockWeight 1000000000000"
proof -
  have "MaximumExtrinsicWeight nat_Perbill 1000000000000 = 1300000000000"
    by (simp add: MaximumExtrinsicWeight_def MaximumBlockWeight_def AvailableBlockRatio_def nat_Perbill_def)
  with extrinsic_weight_bounds [OF nat_perbill.perbill_laws_axioms, of 1000000000000] show ?thesis
    by (meson order_trans)
qed

end
