(* ===== verification/Outer_Runtime.thy ===== *)
theory Outer_Runtime
  imports Runtime_Api Joint_System Settlement
begin

text \<open>
  The runtime around the pallet (\<^verbatim>\<open>runtime/src/lib.rs\<close>): the parameters it gives to each pallet, the outer calls of
  \<^verbatim>\<open>construct_runtime!\<close> with those of the sudo pallet that wrap another call, and the benchmark API. The other pallets
  are code of other crates: their calls, hooks and checks are the fields of the record \<open>Pallets\<close>, on a
  storage \<open>'x\<close> of their own, next to the balances. FRAME keeps the storage of each pallet apart, so they
  reach the storage of the abc pallet in two ways only: by dispatching one of its calls, as the sudo pallet does, or, with the
  root origin, by the calls of \<^verbatim>\<open>frame_system\<close> that write the storage under any key or replace the code
  (\<^verbatim>\<open>set_storage\<close>, \<^verbatim>\<open>kill_storage\<close>, \<^verbatim>\<open>kill_prefix\<close>, \<^verbatim>\<open>set_code\<close>). These may do anything to the chain, and the state of
  the runtime records that one has been made.
\<close>

section \<open>What the runtime plugs into the pallets\<close>

text \<open>A type parameter that names a handler: the unit type, which does nothing, or a pallet of the runtime.\<close>

datatype Handler = NoHandler | ByPallet Pallet

text \<open>Constants of \<^verbatim>\<open>frame_support::weights::constants\<close>.\<close>

record FrameWeights =
  RocksDbWeight_read :: u64
  RocksDbWeight_write :: u64
  BlockExecutionWeight :: u64
  ExtrinsicBaseWeight :: u64
  WEIGHT_PER_SECOND :: u64

record ('r, 'x, 'a) SystemTrait =
  BaseCallFilter_of :: "'x \<Rightarrow> bool"
  Lookup_of :: "'a \<Rightarrow> 'a option"
  BlockHashCount_of :: BlockNumber
  MaximumBlockWeight_of :: u64
  DbWeight_of :: "u64 \<times> u64"
  BlockExecutionWeight_of :: u64
  ExtrinsicBaseWeight_of :: u64
  MaximumExtrinsicWeight_of :: u64
  MaximumBlockLength_of :: u32
  AvailableBlockRatio_of :: 'r
  Version_of :: RuntimeVersion
  OnNewAccount_of :: Handler
  OnKilledAccount_of :: Handler

text \<open>The call filter \<^verbatim>\<open>()\<close> lets every call through, \<^verbatim>\<open>IdentityLookup\<close> finds every account under itself.\<close>

definition system_trait ::
    "'r Perbill \<Rightarrow> FrameWeights \<Rightarrow> (bytes \<times> u32) list \<Rightarrow> ('r, 'x, 'a) SystemTrait" where
  "system_trait P W api_versions =
     \<lparr> BaseCallFilter_of = (\<lambda>_. True), Lookup_of = Some,
       BlockHashCount_of = BlockHashCount,
       MaximumBlockWeight_of = MaximumBlockWeight (WEIGHT_PER_SECOND W),
       DbWeight_of = (RocksDbWeight_read W, RocksDbWeight_write W),
       BlockExecutionWeight_of = BlockExecutionWeight W,
       ExtrinsicBaseWeight_of = ExtrinsicBaseWeight W,
       MaximumExtrinsicWeight_of = MaximumExtrinsicWeight P (WEIGHT_PER_SECOND W),
       MaximumBlockLength_of = MaximumBlockLength,
       AvailableBlockRatio_of = AvailableBlockRatio P,
       Version_of = VERSION api_versions,
       OnNewAccount_of = NoHandler, OnKilledAccount_of = NoHandler \<rparr>"

record GrandpaTrait =
  KeyOwnerProofSystem_of :: Handler
  HandleEquivocation_of :: Handler

definition grandpa_trait :: GrandpaTrait where
  "grandpa_trait = \<lparr> KeyOwnerProofSystem_of = NoHandler, HandleEquivocation_of = NoHandler \<rparr>"

record TimestampTrait =
  OnTimestampSet_of :: Handler
  MinimumPeriod_of :: u64

definition timestamp_trait :: TimestampTrait where
  "timestamp_trait = \<lparr> OnTimestampSet_of = ByPallet Aura, MinimumPeriod_of = MinimumPeriod \<rparr>"

record BalancesTrait =
  MaxLocks_of :: u32
  DustRemoval_of :: Handler
  ExistentialDeposit_of :: Balance
  AccountStore_of :: Handler

definition balances_trait :: BalancesTrait where
  "balances_trait =
     \<lparr> MaxLocks_of = MaxLocks, DustRemoval_of = NoHandler, ExistentialDeposit_of = ExistentialDeposit,
       AccountStore_of = ByPallet System \<rparr>"

text \<open>\<^verbatim>\<open>IdentityFee\<close> charges a unit of balance for a unit of weight.\<close>

record PaymentTrait =
  Currency_of :: Handler
  OnTransactionPayment_of :: Handler
  TransactionByteFee_of :: Balance
  WeightToFee_of :: "u64 \<Rightarrow> Balance"
  FeeMultiplierUpdate_of :: Handler

definition payment_trait :: PaymentTrait where
  "payment_trait =
     \<lparr> Currency_of = ByPallet Balances, OnTransactionPayment_of = NoHandler,
       TransactionByteFee_of = TransactionByteFee, WeightToFee_of = unat, FeeMultiplierUpdate_of = NoHandler \<rparr>"

record AbcTrait =
  AbcCurrency_of :: Handler

definition pallet_abc_trait :: AbcTrait where
  "pallet_abc_trait = \<lparr> AbcCurrency_of = ByPallet Balances \<rparr>"

text \<open>Every pallet that is named as a handler is part of the runtime, and those that keep something for another have a
  storage.\<close>

lemma handlers_in_runtime:
  "OnTimestampSet_of timestamp_trait = ByPallet p \<Longrightarrow> p \<in> set (pallets_with Inherent_part)"
  "AccountStore_of balances_trait = ByPallet p \<Longrightarrow> p \<in> set (pallets_with Storage_part)"
  "Currency_of payment_trait = ByPallet p \<Longrightarrow> p \<in> set (pallets_with Storage_part)"
  "AbcCurrency_of pallet_abc_trait = ByPallet p \<Longrightarrow> p \<in> set (pallets_with Storage_part)"
  by (simp_all add: timestamp_trait_def balances_trait_def payment_trait_def pallet_abc_trait_def
      pallets_with_def construct_runtime_def)

section \<open>Weights of the calls\<close>

definition request_delegate_weight :: u64 where "request_delegate_weight = 10000"
definition update_delegate_status_weight :: u64 where "update_delegate_status_weight = 10000"
definition begin_task_weight :: u64 where "begin_task_weight = 10000"
definition init_errand_weight :: u64 where "init_errand_weight = 10000"
definition update_errand_weight :: u64 where "update_errand_weight = 10000"
definition unreserve_weight :: u64 where "unreserve_weight = 10000"

fun dispatch_weight :: "'a Call \<Rightarrow> u64" where
  "dispatch_weight (RequestDelegate n addr) = request_delegate_weight"
| "dispatch_weight (UpdateDelegateStatus u) = update_delegate_status_weight"
| "dispatch_weight (BeginTask n cid fee) = begin_task_weight"
| "dispatch_weight (InitErrand client eid cid) = init_errand_weight"
| "dispatch_weight (UpdateErrand cid res) = update_errand_weight"
| "dispatch_weight (Unreserve n client) = unreserve_weight"

lemmas weight_defs = request_delegate_weight_def update_delegate_status_weight_def begin_task_weight_def
  init_errand_weight_def update_errand_weight_def unreserve_weight_def

section \<open>Outer calls\<close>

text \<open>
  How the sudo pallet has a call dispatched: \<^verbatim>\<open>sudo\<close>, \<^verbatim>\<open>sudo_unchecked_weight\<close>, \<^verbatim>\<open>sudo_as\<close>. The calls of the other pallets,
  and \<^verbatim>\<open>set_key\<close>, are of type \<open>'f\<close>; those of \<^verbatim>\<open>frame_system\<close> that write under any key are a case of their own.
\<close>

datatype 'a SudoKind = AsRoot | AsRootUnchecked u64 | AsAccount 'a

datatype ('a, 'f) OuterCall =
    AbcCall "'a Call"
  | SudoCall "'a SudoKind" "('a, 'f) OuterCall"
  | RawStorageCall 'f
  | OtherCall 'f

text \<open>
  \<^item> \<open>other_dispatch\<close>: a call of another pallet, on the storage of the other pallets and the balances;
  \<^item> \<open>raw_storage\<close>: what a call of \<^verbatim>\<open>frame_system\<close> that writes under any key does, on the whole storage;
  \<^item> \<open>sudo_key\<close>: the account of the sudo key; \<open>sudo_origin\<close>: the origin a call of the sudo pallet has its inner call
    dispatched with, or the error it is rejected with; \<open>sudo_result\<close>: its own result, from the inner one.
\<close>

record ('a, 'c, 'x, 'f) Pallets =
  other_dispatch :: "'f \<Rightarrow> 'a Origin \<Rightarrow> 'x \<Rightarrow> 'c \<Rightarrow> DispatchResult \<times> 'x \<times> 'c"
  raw_storage :: "'f \<Rightarrow> 'x \<Rightarrow> ('a, 'c) chain \<Rightarrow> 'x \<times> ('a, 'c) chain"
  sudo_key :: "'x \<Rightarrow> 'a"
  sudo_origin :: "'a SudoKind \<Rightarrow> 'a Origin \<Rightarrow> 'x \<Rightarrow> DispatchError + 'a Origin"
  sudo_result :: "DispatchResult \<Rightarrow> DispatchResult"

record ('a, 'c, 'x) RuntimeState =
  rt_chain :: "('a, 'c) chain"
  rt_other :: 'x
  rt_rewritten :: bool

fun ensure_root :: "'a Origin \<Rightarrow> DispatchError + unit" where
  "ensure_root Root = Inr ()"
| "ensure_root _ = Inl BadOrigin"

fun outer_dispatch ::
    "('a, 'c) Trait \<Rightarrow> ('a, 'c, 'x, 'f) Pallets \<Rightarrow> 'a Origin \<Rightarrow> ('a, 'f) OuterCall \<Rightarrow> ('a, 'c, 'x) RuntimeState \<Rightarrow>
     DispatchResult \<times> ('a, 'c, 'x) RuntimeState" where
  "outer_dispatch T F origin (AbcCall call) s =
     (case dispatch T origin call (rt_chain s) of (r, w) \<Rightarrow> (r, s\<lparr>rt_chain := w\<rparr>))"
| "outer_dispatch T F origin (OtherCall f) s =
     (case other_dispatch F f origin (rt_other s) (currency (rt_chain s)) of
        (r, x, cur) \<Rightarrow> (r, s\<lparr>rt_chain := (rt_chain s)\<lparr>currency := cur\<rparr>, rt_other := x\<rparr>))"
| "outer_dispatch T F origin (RawStorageCall f) s =
     (case ensure_root origin of
        Inl e \<Rightarrow> (Inl e, s)
      | Inr _ \<Rightarrow>
          (case raw_storage F f (rt_other s) (rt_chain s) of
             (x, w) \<Rightarrow> (Inr (), \<lparr>rt_chain = w, rt_other = x, rt_rewritten = True\<rparr>)))"
| "outer_dispatch T F origin (SudoCall kind call) s =
     (case sudo_origin F kind origin (rt_other s) of
        Inl e \<Rightarrow> (Inl e, s)
      | Inr inner \<Rightarrow> (case outer_dispatch T F inner call s of (r, s') \<Rightarrow> (sudo_result F r, s')))"

text \<open>The call, not one of the sudo pallet, that an outer call comes down to, with the origin it is dispatched with.\<close>

fun innermost ::
    "('a, 'c, 'x, 'f) Pallets \<Rightarrow> 'a Origin \<Rightarrow> ('a, 'f) OuterCall \<Rightarrow> 'x \<Rightarrow> ('a Origin \<times> ('a, 'f) OuterCall) option" where
  "innermost F origin (SudoCall kind call) x =
     (case sudo_origin F kind origin x of Inl e \<Rightarrow> None | Inr inner \<Rightarrow> innermost F inner call x)"
| "innermost F origin call x = Some (origin, call)"

text \<open>What happens to the runtime: an extrinsic, signed or not, a new block, and the checks, fees and hooks of the other
  pallets. No extrinsic has the root origin.\<close>

inductive runtime_step ::
    "('a, 'c) Trait \<Rightarrow> ('a, 'c, 'x, 'f) Pallets \<Rightarrow> ('a, 'c, 'x) RuntimeState \<Rightarrow> ('a, 'c, 'x) RuntimeState \<Rightarrow> bool"
  for T F where
  extrinsic: "origin \<noteq> Root \<Longrightarrow> runtime_step T F s (snd (outer_dispatch T F origin call s))"
| block: "runtime_step T F s (s\<lparr>rt_chain := new_block (rt_chain s)\<rparr>)"
| hooks: "runtime_step T F s
     (s\<lparr>rt_chain := (rt_chain s)\<lparr>extrinsic_index := ix, random_seed := seed, currency := cur\<rparr>, rt_other := x\<rparr>)"

inductive runtime_reachable ::
    "('a, 'c) Trait \<Rightarrow> ('a, 'c, 'x, 'f) Pallets \<Rightarrow> AbcConfig \<Rightarrow> ('a, 'c, 'x) RuntimeState \<Rightarrow> bool" for T F config where
  genesis: "runtime_reachable T F config \<lparr>rt_chain = genesis_build config cur, rt_other = x, rt_rewritten = False\<rparr>"
| step: "runtime_reachable T F config s \<Longrightarrow> runtime_step T F s s' \<Longrightarrow> runtime_reachable T F config s'"

lemma environment_currency: "step T w (w\<lparr>currency := cur\<rparr>)"
  using step.environment [where w = w and ix = "extrinsic_index w" and seed = "random_seed w"] by simp

text \<open>An outer call does to the chain what the call it comes down to does.\<close>

fun leaf_effect ::
    "('a, 'c) Trait \<Rightarrow> 'a Origin \<Rightarrow> ('a, 'f) OuterCall \<Rightarrow> ('a, 'c) chain \<Rightarrow> ('a, 'c) chain \<Rightarrow> bool" where
  "leaf_effect T origin (AbcCall call) w w' = (w' = snd (dispatch T origin call w))"
| "leaf_effect T origin (OtherCall f) w w' = (\<exists>cur. w' = w\<lparr>currency := cur\<rparr>)"
| "leaf_effect T origin (RawStorageCall f) w w' = (origin = Root \<or> w' = w)"
| "leaf_effect T origin (SudoCall kind call) w w' = False"

lemma outer_dispatch_chain:
  "case innermost F origin call (rt_other s) of
     None \<Rightarrow> snd (outer_dispatch T F origin call s) = s
   | Some (inner, leaf) \<Rightarrow>
       leaf_effect T inner leaf (rt_chain s) (rt_chain (snd (outer_dispatch T F origin call s))) \<and>
       ((\<exists>f. inner = Root \<and> leaf = RawStorageCall f) \<or>
        rt_rewritten (snd (outer_dispatch T F origin call s)) = rt_rewritten s)"
proof (induction call arbitrary: origin)
  case (SudoCall kind call)
  show ?case
  proof (cases "sudo_origin F kind origin (rt_other s)")
    case (Inr inner)
    obtain r s' where "outer_dispatch T F inner call s = (r, s')" by fastforce
    with Inr SudoCall [of inner] show ?thesis by (auto split: option.splits)
  qed simp
next
  case (RawStorageCall f)
  show ?case by (cases origin) (auto split: prod.split)
qed (auto split: prod.split)

text \<open>A call of the sudo pallet is accepted from the account of the sudo key only.\<close>

locale sudo_pallet =
  fixes F :: "('a, 'c, 'x, 'f) Pallets"
  assumes sudo_signer: "sudo_origin F kind origin x = Inr inner \<Longrightarrow> origin = Signed (sudo_key F x)"
begin

lemma root_signer:
  assumes "innermost F origin call x = Some (Root, leaf)"
  shows "origin = Root \<or> origin = Signed (sudo_key F x)"
  using assms sudo_signer by (cases "(F, origin, call, x)" rule: innermost.cases) (auto split: sum.splits)

end

lemma outer_dispatch_step:
  assumes "\<nexists>f. innermost F origin call (rt_other s) = Some (Root, RawStorageCall f)"
  shows "step T (rt_chain s) (rt_chain (snd (outer_dispatch T F origin call s))) \<and>
         rt_rewritten (snd (outer_dispatch T F origin call s)) = rt_rewritten s"
proof (cases "innermost F origin call (rt_other s)")
  case None
  with outer_dispatch_chain [where T = T and F = F and origin = origin and call = call and s = s]
    environment_currency [of T "rt_chain s" "currency (rt_chain s)"] show ?thesis by simp
next
  case (Some x)
  obtain inner leaf where x: "x = (inner, leaf)" by fastforce
  let ?s' = "snd (outer_dispatch T F origin call s)"
  have e: "leaf_effect T inner leaf (rt_chain s) (rt_chain ?s')" "rt_rewritten ?s' = rt_rewritten s"
    using outer_dispatch_chain [where T = T and F = F and origin = origin and call = call and s = s] Some x assms by auto
  have "step T (rt_chain s) (rt_chain ?s')"
    using e(1) environment_currency [of T "rt_chain s"] step.extrinsic [of T "rt_chain s"] Some x assms
      environment_currency [of T "rt_chain s" "currency (rt_chain s)"]
    by (cases leaf) auto
  with e(2) show ?thesis by blast
qed

text \<open>A step of the runtime is one of the chain, or a raw write that the sudo key has signed.\<close>

definition raw_write ::
    "('a, 'c) Trait \<Rightarrow> ('a, 'c, 'x, 'f) Pallets \<Rightarrow> ('a, 'c, 'x) RuntimeState \<Rightarrow> ('a, 'c, 'x) RuntimeState \<Rightarrow> bool" where
  "raw_write T F s s' \<longleftrightarrow>
     (\<exists>call f. s' = snd (outer_dispatch T F (Signed (sudo_key F (rt_other s))) call s) \<and>
        innermost F (Signed (sudo_key F (rt_other s))) call (rt_other s) = Some (Root, RawStorageCall f))"

lemma runtime_step_chain:
  assumes "sudo_pallet F" and "runtime_step T F s s'"
  shows "step T (rt_chain s) (rt_chain s') \<and> rt_rewritten s' = rt_rewritten s \<or> raw_write T F s s'"
  using assms(2)
proof cases
  case (extrinsic origin call)
  show ?thesis
  proof (cases "\<exists>f. innermost F origin call (rt_other s) = Some (Root, RawStorageCall f)")
    case True
    with sudo_pallet.root_signer [OF assms(1), of origin call "rt_other s"] extrinsic have
      "origin = Signed (sudo_key F (rt_other s))" by blast
    with True extrinsic show ?thesis unfolding raw_write_def by blast
  next
    case False
    from outer_dispatch_step [OF this] extrinsic(1) show ?thesis by simp
  qed
qed (auto intro: step.new_block step.environment)

lemma raw_write_rewrites:
  assumes "innermost F origin call (rt_other s) = Some (Root, RawStorageCall f)"
  shows "rt_rewritten (snd (outer_dispatch T F origin call s))"
  using assms
proof (induction call arbitrary: origin)
  case (SudoCall kind call)
  then obtain inner where inner: "sudo_origin F kind origin (rt_other s) = Inr inner"
    "innermost F inner call (rt_other s) = Some (Root, RawStorageCall f)" by (auto split: sum.splits)
  obtain r s' where "outer_dispatch T F inner call s = (r, s')" by fastforce
  with inner SudoCall.IH [OF inner(2)] show ?case by simp
qed (auto split: prod.split)

section \<open>The benchmark API\<close>

text \<open>\<^verbatim>\<open>hex_literal::hex!\<close> on lower-case digits.\<close>

definition hex_value :: "char \<Rightarrow> u8" where
  "hex_value c = (if of_char c < (58 :: u8) then of_char c - 48 else of_char c - 87)"

fun hex_literal :: "string \<Rightarrow> bytes" where
  "hex_literal (a # b # s) = (16 * hex_value a + hex_value b) # hex_literal s"
| "hex_literal s = []"

definition benchmark_whitelist :: "bytes list" where
  "benchmark_whitelist =
     [hex_literal ''26aa394eea5630e07c48ae0c9558cef702a5c1b19ab7a04f536c519aca4983ac'',
      hex_literal ''c2261276cc9d1f8598ea4b6a74b15c2f57c875e4cff74148e4628f264b974c80'',
      hex_literal ''26aa394eea5630e07c48ae0c9558cef7ff553b5a9862a516939d82b3d3d8661a'',
      hex_literal ''26aa394eea5630e07c48ae0c9558cef70a98fdbe9ce6c55837576c60c7af3850'',
      hex_literal ''26aa394eea5630e07c48ae0c9558cef780d41e5e16056765bc8461851072c9d7'']"

text \<open>\<open>add_benchmark\<close> is the macro of that name: it runs the benchmarks of a pallet if the configuration asks for them
  and answers the batches it adds, or returns from the function with an error.\<close>

fun add_benchmarks ::
    "('cfg \<Rightarrow> bytes list \<Rightarrow> string \<Rightarrow> string + 'b list) \<Rightarrow> 'cfg \<Rightarrow> string list \<Rightarrow> 'b list \<Rightarrow> string + 'b list" where
  "add_benchmarks add_benchmark config [] batches = Inr batches"
| "add_benchmarks add_benchmark config (pallet # pallets) batches =
     (case add_benchmark config benchmark_whitelist pallet of
        Inl e \<Rightarrow> Inl e
      | Inr new \<Rightarrow> add_benchmarks add_benchmark config pallets (batches @ new))"

definition dispatch_benchmark ::
    "('cfg \<Rightarrow> bytes list \<Rightarrow> string \<Rightarrow> string + 'b list) \<Rightarrow> 'cfg \<Rightarrow> string + 'b list" where
  "dispatch_benchmark add_benchmark config =
     (case add_benchmarks add_benchmark config [''frame_system'', ''pallet_balances'', ''pallet_timestamp''] [] of
        Inl e \<Rightarrow> Inl e
      | Inr batches \<Rightarrow>
          if batches = [] then Inl ''Benchmark not found for this pallet.'' else Inr batches)"

lemma benchmark_whitelist_keys:
  "map length benchmark_whitelist = [32, 32, 32, 32, 32]" "distinct benchmark_whitelist"
  by code_simp+

text \<open>The abc pallet has no benchmarks: only the three pallets are ever asked.\<close>

lemma dispatch_benchmark_others:
  assumes "\<And>pallet. pallet \<in> {''frame_system'', ''pallet_balances'', ''pallet_timestamp''} \<Longrightarrow>
             add_benchmark config benchmark_whitelist pallet = Inr []"
  shows "dispatch_benchmark add_benchmark config = Inl ''Benchmark not found for this pallet.''"
  using assms by (simp add: dispatch_benchmark_def)

section \<open>Properties\<close>

text \<open>
  C8: the runtime keeps the pallet's invariants until the sudo key rewrites the storage. Every step of the whole runtime, an
  outer call of any pallet with any nesting of sudo calls among them, is one step of the chain, or is a call that the sudo key
  has signed and that comes down to a call of \<^verbatim>\<open>frame_system\<close> on raw storage keys, with the root origin. In each state the
  runtime reaches, either the chain's part is a reachable state of the chain, for which what is proved of those holds, or
  such a call has been made.
\<close>

theorem runtime_refines_chain:
  assumes "sudo_pallet F" and "runtime_reachable T F config s"
  shows "(\<not> rt_rewritten s \<longrightarrow> reachable T config (rt_chain s)) \<and>
         (runtime_step T F s s' \<longrightarrow>
            step T (rt_chain s) (rt_chain s') \<and> rt_rewritten s' = rt_rewritten s \<or>
            raw_write T F s s' \<and> rt_rewritten s')"
proof -
  have steps: "step T (rt_chain s) (rt_chain s') \<and> rt_rewritten s' = rt_rewritten s \<or> raw_write T F s s' \<and> rt_rewritten s'"
    if "runtime_step T F s s'" for s s'
    using runtime_step_chain [OF assms(1) that] raw_write_rewrites unfolding raw_write_def by metis
  have "\<not> rt_rewritten s \<longrightarrow> reachable T config (rt_chain s)"
    using assms(2) by (induction rule: runtime_reachable.induct) (auto intro: reachable.genesis reachable.step dest: steps)
  with steps show ?thesis by blast
qed

text \<open>A sudo pallet whose key is carol; a raw write that empties the storage, and no other call.\<close>

definition demo_pallets :: "(AccountId32, AccountId32 ledger, unit, unit) Pallets" where
  "demo_pallets =
     \<lparr> other_dispatch = (\<lambda>f origin x c. (Inr (), x, c)),
       raw_storage = (\<lambda>f x w. (x, genesis_build prod_config (currency w))),
       sudo_key = (\<lambda>x. carol),
       sudo_origin = (\<lambda>kind origin x.
         if origin = Signed carol then Inr (case kind of AsAccount a \<Rightarrow> Signed a | _ \<Rightarrow> Root) else Inl BadOrigin),
       sudo_result = (\<lambda>r. Inr ()) \<rparr>"

interpretation demo_sudo: sudo_pallet demo_pallets
  by unfold_locales (simp add: demo_pallets_def split: if_splits)

definition demo_sudo_call :: "(AccountId32, unit) OuterCall" where
  "demo_sudo_call = SudoCall (AsAccount bob) (AbcCall (RequestDelegate demo_name [49]))"

definition demo_runtime :: "(AccountId32, AccountId32 ledger) chain \<Rightarrow> (AccountId32, AccountId32 ledger, unit) RuntimeState" where
  "demo_runtime w = \<lparr>rt_chain = w, rt_other = (), rt_rewritten = False\<rparr>"

theorem runtime_refines_chain_witness:
  "let s = demo_runtime demo_start;
       s' = snd (outer_dispatch ref_trait demo_pallets (Signed carol) demo_sudo_call s)
   in step ref_trait (rt_chain s) (rt_chain s') \<and> Delegates (rt_chain s') bob = Some False \<and> \<not> rt_rewritten s'"
proof -
  let ?s = "demo_runtime demo_start"
  let ?s' = "snd (outer_dispatch ref_trait demo_pallets (Signed carol) demo_sudo_call ?s)"
  have "runtime_reachable ref_trait demo_pallets prod_config ?s"
    unfolding demo_start_def demo_runtime_def by (rule runtime_reachable.genesis)
  moreover have "runtime_step ref_trait demo_pallets ?s ?s'" by (rule runtime_step.extrinsic) simp
  moreover have "\<not> rt_rewritten ?s'" "Delegates (rt_chain ?s') bob = Some False" by code_simp+
  ultimately show ?thesis
    using runtime_refines_chain [OF demo_sudo.sudo_pallet_axioms, of ref_trait prod_config ?s ?s'] by (simp add: Let_def)
qed

text \<open>
  C19: sudo has no vote of its own. If an outer call gives an errand a result it did not have, then, through whatever sudo
  calls, it comes down to an \<^verbatim>\<open>update_errand\<close> with that result, dispatched with the signed origin of an
  account that may update results, or to a call on raw storage keys with the root origin. A call of the pallet that is
  dispatched with the root origin changes nothing of the pallet unless it is an \<^verbatim>\<open>unreserve\<close>.
\<close>

theorem sudo_has_no_vote:
  assumes "s' = snd (outer_dispatch T F origin call s)"
  shows "(fst (view (rt_chain s') cid) = Finished res \<longrightarrow> fst (view (rt_chain s) cid) \<noteq> Finished res \<longrightarrow>
            (\<exists>a. innermost F origin call (rt_other s) = Some (Signed a, AbcCall (UpdateErrand cid res)) \<and>
                 approver T (rt_chain s) a) \<or>
            (\<exists>f. innermost F origin call (rt_other s) = Some (Root, RawStorageCall f))) \<and>
         (\<forall>abc. innermost F origin call (rt_other s) = Some (Root, AbcCall abc) \<longrightarrow>
            rt_chain s' = rt_chain s \<or> (\<exists>n client. abc = Unreserve n client))"
proof (cases "innermost F origin call (rt_other s)")
  case None
  with outer_dispatch_chain [where T = T and F = F and origin = origin and call = call and s = s] assms show ?thesis by simp
next
  case (Some x)
  obtain inner leaf where x: "x = (inner, leaf)" by fastforce
  with Some outer_dispatch_chain [where T = T and F = F and origin = origin and call = call and s = s] assms have
    e: "leaf_effect T inner leaf (rt_chain s) (rt_chain s')" by simp
  show ?thesis
  proof (cases leaf)
    case (AbcCall abc)
    have "snd (dispatch T Root abc (rt_chain s)) = rt_chain s \<or> (\<exists>n client. abc = Unreserve n client)"
      by (cases abc) (simp_all add: request_delegate_def update_delegate_status_def begin_task_def init_errand_def
          update_errand_def)
    with Some x e AbcCall dispatch_finishes [of T inner abc "rt_chain s" cid res] show ?thesis by auto
  qed (use Some x e in \<open>auto simp: view_def\<close>)
qed

theorem sudo_has_no_vote_witness:
  "let s = demo_runtime demo_voted;
       as_root = SudoCall AsRoot (AbcCall (UpdateErrand demo_cid [2]));
       as_alice = SudoCall (AsAccount alice) (AbcCall (UpdateErrand demo_cid [2]))
   in rt_chain (snd (outer_dispatch ref_trait demo_pallets (Signed carol) as_root s)) = rt_chain s \<and>
      fst (view (rt_chain (snd (outer_dispatch ref_trait demo_pallets (Signed carol) as_alice s))) demo_cid) = Finished [2] \<and>
      innermost demo_pallets (Signed carol) as_alice (rt_other s) = Some (Signed alice, AbcCall (UpdateErrand demo_cid [2]))"
proof -
  let ?s = "demo_runtime demo_voted"
  let ?root = "SudoCall AsRoot (AbcCall (UpdateErrand demo_cid [2])) :: (AccountId32, unit) OuterCall"
    and ?alice = "SudoCall (AsAccount alice) (AbcCall (UpdateErrand demo_cid [2])) :: (AccountId32, unit) OuterCall"
  have "innermost demo_pallets (Signed carol) ?root (rt_other ?s) = Some (Root, AbcCall (UpdateErrand demo_cid [2]))"
    by (simp add: demo_pallets_def)
  with sudo_has_no_vote [OF refl, of ref_trait demo_pallets "Signed carol" ?root ?s]
  have r: "rt_chain (snd (outer_dispatch ref_trait demo_pallets (Signed carol) ?root ?s)) = rt_chain ?s" by blast
  have f: "fst (view (rt_chain (snd (outer_dispatch ref_trait demo_pallets (Signed carol) ?alice ?s))) demo_cid) = Finished [2]"
    "fst (view (rt_chain ?s) demo_cid) = InProgress" by code_simp+
  have i: "innermost demo_pallets (Signed carol) ?alice (rt_other ?s) = Some (Signed alice, AbcCall (UpdateErrand demo_cid [2]))"
    by (simp add: demo_pallets_def)
  with f sudo_has_no_vote [OF refl, of ref_trait demo_pallets "Signed carol" ?alice ?s demo_cid "[2]"]
  have "approver ref_trait (rt_chain ?s) alice" by auto
  show ?thesis using r f(1) i by (simp only: Let_def)
qed

text \<open>
  C40: every call of the pallet fits into a block. Whatever a second of computation weighs, from 7693 units to half the
  range of a weight, the weight of each dispatchable is at most the maximal weight of an extrinsic; that is
  65 per cent of the weight of a block, rounded to a nearest integer, and never exceeds the share of the
  block that is available to extrinsics, which never exceeds the block.
\<close>

theorem call_weight_bounds:
  fixes P :: "'r Perbill" and S :: "('r, 'x, 'a) SystemTrait"
  assumes "perbill_laws P parts" and "S = system_trait P W api_versions"
    and "7693 \<le> unat (WEIGHT_PER_SECOND W)" and "unat (WEIGHT_PER_SECOND W) < 2 ^ 63"
  shows "dispatch_weight call \<le> MaximumExtrinsicWeight_of S \<and>
         \<bar>100 * uint (MaximumExtrinsicWeight_of S) - 65 * uint (MaximumBlockWeight_of S)\<bar> \<le> 50 \<and>
         MaximumExtrinsicWeight_of S \<le> times P (AvailableBlockRatio_of S) (MaximumBlockWeight_of S) \<and>
         times P (AvailableBlockRatio_of S) (MaximumBlockWeight_of S) \<le> MaximumBlockWeight_of S"
proof -
  let ?n = "MaximumBlockWeight (WEIGHT_PER_SECOND W)" and ?m = "MaximumExtrinsicWeight P (WEIGHT_PER_SECOND W)"
  have m: "\<bar>100 * uint ?m - 65 * uint ?n\<bar> \<le> 50"
    and le: "?m \<le> times P (AvailableBlockRatio P) ?n" "times P (AvailableBlockRatio P) ?n \<le> ?n"
    by (rule perbill_laws.extrinsic_weight [OF assms(1)])+
  have "unat (2 :: u64) * unat (WEIGHT_PER_SECOND W) < 2 ^ LENGTH(64)" using assms(4) by simp
  then have "unat ?n = unat (2 :: u64) * unat (WEIGHT_PER_SECOND W)"
    unfolding MaximumBlockWeight_def by (rule unat_mult_lem [THEN iffD1])
  then have "15386 \<le> unat ?n" using assms(3) by simp
  then have "15386 \<le> uint ?n" by (simp only: uint_nat)
  with m have "10000 \<le> uint ?m" by linarith
  then have "10000 \<le> ?m" by (simp add: word_le_def)
  then have "dispatch_weight call \<le> ?m" by (cases call) (simp_all add: weight_defs)
  with m le assms(2) show ?thesis by (simp add: system_trait_def)
qed

definition demo_weights :: FrameWeights where
  "demo_weights = \<lparr> RocksDbWeight_read = 25000000, RocksDbWeight_write = 100000000, BlockExecutionWeight = 5000000000,
     ExtrinsicBaseWeight = 125000000, WEIGHT_PER_SECOND = 1000000000000 \<rparr>"

theorem call_weight_bounds_witness:
  "dispatch_weight (UpdateDelegateStatus alice) \<le> MaximumExtrinsicWeight nat_Perbill (WEIGHT_PER_SECOND demo_weights) \<and>
   MaximumExtrinsicWeight nat_Perbill (WEIGHT_PER_SECOND demo_weights) = 1300000000000"
proof -
  have "MaximumExtrinsicWeight nat_Perbill (WEIGHT_PER_SECOND demo_weights) = 1300000000000"
    by (simp add: MaximumExtrinsicWeight_def MaximumBlockWeight_def AvailableBlockRatio_def nat_Perbill_def demo_weights_def)
  moreover have "7693 \<le> unat (WEIGHT_PER_SECOND demo_weights)" "unat (WEIGHT_PER_SECOND demo_weights) < 2 ^ 63"
    by (simp_all add: demo_weights_def)
  ultimately show ?thesis
    using call_weight_bounds [OF nat_perbill.perbill_laws_axioms refl, of demo_weights "UpdateDelegateStatus alice" "[]"]
    by (simp add: system_trait_def)
qed

end
