(* ===== verification/Mock_Runtime.thy ===== *)
theory Mock_Runtime
  imports Outer_Runtime
begin

text \<open>
  \<^verbatim>\<open>pallets/abc-demo/src/mock.rs\<close>: the runtime \<^verbatim>\<open>Test\<close> that the pallet's tests run on, its parameters, its
  \<^verbatim>\<open>create_transaction\<close> and the state \<^verbatim>\<open>new_test_ext\<close> builds. Storage building, SS58 and the balances pallet are code of other
  crates and fields of the record \<open>TestExternals\<close>. Block numbers of \<^verbatim>\<open>Test\<close> are \<^verbatim>\<open>u64\<close>; the chain here counts
  them as the runtime does, which is the same below \<open>2 ^ 32\<close>.
\<close>

section \<open>Parameters\<close>

definition mock_BlockHashCount :: u64 where "mock_BlockHashCount = 250"
definition mock_MaximumBlockWeight :: u64 where "mock_MaximumBlockWeight = 1024"
definition mock_MaximumBlockLength :: u32 where "mock_MaximumBlockLength = 2 * 1024"
definition mock_AvailableBlockRatio :: "'r Perbill \<Rightarrow> 'r" where "mock_AvailableBlockRatio P = from_percent P 75"
definition mock_ExistentialDeposit :: u64 where "mock_ExistentialDeposit = 1"
definition GracePeriod :: u64 where "GracePeriod = 5"
definition UnsignedInterval :: u64 where "UnsignedInterval = 128"
definition UnsignedPriority :: u64 where "UnsignedPriority = push_bit 20 1"

record 'r TestSystemTrait =
  test_BlockHashCount :: u64
  test_MaximumBlockWeight :: u64
  test_MaximumExtrinsicWeight :: u64
  test_MaximumBlockLength :: u32
  test_AvailableBlockRatio :: 'r
  test_OnNewAccount :: Handler
  test_OnKilledAccount :: Handler

definition test_system_trait :: "'r Perbill \<Rightarrow> 'r TestSystemTrait" where
  "test_system_trait P =
     \<lparr> test_BlockHashCount = mock_BlockHashCount, test_MaximumBlockWeight = mock_MaximumBlockWeight,
       test_MaximumExtrinsicWeight = mock_MaximumBlockWeight, test_MaximumBlockLength = mock_MaximumBlockLength,
       test_AvailableBlockRatio = mock_AvailableBlockRatio P, test_OnNewAccount = NoHandler,
       test_OnKilledAccount = NoHandler \<rparr>"

record TestBalancesTrait =
  test_DustRemoval :: Handler
  test_ExistentialDeposit :: u64
  test_AccountStore :: Handler
  test_MaxLocks :: Handler

definition test_balances_trait :: TestBalancesTrait where
  "test_balances_trait =
     \<lparr> test_DustRemoval = NoHandler, test_ExistentialDeposit = mock_ExistentialDeposit,
       test_AccountStore = ByPallet System, test_MaxLocks = NoHandler \<rparr>"

section \<open>Transactions and the initial state\<close>

definition mock_create_transaction :: "'a Call \<Rightarrow> 'p \<Rightarrow> 'a \<Rightarrow> u64 \<Rightarrow> ('a Call \<times> u64 \<times> unit) option" where
  "mock_create_transaction call public account index = Some (call, (index, ()))"

text \<open>Building and assimilating storage answer \<^const>\<open>None\<close> where \<^verbatim>\<open>unwrap\<close> panics.\<close>

record ('a, 'c) TestExternals =
  from_ss58 :: "string \<Rightarrow> 'a option"
  build_default :: "'c option"
  assimilate_balances :: "('a \<times> nat) list \<Rightarrow> 'c \<Rightarrow> 'c option"

text \<open>The pallet's own genesis is not among what is assimilated: its storage is empty, and reads as its defaults.\<close>

definition empty_config :: AbcConfig where
  "empty_config = \<lparr>development_mode = False, update_result_accounts = []\<rparr>"

definition new_test_ext :: "('a, 'c) TestExternals \<Rightarrow> ('a, 'c) chain option" where
  "new_test_ext X =
     (case build_default X of
        None \<Rightarrow> None
      | Some t \<Rightarrow>
          (case from_ss58 X ''5G97JLuuT1opraWvfS6Smt4jaAZuyDquP9GjamKVcPC366qU'' of
             None \<Rightarrow> None
           | Some account1 \<Rightarrow>
               (case from_ss58 X ''5EPhGXBymJfrcvT2apo6E9tAm2xpNf8Y77zLxd4zjCBdVJeS'' of
                  None \<Rightarrow> None
                | Some account2 \<Rightarrow>
                    map_option (genesis_build empty_config)
                      (assimilate_balances X [(account1, 1000), (account2, 2000)] t))))"

lemma new_test_ext_Some:
  "new_test_ext X = Some w \<Longrightarrow> \<exists>cur. w = genesis_build empty_config cur"
  by (auto simp: new_test_ext_def split: option.splits)

lemma no_approver:
  assumes "reachable T empty_config w"
  shows "\<not> approver T w a"
  using cfg.inv_reachable [OF assms] by (simp add: config_inv_def approver_def empty_config_def)

section \<open>Properties\<close>

text \<open>
  No errand is ever finished on the mock runtime. \<^verbatim>\<open>new_test_ext\<close> leaves the accounts that may update results
  empty, so in every state reachable from it, after any calls and blocks, \<^verbatim>\<open>update_errand\<close> fails from every
  origin and changes nothing, and no errand is finished: the tests cannot reach the vote and
  the payment.
\<close>

theorem mock_settles_nothing:
  assumes "new_test_ext X = Some w0" and "(step T)\<^sup>*\<^sup>* w0 w"
  shows "(\<exists>e. update_errand T origin cid res w = (Inl e, w)) \<and> (\<forall>r. fst (view w cid) \<noteq> Finished r)"
proof -
  from new_test_ext_Some [OF assms(1)] obtain cur where w0: "w0 = genesis_build empty_config cur" by blast
  from assms(2) have r: "reachable T empty_config w"
    unfolding w0 by (induction rule: rtranclp_induct) (auto intro: reachable.intros)
  have "\<exists>e. update_errand T origin cid res w = (Inl e, w)"
    by (cases rule: update_errand_cases [of T origin cid res w]) (use no_approver [OF r] in auto)
  moreover have "fst (view w cid) \<noteq> Finished r" for r
  proof
    assume "fst (view w cid) = Finished r"
    then obtain e where e: "Errands w cid = Some e" "e_status e = Done"
      by (cases "Errands w cid") (auto simp: view_def split: ErrandStatus.splits)
    have v: "vote_inv T w" using vote.inv_reachable [OF \<open>reachable T empty_config w\<close>] .
    moreover have "\<not> DevelopmentMode w"
      using cfg.inv_reachable [OF \<open>reachable T empty_config w\<close>] by (simp add: config_inv_def empty_config_def)
    ultimately have "MIN_UPDATE_RESULT_ACCOUNT \<le> length (votes w cid)" using e by (auto simp: vote_inv_def)
    then obtain a where "a \<in> set (votes w cid)"
      by (cases "votes w cid") (auto simp: MIN_UPDATE_RESULT_ACCOUNT_def)
    with v have "approver T w a" by (auto simp: vote_inv_def)
    with no_approver [OF \<open>reachable T empty_config w\<close>] show False by blast
  qed
  ultimately show ?thesis by blast
qed

definition demo_externals :: "(AccountId32, AccountId32 ledger) TestExternals" where
  "demo_externals =
     \<lparr> from_ss58 = (\<lambda>s. if s = ''5G97JLuuT1opraWvfS6Smt4jaAZuyDquP9GjamKVcPC366qU'' then Some alice else Some bob),
       build_default = Some \<lparr>l_free = (\<lambda>_. 0), l_reserved = (\<lambda>_. 0)\<rparr>,
       assimilate_balances = (\<lambda>bs c. Some (c\<lparr>l_free := (\<lambda>a. case map_of bs a of Some b \<Rightarrow> b | None \<Rightarrow> 0)\<rparr>)) \<rparr>"

text \<open>The calls of the test \<^verbatim>\<open>begin_task_works\<close> with the arguments the dispatchables have: they succeed, up to the open
  errand, which nobody can finish.\<close>

definition demo_test :: "(AccountId32, AccountId32 ledger) chain \<Rightarrow> (AccountId32, AccountId32 ledger) chain" where
  "demo_test w = run_extrinsics ref_trait
     [(Signed alice, RequestDelegate [0] [49]), (Signed alice, UpdateDelegateStatus alice),
      (Signed alice, BeginTask [0] [1, 1] 5), (Signed alice, BeginTask [0] [1, 2] 5),
      (Signed alice, InitErrand alice [3, 4] [1, 2])] w"

lemma run_steps: "(step T)\<^sup>*\<^sup>* w (run_extrinsics T xs w)"
proof (induction xs arbitrary: w)
  case (Cons x xs)
  obtain origin call where "x = (origin, call)" by fastforce
  with Cons [of "snd (dispatch T origin call w)"] step.extrinsic [of T w origin call] show ?case
    by (simp add: converse_rtranclp_into_rtranclp)
qed simp

theorem mock_settles_nothing_witness:
  "\<exists>w0. new_test_ext demo_externals = Some w0 \<and>
     map t_description_cid (block_tasks (demo_test w0)) = [[1, 1], [1, 2]] \<and>
     fst (view (demo_test w0) [1, 2]) = InProgress \<and>
     (\<exists>e. update_errand ref_trait (Signed alice) [1, 2] [7] (demo_test w0) = (Inl e, demo_test w0))"
proof -
  let ?w0 = "the (new_test_ext demo_externals)"
  have "new_test_ext demo_externals \<noteq> None" by (simp add: new_test_ext_def demo_externals_def)
  then have w0: "new_test_ext demo_externals = Some ?w0" by simp
  have "map t_description_cid (block_tasks (demo_test ?w0)) = [[1, 1], [1, 2]]"
    "fst (view (demo_test ?w0) [1, 2]) = InProgress" by code_simp+
  moreover have "(step ref_trait)\<^sup>*\<^sup>* ?w0 (demo_test ?w0)" unfolding demo_test_def by (rule run_steps)
  moreover from mock_settles_nothing [OF w0 this] have
    "\<exists>e. update_errand ref_trait (Signed alice) [1, 2] [7] (demo_test ?w0) = (Inl e, demo_test ?w0)" by blast
  ultimately show ?thesis using w0 by (intro exI [of _ ?w0]) simp
qed

end
