(* ===== verification/Chain_Spec.thy ===== *)
theory Chain_Spec
  imports Runtime_Config Rust_Strings
begin

text \<open>
  \<^verbatim>\<open>node/src/chain_spec.rs\<close> and \<^verbatim>\<open>load_spec\<close> of \<^verbatim>\<open>node/src/command.rs\<close>: the genesis states a node can
  start from. Key derivation is code of another crate (the record \<open>Keys\<close>): a seed gives an sr25519 key
  for accounts and Aura, an ed25519 key for Grandpa, or nothing if it is not a valid secret, where
  \<^verbatim>\<open>expect\<close> panics. The runtime's WebAssembly binary and the reader of JSON specifications are
  arguments.
\<close>

section \<open>Keys\<close>

record Keys =
  sr25519_public :: "bytes \<Rightarrow> bytes option"
  ed25519_public :: "bytes \<Rightarrow> bytes option"
  sr25519_account :: "bytes \<Rightarrow> AccountId32"

definition get_from_seed :: "(bytes \<Rightarrow> bytes option) \<Rightarrow> string \<Rightarrow> bytes option" where
  "get_from_seed from_string seed = from_string (ascii ''//'' @ ascii seed)"

definition get_account_id_from_seed :: "Keys \<Rightarrow> string \<Rightarrow> AccountId32 option" where
  "get_account_id_from_seed K seed = map_option (sr25519_account K) (get_from_seed (sr25519_public K) seed)"

definition authority_keys_from_seed :: "Keys \<Rightarrow> string \<Rightarrow> (bytes \<times> bytes) option" where
  "authority_keys_from_seed K s =
     (case get_from_seed (sr25519_public K) s of
        None \<Rightarrow> None
      | Some aura \<Rightarrow> map_option (Pair aura) (get_from_seed (ed25519_public K) s))"

text \<open>A vector of values each of which may panic.\<close>

fun vec_of :: "'x option list \<Rightarrow> 'x list option" where
  "vec_of [] = Some []"
| "vec_of (x # xs) =
     (case x of
        None \<Rightarrow> None
      | Some y \<Rightarrow> (case vec_of xs of None \<Rightarrow> None | Some ys \<Rightarrow> Some (y # ys)))"

section \<open>Genesis\<close>

record GenesisConfig =
  system_code :: bytes
  balances :: "(AccountId32 \<times> Balance) list"
  aura_authorities :: "bytes list"
  grandpa_authorities :: "(bytes \<times> u64) list"
  sudo_key :: AccountId32
  pallet_abc :: AbcConfig

definition testnet_genesis ::
    "bytes \<Rightarrow> (bytes \<times> bytes) list \<Rightarrow> AccountId32 \<Rightarrow> AccountId32 list \<Rightarrow> bool \<Rightarrow> bool \<Rightarrow> AccountId32 list \<Rightarrow>
     GenesisConfig" where
  "testnet_genesis wasm_binary initial_authorities root_key endowed_accounts enable_println dev_mode accounts =
     \<lparr> system_code = wasm_binary,
       balances = map (\<lambda>k. (k, 2 ^ 60)) endowed_accounts,
       aura_authorities = map fst initial_authorities,
       grandpa_authorities = map (\<lambda>x. (snd x, 1)) initial_authorities,
       sudo_key = root_key,
       pallet_abc = \<lparr> development_mode = dev_mode, update_result_accounts = accounts \<rparr> \<rparr>"

text \<open>The genesis closures: the arguments of \<^verbatim>\<open>testnet_genesis\<close> are computed in order and any may
  panic.\<close>

definition seeded_genesis ::
    "Keys \<Rightarrow> bytes \<Rightarrow> string list \<Rightarrow> string \<Rightarrow> string list \<Rightarrow> bool \<Rightarrow> bool \<Rightarrow> string list \<Rightarrow> GenesisConfig option"
  where
  "seeded_genesis K wasm_binary authorities root endowed enable_println dev_mode accounts =
     (case vec_of (map (authority_keys_from_seed K) authorities) of
        None \<Rightarrow> None
      | Some initial_authorities \<Rightarrow>
          (case get_account_id_from_seed K root of
             None \<Rightarrow> None
           | Some root_key \<Rightarrow>
               (case vec_of (map (get_account_id_from_seed K) endowed) of
                  None \<Rightarrow> None
                | Some endowed_accounts \<Rightarrow>
                    (case vec_of (map (get_account_id_from_seed K) accounts) of
                       None \<Rightarrow> None
                     | Some accs \<Rightarrow>
                         Some (testnet_genesis wasm_binary initial_authorities root_key endowed_accounts
                                 enable_println dev_mode accs)))))"

datatype ChainType = Development | Local | Live

record ChainSpec =
  spec_name :: string
  spec_id :: string
  spec_type :: ChainType
  spec_genesis :: "GenesisConfig option"
  spec_bootnodes :: "string list"
  spec_telemetry :: "string option"
  spec_protocol_id :: "string option"
  spec_properties :: "string option"
  spec_extensions :: "string option"

definition dev_endowed :: "string list" where
  "dev_endowed = [''Alice'', ''Bob'', ''Alice//stash'', ''Bob//stash'']"

definition development_config :: "Keys \<Rightarrow> bytes option \<Rightarrow> string + ChainSpec" where
  "development_config K WASM_BINARY =
     (case WASM_BINARY of
        None \<Rightarrow> Inl ''Development wasm binary not available''
      | Some wasm_binary \<Rightarrow>
          Inr \<lparr> spec_name = ''Development'', spec_id = ''dev'', spec_type = Development,
                spec_genesis = seeded_genesis K wasm_binary [''Alice''] ''Alice'' dev_endowed True True [''Alice''],
                spec_bootnodes = [], spec_telemetry = None, spec_protocol_id = None,
                spec_properties = None, spec_extensions = None \<rparr>)"

definition local_endowed :: "string list" where
  "local_endowed =
     [''Alice'', ''Bob'', ''Charlie'', ''Dave'', ''Jzh'', ''Eve'', ''Ferdie'', ''Alice//stash'', ''Bob//stash'',
      ''Charlie//stash'', ''Dave//stash'', ''Eve//stash'', ''Ferdie//stash'', ''Jzh//stash'']"

definition local_accounts :: "string list" where
  "local_accounts = [''Alice'', ''Bob'', ''Charlie'', ''Dave'']"

definition local_testnet_config :: "Keys \<Rightarrow> bytes option \<Rightarrow> string + ChainSpec" where
  "local_testnet_config K WASM_BINARY =
     (case WASM_BINARY of
        None \<Rightarrow> Inl ''Development wasm binary not available''
      | Some wasm_binary \<Rightarrow>
          Inr \<lparr> spec_name = ''Local Testnet'', spec_id = ''local_testnet'', spec_type = Local,
                spec_genesis = seeded_genesis K wasm_binary [''Alice'', ''Bob''] ''Alice'' local_endowed True False
                                 local_accounts,
                spec_bootnodes = [], spec_telemetry = None, spec_protocol_id = None,
                spec_properties = None, spec_extensions = None \<rparr>)"

definition load_spec ::
    "Keys \<Rightarrow> bytes option \<Rightarrow> (string \<Rightarrow> string + ChainSpec) \<Rightarrow> string \<Rightarrow> string + ChainSpec" where
  "load_spec K WASM_BINARY from_json_file spec =
     (if spec = ''dev'' then development_config K WASM_BINARY
      else if spec = [] \<or> spec = ''local'' then local_testnet_config K WASM_BINARY
      else from_json_file spec)"

section \<open>Facts\<close>

lemma vec_of_map_Some: "vec_of (map Some ys) = Some ys"
  by (induction ys) auto

lemma vec_of_Some: "vec_of xs = Some ys \<longleftrightarrow> xs = map Some ys"
proof
  show "vec_of xs = Some ys \<Longrightarrow> xs = map Some ys"
    by (induction xs arbitrary: ys) (auto split: option.splits)
qed (simp add: vec_of_map_Some)

text \<open>What a preset genesis contains, seed by seed.\<close>

definition accounts_of :: "Keys \<Rightarrow> string list \<Rightarrow> AccountId32 set" where
  "accounts_of K seeds = {a. \<exists>s \<in> set seeds. get_account_id_from_seed K s = Some a}"

lemma seeded_genesis_Some:
  assumes "seeded_genesis K wasm auths root endowed pr dev accounts = Some g"
  shows "development_mode (pallet_abc g) = dev \<and>
         set (update_result_accounts (pallet_abc g)) = accounts_of K accounts \<and>
         length (update_result_accounts (pallet_abc g)) = length accounts \<and>
         get_account_id_from_seed K root = Some (sudo_key g) \<and>
         fst ` set (balances g) = accounts_of K endowed \<and>
         map snd (balances g) = replicate (length endowed) (2 ^ 60)"
proof -
  obtain ia r en ac where h: "get_account_id_from_seed K root = Some r"
    "map (get_account_id_from_seed K) endowed = map Some en"
    "map (get_account_id_from_seed K) accounts = map Some ac"
    "g = testnet_genesis wasm ia r en pr dev ac"
    using assms by (auto simp: seeded_genesis_def vec_of_Some split: option.splits)
  have img: "set xs = accounts_of K seeds" and len: "length xs = length seeds"
    if "map (get_account_id_from_seed K) seeds = map Some xs" for seeds xs
  proof -
    from that have "Some ` set xs = get_account_id_from_seed K ` set seeds"
      by (metis image_set)
    then show "set xs = accounts_of K seeds" unfolding accounts_of_def
      by (auto simp: image_iff) (metis imageE imageI option.inject)+
    from that show "length xs = length seeds" by (metis length_map)
  qed
  from h img [OF h(2)] img [OF h(3)] len [OF h(2)] len [OF h(3)] show ?thesis
    by (simp add: testnet_genesis_def image_image comp_def map_replicate_const)
qed

lemma accounts_of_mono: "set xs \<subseteq> set ys \<Longrightarrow> accounts_of K xs \<subseteq> accounts_of K ys"
  by (auto simp: accounts_of_def)

lemma preset_accounts:
  "set [''Alice''] \<subseteq> set dev_endowed" "set local_accounts \<subseteq> set local_endowed"
  "''Alice'' \<in> set dev_endowed" "''Alice'' \<in> set local_endowed"
  by (simp_all add: dev_endowed_def local_endowed_def local_accounts_def)

text \<open>The two presets have the same shape.\<close>

lemma load_preset:
  assumes "load_spec K wasm json spec = Inr cs" and "spec \<in> {''dev'', [], ''local''}"
    and "spec_genesis cs = Some g"
  obtains bin auths endowed dev accounts where
    "seeded_genesis K bin auths ''Alice'' endowed True dev accounts = Some g" and "dev \<longleftrightarrow> spec = ''dev''"
    and "set accounts \<subseteq> set endowed" and "''Alice'' \<in> set endowed" and "length endowed \<le> 14"
    and "dev \<or> MIN_UPDATE_RESULT_ACCOUNT \<le> length accounts"
proof (cases "spec = ''dev''")
  case True
  with assms(1,3) obtain bin where
    "seeded_genesis K bin [''Alice''] ''Alice'' dev_endowed True True [''Alice''] = Some g"
    by (auto simp: load_spec_def development_config_def split: option.splits)
  from that [OF this] True show thesis by (simp add: preset_accounts dev_endowed_def)
next
  case False
  with assms obtain bin where
    "seeded_genesis K bin [''Alice'', ''Bob''] ''Alice'' local_endowed True False local_accounts = Some g"
    by (auto simp: load_spec_def local_testnet_config_def split: option.splits)
  from that [OF this] False show thesis
    by (simp add: preset_accounts local_endowed_def local_accounts_def MIN_UPDATE_RESULT_ACCOUNT_def)
qed

section \<open>Properties\<close>

text \<open>
  C36: the preset chains are usable. Where the node's preset \<^verbatim>\<open>dev\<close>, \<^verbatim>\<open>local\<close> or the empty id gives a
  genesis, only \<^verbatim>\<open>dev\<close> is in development mode; the sudo account and every account that may update
  results are endowed, each with at least the existential deposit; all endowments together fit in
  a \<^verbatim>\<open>u128\<close>; and outside development mode there are enough accounts to reach
  \<^verbatim>\<open>MIN_UPDATE_RESULT_ACCOUNT\<close>.
\<close>

theorem preset_genesis_usable:
  assumes "load_spec K wasm json spec = Inr cs" and "spec \<in> {''dev'', [], ''local''}"
    and "spec_genesis cs = Some g"
  shows "(development_mode (pallet_abc g) \<longleftrightarrow> spec = ''dev'') \<and>
         insert (sudo_key g) (set (update_result_accounts (pallet_abc g))) \<subseteq> fst ` set (balances g) \<and>
         list_all (\<lambda>(a, b). ExistentialDeposit \<le> b) (balances g) \<and>
         sum_list (map snd (balances g)) < 2 ^ 128 \<and>
         (development_mode (pallet_abc g) \<or>
          MIN_UPDATE_RESULT_ACCOUNT \<le> length (update_result_accounts (pallet_abc g)))"
proof -
  obtain bin auths endowed dev accounts where
    s: "seeded_genesis K bin auths ''Alice'' endowed True dev accounts = Some g" and dev: "dev \<longleftrightarrow> spec = ''dev''"
    and sub: "set accounts \<subseteq> set endowed" "''Alice'' \<in> set endowed" and len: "length endowed \<le> 14"
    and thr: "dev \<or> MIN_UPDATE_RESULT_ACCOUNT \<le> length accounts"
    by (rule load_preset [OF assms])
  note g = seeded_genesis_Some [OF s]
  from g sub have "insert (sudo_key g) (set (update_result_accounts (pallet_abc g))) \<subseteq> fst ` set (balances g)"
    using accounts_of_mono [OF sub(1), of K] by (auto simp: accounts_of_def)
  moreover have "list_all (\<lambda>(a, b). ExistentialDeposit \<le> b) (balances g)"
  proof -
    from g have "set (map snd (balances g)) \<subseteq> {2 ^ 60}" by auto
    then show ?thesis by (auto simp: list_all_iff ExistentialDeposit_def)
  qed
  moreover have "sum_list (map snd (balances g)) < 2 ^ 128"
    using g len by (simp add: sum_list_replicate)
  ultimately show ?thesis using g dev thr by simp
qed

text \<open>Keys that are the bytes of the seed, cut or filled to 32.\<close>

definition demo_keys :: Keys where
  "demo_keys = \<lparr> sr25519_public = (\<lambda>s. Some (take 32 (s @ replicate 32 0))),
                 ed25519_public = (\<lambda>s. Some s), sr25519_account = account_of \<rparr>"

theorem preset_genesis_usable_witness:
  "\<exists>cs g. load_spec demo_keys (Some [0]) (\<lambda>path. Inl path) ''local'' = Inr cs \<and> spec_genesis cs = Some g \<and>
     \<not> development_mode (pallet_abc g) \<and> MIN_UPDATE_RESULT_ACCOUNT \<le> length (update_result_accounts (pallet_abc g))"
proof -
  let ?r = "load_spec demo_keys (Some [0]) (\<lambda>path. Inl path) ''local''"
  obtain cs where cs: "?r = Inr cs"
    by (auto simp: load_spec_def local_testnet_config_def)
  have "spec_genesis cs \<noteq> None"
    using cs
    by (auto simp: load_spec_def local_testnet_config_def seeded_genesis_def local_endowed_def local_accounts_def
        authority_keys_from_seed_def get_account_id_from_seed_def get_from_seed_def demo_keys_def)
  then obtain g where g: "spec_genesis cs = Some g" by blast
  from preset_genesis_usable [OF cs _ g] cs g show ?thesis by auto
qed

end
