(* ===== verification/Genesis_Helper.thy ===== *)
theory Genesis_Helper
  imports Chain_Spec Runtime_Api
begin

text \<open>
  \<^verbatim>\<open>runtime/src/genesis.rs\<close>: a second genesis, for tests, in a file that is no module of its crate. It is
  compared with the genesis of the node's preset \<^verbatim>\<open>dev\<close> and with the pallets of the runtime that have a
  genesis configuration. The literal \<^verbatim>\<open>GenesisConfig\<close> of the file has three fields.
\<close>

section \<open>The helper\<close>

record HelperGenesisConfig =
  frame_system_code :: bytes
  pallet_balances :: "(AccountId32 \<times> Balance) list"
  pallet_sudo :: AccountId32

text \<open>\<^const>\<open>None\<close> is the panic of \<^verbatim>\<open>expect\<close>.\<close>

definition helper_get_from_seed :: "(bytes \<Rightarrow> bytes option) \<Rightarrow> string \<Rightarrow> bytes option" where
  "helper_get_from_seed from_string seed = from_string (ascii (''//'' @ seed))"

definition account_id_from_seed :: "Keys \<Rightarrow> string \<Rightarrow> AccountId32 option" where
  "account_id_from_seed K seed =
     (case helper_get_from_seed (sr25519_public K) seed of
        None \<Rightarrow> None
      | Some public \<Rightarrow> Some (sr25519_account K public))"

definition helper_testnet_genesis ::
    "bytes option \<Rightarrow> AccountId32 \<Rightarrow> AccountId32 list \<Rightarrow> HelperGenesisConfig option" where
  "helper_testnet_genesis WASM_BINARY root_key endowed_accounts =
     (case WASM_BINARY of
        None \<Rightarrow> None
      | Some code \<Rightarrow>
          Some \<lparr> frame_system_code = code,
                 pallet_balances = map (\<lambda>k. (k, 2 ^ 60)) endowed_accounts,
                 pallet_sudo = root_key \<rparr>)"

definition dev_genesis :: "Keys \<Rightarrow> bytes option \<Rightarrow> HelperGenesisConfig option" where
  "dev_genesis K WASM_BINARY =
     (case account_id_from_seed K ''Alice'' of
        None \<Rightarrow> None
      | Some root_key \<Rightarrow>
          (case vec_of [account_id_from_seed K ''Alice'', account_id_from_seed K ''Bob'',
                        account_id_from_seed K ''Alice//stash'', account_id_from_seed K ''Bob//stash''] of
             None \<Rightarrow> None
           | Some endowed_accounts \<Rightarrow> helper_testnet_genesis WASM_BINARY root_key endowed_accounts))"

section \<open>Comparison\<close>

text \<open>The part of a full genesis that the helper has, and the pallets it configures.\<close>

definition helper_part :: "GenesisConfig \<Rightarrow> HelperGenesisConfig" where
  "helper_part g = \<lparr> frame_system_code = system_code g, pallet_balances = balances g, pallet_sudo = sudo_key g \<rparr>"

definition helper_pallets :: "Pallet list" where
  "helper_pallets = [System, Balances, Sudo]"

lemma account_id_from_seed_eq [simp]: "account_id_from_seed K = get_account_id_from_seed K"
  by (rule ext) (simp add: account_id_from_seed_def get_account_id_from_seed_def get_from_seed_def
      helper_get_from_seed_def ascii_def map_option_case split: option.split)

lemma helper_part_testnet [simp]:
  "Some (helper_part (testnet_genesis wasm auths root endowed pr dev accs)) =
     helper_testnet_genesis (Some wasm) root endowed"
  by (simp add: helper_testnet_genesis_def helper_part_def testnet_genesis_def)

text \<open>The presets' closure only adds the authority keys and the approvers to what can panic.\<close>

lemma seeded_genesis_helper_part:
  assumes "vec_of (map (authority_keys_from_seed K) auths) = Some ks"
    and "vec_of (map (get_account_id_from_seed K) accounts) = Some accs"
  shows "map_option helper_part (seeded_genesis K wasm auths root endowed pr dev accounts) =
           (case (get_account_id_from_seed K root, vec_of (map (get_account_id_from_seed K) endowed)) of
              (Some r, Some es) \<Rightarrow> helper_testnet_genesis (Some wasm) r es
            | _ \<Rightarrow> None)"
  using assms by (simp add: seeded_genesis_def split: option.split)

section \<open>Properties\<close>

text \<open>
  The helper's genesis is the preset's, less three pallets. Whatever keys the seeds give and whether or not
  the runtime's binary is available: if Alice has authority keys, \<^verbatim>\<open>dev_genesis\<close> gives the binary, the balances
  and the sudo key of the node's development specification and panics exactly where that gives no
  genesis; and the configurable pallets of the runtime it says nothing of are Aura, Grandpa and the abc
  pallet.
\<close>

theorem dev_genesis_is_preset_part:
  "(case development_config K WASM_BINARY of
      Inl e \<Rightarrow> None
    | Inr cs \<Rightarrow> map_option helper_part (spec_genesis cs)) =
   (if authority_keys_from_seed K ''Alice'' = None then None else dev_genesis K WASM_BINARY) \<and>
   filter (\<lambda>p. p \<notin> set helper_pallets) (pallets_with Config_part) = [Aura, Grandpa, AbcPallet] \<and>
   set helper_pallets \<subseteq> set (pallets_with Config_part)"
proof -
  have dev: "dev_genesis K W =
      (case (get_account_id_from_seed K ''Alice'', vec_of (map (get_account_id_from_seed K) dev_endowed)) of
         (Some r, Some es) \<Rightarrow> helper_testnet_genesis W r es | _ \<Rightarrow> None)" for W
    by (simp add: dev_genesis_def dev_endowed_def split: option.split)
  have "map_option helper_part (seeded_genesis K wasm [''Alice''] ''Alice'' dev_endowed True True [''Alice'']) =
      (if authority_keys_from_seed K ''Alice'' = None then None else dev_genesis K (Some wasm))" for wasm
  proof (cases "authority_keys_from_seed K ''Alice''")
    case None
    then show ?thesis by (simp add: seeded_genesis_def)
  next
    case (Some ks)
    then obtain p where "get_account_id_from_seed K ''Alice'' = Some (sr25519_account K p)"
      by (auto simp: authority_keys_from_seed_def get_account_id_from_seed_def split: option.splits)
    with Some show ?thesis
      by (subst seeded_genesis_helper_part) (auto simp: dev split: option.split)
  qed
  moreover have "dev_genesis K None = None"
    by (simp add: dev helper_testnet_genesis_def split: option.split)
  moreover have "filter (\<lambda>p. p \<notin> set helper_pallets) (pallets_with Config_part) = [Aura, Grandpa, AbcPallet]"
    and "set helper_pallets \<subseteq> set (pallets_with Config_part)"
    by (simp_all add: helper_pallets_def pallets_with_def construct_runtime_def)
  ultimately show ?thesis by (simp add: development_config_def split: option.split)
qed

end
