(* ===== verification/Node_Service.thy ===== *)
theory Node_Service
  imports Prelude
begin

text \<open>
  \<^verbatim>\<open>node/src/service.rs\<close> and \<^verbatim>\<open>node/src/rpc.rs\<close>: how a node is put together.

  The functions build objects of other crates (client, network, consensus) and hand them on. What
  the code itself decides is which of these crates' functions it calls, in which order, with which
  options, and what it does when one fails. A call is a value of \<open>Action\<close>, with the options the code
  chooses; the crates' behaviour is the parameter \<open>Crates\<close>, on a state \<open>'s\<close> of the process: a call may
  change the state in any way and, where the code writes \<^verbatim>\<open>?\<close> or \<^verbatim>\<open>expect\<close>, may fail. The state of the start-up
  keeps the calls made, the failed one included. The objects handed from call to call are not modelled.
\<close>

section \<open>Configuration and calls\<close>

text \<open>The part of \<^verbatim>\<open>sc_service::Configuration\<close> the code reads; the three questions on the role are the
  crate's answers to \<^verbatim>\<open>Role::Light\<close>, \<^verbatim>\<open>is_authority\<close> and \<^verbatim>\<open>is_network_authority\<close>.\<close>

record Configuration =
  offchain_worker_enabled :: bool
  role_is_light :: bool
  role_is_authority :: bool
  role_is_network_authority :: bool
  force_authoring :: bool
  node_name :: bytes
  disable_grandpa :: bool
  dev_key_seed :: "bytes option"

datatype CanAuthor = CanAuthorWithNativeVersion | NeverCanAuthor

record ImportQueueParams =
  justification_import :: bool
  finality_proof_import :: bool
  can_author_with :: CanAuthor

record BuildNetworkParams =
  net_on_demand :: bool
  block_announce_validator_builder :: bool
  finality_proof_request_builder :: bool
  finality_proof_provider :: bool

datatype RpcExtensions = CreateFull | NoExtensions

record SpawnTasksParams =
  spawn_on_demand :: bool
  remote_blockchain :: bool
  rpc_extensions_builder :: RpcExtensions

record GrandpaConfig =
  gossip_duration_millis :: u64
  justification_period :: u32
  g_name :: "bytes option"
  observer_enabled :: bool
  g_keystore :: bool
  is_authority :: bool

datatype Action =
    NewFullParts | NewLightParts
  | NewFullPool | NewLightPool
  | GrandpaBlockImport | GrandpaLightBlockImport
  | AuraBlockImport | SlotDuration
  | ImportQueue ImportQueueParams
  | NewFinalityProofProvider
  | BuildNetwork BuildNetworkParams
  | BuildOffchainWorkers
  | InsertDevKey bytes bytes
  | SpawnTasks SpawnTasksParams
  | NewProposer
  | StartAura bool CanAuthor
  | SpawnEssential string
  | RunGrandpaVoter GrandpaConfig
  | SetupDisabledGrandpa
  | StartNetwork

definition KEY_TYPE :: bytes where
  "KEY_TYPE = [100, 101, 109, 111]"

section \<open>Making a call\<close>

datatype StartError = Service bytes | Panic

record 's Crates =
  crate_call :: "Action \<Rightarrow> 's \<Rightarrow> 's"
  crate_try :: "Action \<Rightarrow> 's \<Rightarrow> (bytes + unit) \<times> 's"

record 's Startup =
  process :: 's
  calls :: "Action list"

definition call :: "'s Crates \<Rightarrow> Action \<Rightarrow> 's Startup \<Rightarrow> (StartError + unit) \<times> 's Startup" where
  "call K act b = (Inr (), \<lparr>process = crate_call K act (process b), calls = calls b @ [act]\<rparr>)"

text \<open>\<open>try_with\<close> turns an error of the crate into the error of the start-up: \<^verbatim>\<open>?\<close> returns it, \<^verbatim>\<open>expect\<close>
  panics.\<close>

definition try_with ::
    "(bytes \<Rightarrow> StartError) \<Rightarrow> 's Crates \<Rightarrow> Action \<Rightarrow> 's Startup \<Rightarrow> (StartError + unit) \<times> 's Startup" where
  "try_with err K act b =
     (case crate_try K act (process b) of
        (Inl e, s) \<Rightarrow> (Inl (err e), \<lparr>process = s, calls = calls b @ [act]\<rparr>)
      | (Inr _, s) \<Rightarrow> (Inr (), \<lparr>process = s, calls = calls b @ [act]\<rparr>))"

abbreviation try_call :: "'s Crates \<Rightarrow> Action \<Rightarrow> 's Startup \<Rightarrow> (StartError + unit) \<times> 's Startup" where
  "try_call \<equiv> try_with Service"

abbreviation expect_call :: "'s Crates \<Rightarrow> Action \<Rightarrow> 's Startup \<Rightarrow> (StartError + unit) \<times> 's Startup" where
  "expect_call \<equiv> try_with (\<lambda>_. Panic)"

section \<open>Services\<close>

definition full_import_queue :: ImportQueueParams where
  "full_import_queue = \<lparr>justification_import = True, finality_proof_import = False,
     can_author_with = CanAuthorWithNativeVersion\<rparr>"

definition new_partial :: "'s Crates \<Rightarrow> Configuration \<Rightarrow> 's Startup \<Rightarrow> (StartError + unit) \<times> 's Startup" where
  "new_partial K config b =
     and_then (try_call K NewFullParts b) (\<lambda>_ b.
     and_then (call K NewFullPool b) (\<lambda>_ b.
     and_then (try_call K GrandpaBlockImport b) (\<lambda>_ b.
     and_then (call K AuraBlockImport b) (\<lambda>_ b.
     and_then (try_call K SlotDuration b) (\<lambda>_ b.
     try_call K (ImportQueue full_import_queue) b)))))"

definition grandpa_config :: "Configuration \<Rightarrow> GrandpaConfig" where
  "grandpa_config config =
     \<lparr> gossip_duration_millis = 333, justification_period = 512, g_name = Some (node_name config),
       observer_enabled = False, g_keystore = role_is_authority config,
       is_authority = role_is_network_authority config \<rparr>"

definition start_authoring :: "'s Crates \<Rightarrow> Configuration \<Rightarrow> 's Startup \<Rightarrow> (StartError + unit) \<times> 's Startup" where
  "start_authoring K config b =
     (if role_is_authority config
      then and_then (call K NewProposer b) (\<lambda>_ b.
           and_then (try_call K SlotDuration b) (\<lambda>_ b.
           and_then (try_call K (StartAura (force_authoring config) CanAuthorWithNativeVersion) b) (\<lambda>_ b.
           call K (SpawnEssential ''aura'') b)))
      else (Inr (), b))"

definition start_finality :: "'s Crates \<Rightarrow> Configuration \<Rightarrow> 's Startup \<Rightarrow> (StartError + unit) \<times> 's Startup" where
  "start_finality K config b =
     (let enable_grandpa = \<not> disable_grandpa config
      in if enable_grandpa
         then and_then (try_call K (RunGrandpaVoter (grandpa_config config)) b) (\<lambda>_ b.
              call K (SpawnEssential ''grandpa-voter'') b)
         else try_call K SetupDisabledGrandpa b)"

definition insert_dev_key :: "'s Crates \<Rightarrow> Configuration \<Rightarrow> 's Startup \<Rightarrow> (StartError + unit) \<times> 's Startup" where
  "insert_dev_key K config b =
     (case dev_key_seed config of
        Some seed \<Rightarrow> expect_call K (InsertDevKey seed KEY_TYPE) b
      | None \<Rightarrow> (Inr (), b))"

definition build_offchain_workers ::
    "'s Crates \<Rightarrow> Configuration \<Rightarrow> 's Startup \<Rightarrow> (StartError + unit) \<times> 's Startup" where
  "build_offchain_workers K config b =
     (if offchain_worker_enabled config then call K BuildOffchainWorkers b else (Inr (), b))"

definition full_network :: BuildNetworkParams where
  "full_network = \<lparr>net_on_demand = False, block_announce_validator_builder = False,
     finality_proof_request_builder = False, finality_proof_provider = True\<rparr>"

definition full_tasks :: SpawnTasksParams where
  "full_tasks = \<lparr>spawn_on_demand = False, remote_blockchain = False, rpc_extensions_builder = CreateFull\<rparr>"

definition new_full :: "'s Crates \<Rightarrow> Configuration \<Rightarrow> 's Startup \<Rightarrow> (StartError + unit) \<times> 's Startup" where
  "new_full K config b =
     and_then (new_partial K config b) (\<lambda>_ b.
     and_then (call K NewFinalityProofProvider b) (\<lambda>_ b.
     and_then (try_call K (BuildNetwork full_network) b) (\<lambda>_ b.
     and_then (build_offchain_workers K config b) (\<lambda>_ b.
     and_then (insert_dev_key K config b) (\<lambda>_ b.
     and_then (try_call K (SpawnTasks full_tasks) b) (\<lambda>_ b.
     and_then (start_authoring K config b) (\<lambda>_ b.
     and_then (start_finality K config b) (\<lambda>_ b.
     call K StartNetwork b))))))))"

definition light_import_queue :: ImportQueueParams where
  "light_import_queue = \<lparr>justification_import = False, finality_proof_import = True,
     can_author_with = NeverCanAuthor\<rparr>"

definition light_network :: BuildNetworkParams where
  "light_network = \<lparr>net_on_demand = True, block_announce_validator_builder = False,
     finality_proof_request_builder = True, finality_proof_provider = True\<rparr>"

definition light_tasks :: SpawnTasksParams where
  "light_tasks = \<lparr>spawn_on_demand = True, remote_blockchain = True, rpc_extensions_builder = NoExtensions\<rparr>"

definition new_light :: "'s Crates \<Rightarrow> Configuration \<Rightarrow> 's Startup \<Rightarrow> (StartError + unit) \<times> 's Startup" where
  "new_light K config b =
     and_then (try_call K NewLightParts b) (\<lambda>_ b.
     and_then (call K NewLightPool b) (\<lambda>_ b.
     and_then (try_call K GrandpaLightBlockImport b) (\<lambda>_ b.
     and_then (try_call K SlotDuration b) (\<lambda>_ b.
     and_then (try_call K (ImportQueue light_import_queue) b) (\<lambda>_ b.
     and_then (call K NewFinalityProofProvider b) (\<lambda>_ b.
     and_then (try_call K (BuildNetwork light_network) b) (\<lambda>_ b.
     and_then (build_offchain_workers K config b) (\<lambda>_ b.
     and_then (try_call K (SpawnTasks light_tasks) b) (\<lambda>_ b.
     call K StartNetwork b)))))))))"

section \<open>Remote procedure calls\<close>

text \<open>An \<^verbatim>\<open>IoHandler\<close> maps method names to handlers; \<^verbatim>\<open>extend_with\<close> adds the methods of a delegate, in
  the place of those with the same name. The two delegates are code of other crates.\<close>

record ('c, 'p) FullDeps =
  deps_client :: 'c
  deps_pool :: 'p
  deps_deny_unsafe :: bool

record ('c, 'p, 'h) RpcCrates =
  system_api :: "'c \<Rightarrow> 'p \<Rightarrow> bool \<Rightarrow> string \<Rightarrow> 'h option"
  payment_api :: "'c \<Rightarrow> string \<Rightarrow> 'h option"

definition extend_with :: "(string \<Rightarrow> 'h option) \<Rightarrow> (string \<Rightarrow> 'h option) \<Rightarrow> string \<Rightarrow> 'h option" where
  "extend_with io delegate = (\<lambda>name. case delegate name of Some h \<Rightarrow> Some h | None \<Rightarrow> io name)"

definition create_full :: "('c, 'p, 'h) RpcCrates \<Rightarrow> ('c, 'p) FullDeps \<Rightarrow> string \<Rightarrow> 'h option" where
  "create_full R deps =
     (let io = (\<lambda>_. None);
          io = extend_with io (system_api R (deps_client deps) (deps_pool deps) (deps_deny_unsafe deps));
          io = extend_with io (payment_api R (deps_client deps))
      in io)"

text \<open>The methods of a full node are those of the two delegates.\<close>

lemma create_full_methods:
  "create_full R deps name \<noteq> None \<longleftrightarrow>
     system_api R (deps_client deps) (deps_pool deps) (deps_deny_unsafe deps) name \<noteq> None \<or>
     payment_api R (deps_client deps) name \<noteq> None"
  by (auto simp: create_full_def extend_with_def Let_def split: option.splits)

section \<open>Plans\<close>

text \<open>The same services as data: the calls in order, with what is done about an error.\<close>

datatype Mode = Plain | Question | Expecting

fun perform :: "'s Crates \<Rightarrow> Mode \<times> Action \<Rightarrow> 's Startup \<Rightarrow> (StartError + unit) \<times> 's Startup" where
  "perform K (Plain, act) b = call K act b"
| "perform K (Question, act) b = try_call K act b"
| "perform K (Expecting, act) b = expect_call K act b"

fun run_plan :: "'s Crates \<Rightarrow> (Mode \<times> Action) list \<Rightarrow> 's Startup \<Rightarrow> (StartError + unit) \<times> 's Startup" where
  "run_plan K [] b = (Inr (), b)"
| "run_plan K (step # plan) b = and_then (perform K step b) (\<lambda>_ b. run_plan K plan b)"

definition partial_plan :: "(Mode \<times> Action) list" where
  "partial_plan =
     [(Question, NewFullParts), (Plain, NewFullPool), (Question, GrandpaBlockImport), (Plain, AuraBlockImport),
      (Question, SlotDuration), (Question, ImportQueue full_import_queue)]"

definition workers_plan :: "Configuration \<Rightarrow> (Mode \<times> Action) list" where
  "workers_plan config = (if offchain_worker_enabled config then [(Plain, BuildOffchainWorkers)] else [])"

definition dev_key_plan :: "Configuration \<Rightarrow> (Mode \<times> Action) list" where
  "dev_key_plan config =
     (case dev_key_seed config of None \<Rightarrow> [] | Some seed \<Rightarrow> [(Expecting, InsertDevKey seed KEY_TYPE)])"

definition authoring_plan :: "Configuration \<Rightarrow> (Mode \<times> Action) list" where
  "authoring_plan config =
     (if role_is_authority config
      then [(Plain, NewProposer), (Question, SlotDuration),
            (Question, StartAura (force_authoring config) CanAuthorWithNativeVersion),
            (Plain, SpawnEssential ''aura'')]
      else [])"

definition finality_plan :: "Configuration \<Rightarrow> (Mode \<times> Action) list" where
  "finality_plan config =
     (if disable_grandpa config then [(Question, SetupDisabledGrandpa)]
      else [(Question, RunGrandpaVoter (grandpa_config config)), (Plain, SpawnEssential ''grandpa-voter'')])"

definition full_plan :: "Configuration \<Rightarrow> (Mode \<times> Action) list" where
  "full_plan config =
     partial_plan @ [(Plain, NewFinalityProofProvider), (Question, BuildNetwork full_network)] @
     workers_plan config @ dev_key_plan config @ [(Question, SpawnTasks full_tasks)] @
     authoring_plan config @ finality_plan config"

definition light_plan :: "Configuration \<Rightarrow> (Mode \<times> Action) list" where
  "light_plan config =
     [(Question, NewLightParts), (Plain, NewLightPool), (Question, GrandpaLightBlockImport),
      (Question, SlotDuration), (Question, ImportQueue light_import_queue), (Plain, NewFinalityProofProvider),
      (Question, BuildNetwork light_network)] @ workers_plan config @ [(Question, SpawnTasks light_tasks)]"

lemmas plan_defs = partial_plan_def workers_plan_def dev_key_plan_def authoring_plan_def finality_plan_def

lemma and_then_assoc: "and_then (and_then m f) g = and_then m (\<lambda>x s. and_then (f x s) g)"
  by (cases m; cases "fst m") (auto simp: and_then_def)

lemma and_then_unit: "and_then m (\<lambda>_ s. (Inr (), s)) = m" for m :: "('e + unit) \<times> 's"
  by (cases m; cases "fst m") (auto simp: and_then_def)

text \<open>The equations of plans as equations of functions.\<close>

lemma run_plan_fun:
  "run_plan K [] = (\<lambda>b. (Inr (), b))"
  "run_plan K ((Plain, act) # plan) = (\<lambda>b. and_then (call K act b) (\<lambda>_. run_plan K plan))"
  "run_plan K ((Question, act) # plan) = (\<lambda>b. and_then (try_call K act b) (\<lambda>_. run_plan K plan))"
  "run_plan K ((Expecting, act) # plan) = (\<lambda>b. and_then (expect_call K act b) (\<lambda>_. run_plan K plan))"
  by (simp_all add: fun_eq_iff)

lemma run_plan_append: "run_plan K (xs @ ys) = (\<lambda>b. and_then (run_plan K xs b) (\<lambda>_. run_plan K ys))"
proof (induction xs)
  case (Cons x xs)
  show ?case by (rule ext) (simp add: Cons and_then_assoc)
qed (simp add: fun_eq_iff)

lemmas run_plan_eqs = run_plan_fun run_plan_append and_then_unit and_then_assoc

text \<open>Each service is its plan.\<close>

lemma new_partial_plan: "new_partial K config b = run_plan K partial_plan b"
  by (simp add: new_partial_def partial_plan_def run_plan_eqs del: run_plan.simps)

lemma stage_plans:
  "build_offchain_workers K config b = run_plan K (workers_plan config) b"
  "insert_dev_key K config b = run_plan K (dev_key_plan config) b"
  "start_authoring K config b = run_plan K (authoring_plan config) b"
  "start_finality K config b = run_plan K (finality_plan config) b"
  by (simp_all add: build_offchain_workers_def insert_dev_key_def start_authoring_def start_finality_def
      plan_defs run_plan_eqs del: run_plan.simps split: option.split)

lemma new_full_plan: "new_full K config b = run_plan K (full_plan config @ [(Plain, StartNetwork)]) b"
  unfolding new_full_def new_partial_plan stage_plans full_plan_def
  by (simp add: run_plan_eqs del: run_plan.simps)

lemma new_light_plan: "new_light K config b = run_plan K (light_plan config @ [(Plain, StartNetwork)]) b"
  unfolding new_light_def stage_plans light_plan_def
  by (simp add: run_plan_eqs del: run_plan.simps)

text \<open>A plan is performed to its end, or to a call that fails and may fail.\<close>

lemma perform_outcome:
  "perform K (m, act) b = (r, b') \<Longrightarrow> calls b' = calls b @ [act] \<and> (m = Plain \<longrightarrow> r = Inr ())"
  by (cases m) (auto simp: call_def try_with_def split: prod.splits sum.splits)

lemma run_plan_outcome:
  assumes "run_plan K plan b = (r, b')"
  obtains (finished) "r = Inr ()" and "calls b' = calls b @ map snd plan"
  | (failed) e pre m act post where "r = Inl e" and "plan = pre @ (m, act) # post" and "m \<noteq> Plain"
      and "calls b' = calls b @ map snd pre @ [act]"
  using assms
proof (induction plan arbitrary: b thesis)
  case Nil
  then show ?case by simp
next
  case (Cons step plan)
  obtain m act where step: "step = (m, act)" by fastforce
  obtain r1 b1 where p: "perform K step b = (r1, b1)" by fastforce
  from perform_outcome [of K m act b r1 b1] p step
  have b1: "calls b1 = calls b @ [act]" "m = Plain \<longrightarrow> r1 = Inr ()" by simp_all
  show ?case
  proof (cases r1)
    case (Inl e)
    with Cons.prems(3) p have "r = Inl e" "b' = b1" by auto
    moreover from Inl b1 have "m \<noteq> Plain" by auto
    ultimately show ?thesis using Cons.prems(2) [of e "[]" m act plan] b1 step by simp
  next
    case (Inr u)
    with Cons.prems(3) p have rest: "run_plan K plan b1 = (r, b')" by simp
    show ?thesis
    proof (rule Cons.IH [OF _ _ rest])
      show ?thesis if "r = Inr ()" and "calls b' = calls b1 @ map snd plan"
        using Cons.prems(1) that b1 step by simp
      show ?thesis if "r = Inl e" and "plan = pre @ (m', act') # post" and "m' \<noteq> Plain"
        and "calls b' = calls b1 @ map snd pre @ [act']" for e pre m' act' post
        using Cons.prems(2) [of e "step # pre" m' act' post] that b1 step by simp
    qed
  qed
qed

text \<open>A plan whose last call cannot fail and occurs nowhere else: the call is made exactly when all
  goes well.\<close>

lemma run_plan_last:
  assumes "run_plan K (plan @ [(Plain, final)]) b = (r, b')" and "final \<notin> snd ` set plan"
    and "final \<notin> set (calls b)"
  shows "(r = Inr () \<longleftrightarrow> final \<in> set (calls b')) \<and>
         (r = Inr () \<longrightarrow> calls b' = calls b @ map snd plan @ [final])"
  using assms(1)
proof (cases rule: run_plan_outcome)
  case finished
  then show ?thesis by simp
next
  case (failed e pre m act post)
  then have "post \<noteq> []" by (cases post rule: rev_cases) auto
  with failed(2) have "(m, act) \<in> set plan" "set pre \<subseteq> set plan"
    by (auto simp: append_eq_append_conv2 Cons_eq_append_conv append_eq_Cons_conv)
  with failed assms(2,3) show ?thesis by (auto simp: image_iff)
qed

section \<open>Properties\<close>

lemma full_plan_no_start: "StartNetwork \<notin> snd ` set (full_plan config)"
  by (auto simp: full_plan_def plan_defs split: option.splits if_splits)

lemma light_plan_no_start: "StartNetwork \<notin> snd ` set (light_plan config)"
  by (auto simp: light_plan_def plan_defs split: if_splits)

text \<open>
  C37: a full node starts what its configuration asks for, or not at all. The network is started
  exactly when every step before succeeded, as the last call; then off-chain workers were built
  exactly if they are enabled, the key of the development seed was inserted for the pallet's key
  type exactly if there is a seed, block authoring was started exactly on an authority, and
  either the GRANDPA voter was started or, where GRANDPA is disabled, its stand-in was set up.
\<close>

theorem new_full_starts_as_configured:
  assumes "new_full K config \<lparr>process = s, calls = []\<rparr> = (r, b)"
  shows "(StartNetwork \<in> set (calls b) \<longleftrightarrow> r = Inr ()) \<and>
         (r = Inr () \<longrightarrow>
            last (calls b) = StartNetwork \<and>
            (BuildOffchainWorkers \<in> set (calls b) \<longleftrightarrow> offchain_worker_enabled config) \<and>
            (\<forall>seed. InsertDevKey seed KEY_TYPE \<in> set (calls b) \<longleftrightarrow> dev_key_seed config = Some seed) \<and>
            (StartAura (force_authoring config) CanAuthorWithNativeVersion \<in> set (calls b) \<longleftrightarrow>
               role_is_authority config) \<and>
            (RunGrandpaVoter (grandpa_config config) \<in> set (calls b) \<longleftrightarrow> \<not> disable_grandpa config) \<and>
            (SetupDisabledGrandpa \<in> set (calls b) \<longleftrightarrow> disable_grandpa config))"
proof -
  from run_plan_last [OF assms [unfolded new_full_plan] full_plan_no_start]
  have start: "r = Inr () \<longleftrightarrow> StartNetwork \<in> set (calls b)"
    and calls: "r = Inr () \<longrightarrow> calls b = map snd (full_plan config) @ [StartNetwork]" by simp_all
  show ?thesis
  proof (cases "r = Inr ()")
    case True
    with calls have "calls b = map snd (full_plan config) @ [StartNetwork]" by simp
    with True start show ?thesis
      by (cases "offchain_worker_enabled config"; cases "dev_key_seed config";
          cases "role_is_authority config"; cases "disable_grandpa config")
        (auto simp: full_plan_def plan_defs)
  qed (use start in simp)
qed

text \<open>Crates in which nothing fails.\<close>

definition willing_crates :: "unit Crates" where
  "willing_crates = \<lparr>crate_call = (\<lambda>act s. s), crate_try = (\<lambda>act s. (Inr (), s))\<rparr>"

definition demo_configuration :: Configuration where
  "demo_configuration =
     \<lparr> offchain_worker_enabled = True, role_is_light = False, role_is_authority = True,
       role_is_network_authority = True, force_authoring = False, node_name = [110],
       disable_grandpa = True, dev_key_seed = Some [47, 47, 65, 108, 105, 99, 101] \<rparr>"

theorem new_full_starts_as_configured_witness:
  "\<exists>b. new_full willing_crates demo_configuration \<lparr>process = (), calls = []\<rparr> = (Inr (), b) \<and>
     last (calls b) = StartNetwork \<and> BuildOffchainWorkers \<in> set (calls b)"
proof -
  let ?r = "new_full willing_crates demo_configuration \<lparr>process = (), calls = []\<rparr>"
  have "fst ?r = Inr ()" by code_simp
  then have r: "?r = (Inr (), snd ?r)" by (metis prod.collapse)
  have "offchain_worker_enabled demo_configuration" by code_simp
  with new_full_starts_as_configured [OF r] r show ?thesis by blast
qed

end
