(* ===== verification/Node_Command.thy ===== *)
theory Node_Command
  imports Node_Service Runtime_Api
begin

text \<open>
  \<^verbatim>\<open>node/src/cli.rs\<close>, \<^verbatim>\<open>node/src/command.rs\<close> and \<^verbatim>\<open>node/src/main.rs\<close>: what each subcommand runs. Parsing the
  arguments, building a runner with its configuration, the work of a subcommand and waiting for the
  end of a running node are code of other crates: the record \<open>CliCrates\<close>. (\<^verbatim>\<open>load_spec\<close> of the same file
  is in theory \<open>Chain_Spec\<close>.)
\<close>

section \<open>The command line\<close>

datatype 'm Subcommand =
    BuildSpec 'm
  | CheckBlock 'm
  | ExportBlocks 'm
  | ExportState 'm
  | ImportBlocks 'm
  | PurgeChain 'm
  | Revert 'm
  | Benchmark 'm

record 'm Cli =
  subcommand :: "'m Subcommand option"
  cli_run :: 'm

definition impl_name :: string where "impl_name = ''Substrate Node''"
text \<open>Three descriptions come from variables of the build.\<close>

record BuildEnv =
  SUBSTRATE_CLI_IMPL_VERSION :: string
  CARGO_PKG_DESCRIPTION :: string
  CARGO_PKG_AUTHORS :: string

definition impl_version :: "BuildEnv \<Rightarrow> string" where "impl_version = SUBSTRATE_CLI_IMPL_VERSION"
definition description :: "BuildEnv \<Rightarrow> string" where "description = CARGO_PKG_DESCRIPTION"
definition author :: "BuildEnv \<Rightarrow> string" where "author = CARGO_PKG_AUTHORS"

definition native_runtime_version :: "(bytes \<times> u32) list \<Rightarrow> 'spec \<Rightarrow> RuntimeVersion" where
  "native_runtime_version api_versions spec = VERSION api_versions"

definition support_url :: string where "support_url = ''support.anonymous.an''"
definition copyright_start_year :: int where "copyright_start_year = 2017"

section \<open>Running it\<close>

datatype RunError = CliError string | StartFailed StartError

record ('m, 's) CliCrates =
  create_runner :: "'m \<Rightarrow> string + Configuration"
  command_run :: "'m Subcommand \<Rightarrow> Configuration \<Rightarrow> 's \<Rightarrow> (string + unit) \<times> 's"
  until_exit :: "'s \<Rightarrow> (string + unit) \<times> 's"

definition with_runner ::
    "('m, 's) CliCrates \<Rightarrow> 'm \<Rightarrow> (Configuration \<Rightarrow> 's Startup \<Rightarrow> (RunError + unit) \<times> 's Startup) \<Rightarrow>
     's Startup \<Rightarrow> (RunError + unit) \<times> 's Startup" where
  "with_runner X cmd f b =
     (case create_runner X cmd of Inl e \<Rightarrow> (Inl (CliError e), b) | Inr config \<Rightarrow> f config b)"

definition on_process ::
    "('s \<Rightarrow> (string + unit) \<times> 's) \<Rightarrow> 's Startup \<Rightarrow> (RunError + unit) \<times> 's Startup" where
  "on_process f b =
     (case f (process b) of
        (Inl e, s) \<Rightarrow> (Inl (CliError e), b\<lparr>process := s\<rparr>)
      | (Inr _, s) \<Rightarrow> (Inr (), b\<lparr>process := s\<rparr>))"

definition starting :: "(StartError + unit) \<times> 's Startup \<Rightarrow> (RunError + unit) \<times> 's Startup" where
  "starting m = (case m of (Inl e, b) \<Rightarrow> (Inl (StartFailed e), b) | (Inr _, b) \<Rightarrow> (Inr (), b))"

text \<open>\<^verbatim>\<open>sync_run\<close> runs the command on the configuration, \<^verbatim>\<open>async_run\<close> on the partial components.\<close>

definition sync_run ::
    "('m, 's) CliCrates \<Rightarrow> 'm Subcommand \<Rightarrow> Configuration \<Rightarrow> 's Startup \<Rightarrow> (RunError + unit) \<times> 's Startup" where
  "sync_run X c config b = on_process (command_run X c config) b"

definition async_run ::
    "'s Crates \<Rightarrow> ('m, 's) CliCrates \<Rightarrow> 'm Subcommand \<Rightarrow> Configuration \<Rightarrow> 's Startup \<Rightarrow>
     (RunError + unit) \<times> 's Startup" where
  "async_run K X c config b =
     and_then (starting (new_partial K config b)) (\<lambda>_ b. on_process (command_run X c config) b)"

definition run_node ::
    "'s Crates \<Rightarrow> ('m, 's) CliCrates \<Rightarrow> Configuration \<Rightarrow> 's Startup \<Rightarrow> (RunError + unit) \<times> 's Startup" where
  "run_node K X config b =
     and_then (starting (if role_is_light config then new_light K config b else new_full K config b))
       (\<lambda>_ b. on_process (until_exit X) b)"

definition benchmark_disabled :: string where
  "benchmark_disabled =
     ''Benchmarking wasn't enabled when building the node. '' @
     ''You can enable it with `--features runtime-benchmarks`.''"

definition run ::
    "'s Crates \<Rightarrow> ('m, 's) CliCrates \<Rightarrow> bool \<Rightarrow> 'm Cli \<Rightarrow> 's Startup \<Rightarrow> (RunError + unit) \<times> 's Startup" where
  "run K X runtime_benchmarks cli b =
     (case subcommand cli of
        Some (BuildSpec cmd) \<Rightarrow> with_runner X cmd (sync_run X (BuildSpec cmd)) b
      | Some (CheckBlock cmd) \<Rightarrow> with_runner X cmd (async_run K X (CheckBlock cmd)) b
      | Some (ExportBlocks cmd) \<Rightarrow> with_runner X cmd (async_run K X (ExportBlocks cmd)) b
      | Some (ExportState cmd) \<Rightarrow> with_runner X cmd (async_run K X (ExportState cmd)) b
      | Some (ImportBlocks cmd) \<Rightarrow> with_runner X cmd (async_run K X (ImportBlocks cmd)) b
      | Some (PurgeChain cmd) \<Rightarrow> with_runner X cmd (sync_run X (PurgeChain cmd)) b
      | Some (Revert cmd) \<Rightarrow> with_runner X cmd (async_run K X (Revert cmd)) b
      | Some (Benchmark cmd) \<Rightarrow>
          if runtime_benchmarks then with_runner X cmd (sync_run X (Benchmark cmd)) b
          else (Inl (CliError benchmark_disabled), b)
      | None \<Rightarrow> with_runner X (cli_run cli) (run_node K X) b)"

definition main :: "'s Crates \<Rightarrow> ('m, 's) CliCrates \<Rightarrow> bool \<Rightarrow> 'm Cli \<Rightarrow> 's \<Rightarrow> (RunError + unit) \<times> 's Startup"
  where
  "main K X runtime_benchmarks cli s = run K X runtime_benchmarks cli \<lparr>process = s, calls = []\<rparr>"

section \<open>Calls made\<close>

lemma on_process_calls [simp]: "calls (snd (on_process f b)) = calls b"
  by (simp add: on_process_def split: prod.split sum.split)

lemma starting_calls [simp]: "calls (snd (starting m)) = calls (snd m)"
  by (simp add: starting_def split: prod.split sum.split)

lemma sync_run_calls [simp]: "calls (snd (sync_run X c config b)) = calls b"
  by (simp add: sync_run_def)

lemma with_runner_calls:
  "P (calls b) \<Longrightarrow> (\<And>config. P (calls (snd (f config b)))) \<Longrightarrow> P (calls (snd (with_runner X cmd f b)))"
  by (simp add: with_runner_def split: sum.split)

text \<open>A plan makes only calls it contains.\<close>

lemma run_plan_calls_subset: "set (calls (snd (run_plan K plan b))) \<subseteq> set (calls b) \<union> snd ` set plan"
proof (cases "run_plan K plan b" rule: prod.exhaust)
  case (Pair r b')
  show ?thesis
    by (cases rule: run_plan_outcome [OF Pair]) (use Pair in auto)
qed

lemma async_run_calls:
  "set (calls (snd (async_run K X c config b))) \<subseteq> set (calls b) \<union> snd ` set partial_plan"
  unfolding async_run_def
  by (rule and_then_keeps)
    (use run_plan_calls_subset [of K partial_plan b] in \<open>auto simp: new_partial_plan\<close>)

lemma run_node_light_calls:
  "role_is_light config \<Longrightarrow>
   set (calls (snd (run_node K X config b))) \<subseteq> set (calls b) \<union> insert StartNetwork (snd ` set (light_plan config))"
  unfolding run_node_def
  by (rule and_then_keeps)
    (use run_plan_calls_subset [of K "light_plan config @ [(Plain, StartNetwork)]" b] in
      \<open>auto simp: new_light_plan\<close>)

text \<open>The subcommands that open the database.\<close>

fun opens_database :: "'m Subcommand \<Rightarrow> bool" where
  "opens_database (CheckBlock _) = True"
| "opens_database (ExportBlocks _) = True"
| "opens_database (ExportState _) = True"
| "opens_database (ImportBlocks _) = True"
| "opens_database (Revert _) = True"
| "opens_database _ = False"

lemma run_subcommand_calls:
  assumes "subcommand cli = Some c"
  shows "set (calls (snd (run K X bench cli b))) \<subseteq>
           set (calls b) \<union> (if opens_database c then snd ` set partial_plan else {})"
  using assms async_run_calls [of K X c _ b]
  by (cases c) (auto simp: run_def with_runner_def split: sum.split)

section \<open>Properties\<close>

text \<open>
  C39: maintenance commands stay off the network. Whatever the other crates do, a run with a
  subcommand starts no network, no off-chain worker, no block authoring and no GRANDPA voter and
  inserts no key; only the five subcommands that work on blocks or states build the partial components,
  the others call nothing of the service at all.
\<close>

theorem maintenance_commands_stay_offline:
  assumes "subcommand cli = Some c" and "main K X bench cli s = (r, b)"
  shows "StartNetwork \<notin> set (calls b) \<and> BuildOffchainWorkers \<notin> set (calls b) \<and>
         (\<forall>force can. StartAura force can \<notin> set (calls b)) \<and>
         (\<forall>g. RunGrandpaVoter g \<notin> set (calls b)) \<and> (\<forall>seed kt. InsertDevKey seed kt \<notin> set (calls b)) \<and>
         (calls b = [] \<or> opens_database c)"
proof -
  have "set (calls b) \<subseteq> (if opens_database c then snd ` set partial_plan else {})"
    using run_subcommand_calls [OF assms(1), of K X bench "\<lparr>process = s, calls = []\<rparr>"] assms(2)
    by (simp add: main_def)
  then show ?thesis by (auto simp: partial_plan_def split: if_splits)
qed

definition demo_cli_crates :: "(unit, unit) CliCrates" where
  "demo_cli_crates =
     \<lparr> create_runner = (\<lambda>cmd. Inr demo_configuration), command_run = (\<lambda>c config s. (Inr (), s)),
       until_exit = (\<lambda>s. (Inr (), s)) \<rparr>"

theorem maintenance_commands_stay_offline_witness:
  "\<exists>b. main willing_crates demo_cli_crates False \<lparr>subcommand = Some (Revert ()), cli_run = ()\<rparr> () = (Inr (), b) \<and>
     calls b \<noteq> [] \<and> StartNetwork \<notin> set (calls b)"
proof -
  let ?cli = "\<lparr>subcommand = Some (Revert ()), cli_run = ()\<rparr>"
  let ?r = "main willing_crates demo_cli_crates False ?cli ()"
  have e: "fst ?r = Inr ()" "calls (snd ?r) \<noteq> []" by code_simp+
  then have r: "?r = (Inr (), snd ?r)" by (metis prod.collapse)
  have "subcommand ?cli = Some (Revert ())" by simp
  from maintenance_commands_stay_offline [OF this r] e(2) r show ?thesis by blast
qed

end
