(* ===== verification/Dev_Node.thy ===== *)
theory Dev_Node
  imports Node_Service Chain_Spec Errand_Spec Reference_Host
begin

text \<open>
  A development node and its chain: \<^verbatim>\<open>service.rs\<close> puts the key of the development seed into the keystore,
  \<^verbatim>\<open>chain_spec.rs\<close> puts the same account into the genesis of the preset \<^verbatim>\<open>dev\<close>, and the off-chain worker and
  the pallet compare the two. The keystore and the codec are code of other crates: the locale
  \<open>dev_keystore\<close> says what the composition relies on.
\<close>

section \<open>The keystore\<close>

text \<open>The keys that calls of \<^verbatim>\<open>insert_ephemeral_from_seed_by_type\<close> made for the pallet's key type.\<close>

fun inserted_key :: "(bytes \<Rightarrow> bytes option) \<Rightarrow> Action \<Rightarrow> bytes option" where
  "inserted_key from_string (InsertDevKey seed key_type) = (if key_type = KEY_TYPE then from_string seed else None)"
| "inserted_key from_string _ = None"

definition inserted_keys :: "(bytes \<Rightarrow> bytes option) \<Rightarrow> Action list \<Rightarrow> bytes list" where
  "inserted_keys from_string acts = List.map_filter (inserted_key from_string) acts"

lemma inserted_keys_member:
  "InsertDevKey seed KEY_TYPE \<in> set acts \<Longrightarrow> from_string seed = Some k \<Longrightarrow> k \<in> set (inserted_keys from_string acts)"
  by (force simp: inserted_keys_def map_filter_def)

text \<open>
  The keystore lists the keys inserted; the raw bytes of a key give the same account to the
  runtime and to the node, and the codec writes an account as its 32 bytes.
\<close>

locale dev_keystore =
  fixes T :: "('a, 'c) Trait" and H :: "('a, 'p, 'd, 'n) Host" and K :: Keys and raw :: "'p \<Rightarrow> bytes"
    and acts :: "Action list"
  assumes lists_inserted: "set (inserted_keys (sr25519_public K) acts) \<subseteq> raw ` set (app_keys H)"
    and same_account: "encode T (into_account H p) = account_bytes (sr25519_account K (raw p))"
begin

lemma account_listed:
  assumes "p \<in> set (app_keys H)"
  shows "sr25519_account K (raw p) \<in> set (get_account_ids T H)"
  using assms by (force simp: get_account_ids_eq same_account)

lemma key_approves:
  assumes "sr25519_account K (raw p) \<in> set (UpdateResultAccounts w)"
  shows "approver T w (into_account H p)"
  using assms by (simp add: approver_def same_account)

lemma seed_approves:
  assumes "InsertDevKey seed KEY_TYPE \<in> set acts" and "sr25519_public K seed = Some k"
    and "sr25519_account K k \<in> set (UpdateResultAccounts w)"
  obtains p where "p \<in> set (app_keys H)" and "approver T w (into_account H p)"
    and "allow_to_update_result (get_account_ids T H) w"
proof -
  obtain p where p: "p \<in> set (app_keys H)" "k = raw p"
    using lists_inserted inserted_keys_member [OF assms(1), of "sr25519_public K", OF assms(2)] by blast
  with assms(3) account_listed [OF p(1)] show thesis
    by (intro that [OF p(1)]) (auto simp: key_approves allow_to_update_result_iff)
qed

end

text \<open>The reference host with the inserted keys, on the reference codec.\<close>

interpretation demo_keystore: dev_keystore ref_trait
  "ref_host std (map account_of (inserted_keys (sr25519_public demo_keys) acts))" demo_keys account_bytes acts
  for std acts
proof
  have "length k = 32" if "k \<in> set (inserted_keys (sr25519_public demo_keys) acts)" for k
    using that
    by (auto simp: inserted_keys_def map_filter_def demo_keys_def elim!: inserted_key.elims split: if_splits)
  then show "set (inserted_keys (sr25519_public demo_keys) acts) \<subseteq>
      account_bytes ` set (app_keys (ref_host std (map account_of (inserted_keys (sr25519_public demo_keys) acts))))"
    by (force simp: ref_host_def account_bytes_of image_image)
qed (simp add: ref_trait_def ref_host_def demo_keys_def)

section \<open>Properties\<close>

text \<open>
  C38: a development node settles its errands alone. If a full node starts with the seed \<^verbatim>\<open>//Alice\<close> on the
  preset \<^verbatim>\<open>dev\<close>, then in every state its chain can reach the worker's check of the node's accounts passes,
  and the node holds a key with whose account one \<^verbatim>\<open>update_errand\<close> finishes any errand in progress with
  the result it names.
\<close>

theorem dev_node_settles_alone:
  assumes "new_full C config \<lparr>process = s, calls = []\<rparr> = (Inr (), b)"
    and "dev_key_seed config = Some (ascii ''//Alice'')"
    and "load_spec K wasm json ''dev'' = Inr cs" and "spec_genesis cs = Some g"
    and "dev_keystore T H K raw (calls b)" and "reachable T (pallet_abc g) w"
  shows "allow_to_update_result (get_account_ids T H) w \<and>
         (\<exists>p \<in> set (app_keys H). \<forall>cid res. fst (view w cid) = InProgress \<longrightarrow>
            fst (view (snd (dispatch T (Signed (into_account H p)) (UpdateErrand cid res) w)) cid) = Finished res)"
proof -
  have "InsertDevKey (ascii ''//Alice'') KEY_TYPE \<in> set (calls b)"
  proof -
    have "StartNetwork \<notin> set (calls \<lparr>process = s, calls = []\<rparr>)" by simp
    from run_plan_last [OF assms(1) [unfolded new_full_plan] full_plan_no_start this]
    have "calls b = map snd (full_plan config) @ [StartNetwork]" by simp
    with assms(2) show ?thesis by (simp add: full_plan_def dev_key_plan_def)
  qed
  moreover obtain wasm_binary where
    gen: "seeded_genesis K wasm_binary [''Alice''] ''Alice'' dev_endowed True True [''Alice''] = Some g"
    using assms(3,4) by (auto simp: load_spec_def development_config_def split: option.splits)
  have cfg: "config_inv (pallet_abc g) w" using cfg.inv_reachable [OF assms(6)] .
  obtain k where k: "sr25519_public K (ascii ''//Alice'') = Some k" "get_account_id_from_seed K ''Alice'' = Some (sr25519_account K k)"
  proof -
    from seeded_genesis_Some [OF gen] show thesis
      by (auto simp: get_account_id_from_seed_def get_from_seed_def ascii_def intro: that)
  qed
  moreover have dev: "DevelopmentMode w" and "sr25519_account K k \<in> set (UpdateResultAccounts w)"
    using cfg k seeded_genesis_Some [OF gen] by (auto simp: config_inv_def accounts_of_def)
  ultimately obtain p where p: "p \<in> set (app_keys H)" "approver T w (into_account H p)"
    and allow: "allow_to_update_result (get_account_ids T H) w"
    using dev_keystore.seed_approves [OF assms(5)] by metis
  have "fst (view (snd (dispatch T (Signed (into_account H p)) (UpdateErrand cid res) w)) cid) = Finished res"
    if "fst (view w cid) = InProgress" for cid res
    using that dev update_errand_view(1) [OF p(2), of cid res] by (cases "view w cid") simp
  with p allow show ?thesis by blast
qed

definition demo_calls :: "Action list" where
  "demo_calls = calls (snd (new_full willing_crates demo_configuration \<lparr>process = (), calls = []\<rparr>))"

definition demo_dev_host :: "(AccountId32, AccountId32, map_db, bytes) Host" where
  "demo_dev_host = ref_host True (map account_of (inserted_keys (sr25519_public demo_keys) demo_calls))"

theorem dev_node_settles_alone_witness:
  "\<exists>cs g. load_spec demo_keys (Some [0]) (\<lambda>path. Inl path) ''dev'' = Inr cs \<and> spec_genesis cs = Some g \<and>
     allow_to_update_result (get_account_ids ref_trait demo_dev_host)
       (genesis_build (pallet_abc g) demo_ledger :: (AccountId32, AccountId32 ledger) chain)"
proof -
  let ?n = "new_full willing_crates demo_configuration \<lparr>process = (), calls = []\<rparr>"
  have "fst ?n = Inr ()" by code_simp
  then have n: "?n = (Inr (), snd ?n)" by (metis prod.collapse)
  have seed: "dev_key_seed demo_configuration = Some (ascii ''//Alice'')" by code_simp
  let ?r = "load_spec demo_keys (Some [0]) (\<lambda>path. Inl path) ''dev''"
  obtain cs where cs: "?r = Inr cs" by (auto simp: load_spec_def development_config_def)
  have "spec_genesis cs \<noteq> None"
    using cs
    by (auto simp: load_spec_def development_config_def seeded_genesis_def dev_endowed_def
        authority_keys_from_seed_def get_account_id_from_seed_def get_from_seed_def demo_keys_def)
  then obtain g where g: "spec_genesis cs = Some g" by blast
  have ks: "dev_keystore ref_trait demo_dev_host demo_keys account_bytes (calls (snd ?n))"
    unfolding demo_dev_host_def demo_calls_def by (rule demo_keystore.dev_keystore_axioms)
  from dev_node_settles_alone [OF n seed cs g ks reachable.genesis [of _ _ demo_ledger]] cs g show ?thesis
    by blast
qed

end
