(* ===== verification/Spec2Isabelle.thy ===== *)
theory Spec2Isabelle
  imports Errand_Spec Errand_Decision Settlement Delegate_Lifecycle Task_Entry Lock_Protocol Worker_Results Worker_Delegates
    Worker_Tasks Worker_Chain Joint_System Joint_Progress Task_Journey Delegate_Journey Net_Address Posted_Urls Runtime_Config Runtime_Api
    Outer_Runtime Mock_Runtime Chain_Spec Genesis_Helper Node_Service Node_Command Dev_Node
begin

text \<open>
  \<^bold>\<open>Verification of the abc errand pallet and the node around it.\<close>

  \<^bold>\<open>The program.\<close> A Substrate node whose runtime has one pallet of its own,
  \<^verbatim>\<open>pallets/abc-demo\<close>. Accounts ask to be delegates of a compute network. A client begins a task with
  a delegate and reserves a fee; the delegate's node sends the task to its service off chain and
  opens an errand on chain; nodes that may update results ask the service for the result and vote
  on it; the vote that reaches the threshold settles the errand and pays the delegate from the
  client's reserve. The on-chain half is the six dispatchables of \<^verbatim>\<open>src/lib.rs\<close>; the off-chain half
  is \<^verbatim>\<open>offchain_worker\<close> of the same file with \<^verbatim>\<open>delegate.rs\<close>, \<^verbatim>\<open>task.rs\<close>, \<^verbatim>\<open>http.rs\<close>, \<^verbatim>\<open>storage.rs\<close> and
  \<^verbatim>\<open>error.rs\<close>. The two meet in the chain state, which the worker reads, and in the signed calls it
  sends.

  \<^bold>\<open>Theories, on chain.\<close>
  \<^item> \<open>Prelude\<close>: machine types, the operations of a FRAME storage map and their contract (locale
    \<open>storage_map\<close>), the lemma collections \<open>guard_simps\<close> and \<open>frame_simps\<close>.
  \<^item> \<open>Abc_Data\<close>: the pallet's structs, events, errors, storage and genesis; \<open>chain\<close> is the state a
    dispatchable runs on; \<open>Trait\<close> is the configuration trait, with the account codec, the currency,
    the hash and the UUID builder as fields. \<open>Uuid_Text\<close>: the text of a UUID as RFC 4122 has it. \<open>Errand_Ids\<close>: the
    contract of hash and UUID crates (locale \<open>uuid_crate\<close>) and the ids of tasks.
  \<^item> \<open>Currency\<close>: the contract of \<^verbatim>\<open>ReservableCurrency\<close>, with the minimum balance below which an account is
    removed, and of the codec (locales \<open>reservable_currency\<close>, \<open>abc_trait\<close>); \<open>Reference_Runtime\<close> interprets them on a
    ledger that computes, with the existential deposit of the runtime.
  \<^item> \<open>Delegation\<close>: \<^verbatim>\<open>request_delegate\<close>, \<^verbatim>\<open>update_delegate_status\<close>, \<^verbatim>\<open>unreserve\<close>. \<open>Errand_Flow\<close>:
    \<^verbatim>\<open>begin_task\<close>, \<^verbatim>\<open>init_errand\<close>, \<^verbatim>\<open>update_errand\<close> and the functions they call. A dispatchable returns its
    result and the state it leaves, also when it fails: the pinned FRAME keeps the writes made before
    an error.
  \<^item> \<open>Chain\<close>: the call enum, \<open>dispatch\<close>, the step relation and its reachable states, and the locale
    \<open>chain_invariant\<close>, interpreted for six invariants. \<open>Scenario\<close>: concrete runs.
  \<^item> \<open>Errand_Spec\<close>: an abstract errand (absent, in progress, finished, with its votes); the storage
    implements it, \<^verbatim>\<open>update_errand\<close> computes its vote, every call is one of its steps. \<open>Settlement\<close>: what
    calls do to balances, and to their sum, payments that close an account included. \<open>Delegate_Lifecycle\<close>: who moves a delegate entry and a name. \<open>Task_Entry\<close>:
    every result of \<^verbatim>\<open>begin_task\<close> and what it records.

  \<^bold>\<open>Theories, off chain.\<close>
  \<^item> \<open>Rust_Strings\<close>: UTF-8, decimal digits, the two error types. \<open>Local_Storage\<close>:
    \<^verbatim>\<open>operate_local_storage\<close> on a database given by its operations (locales \<open>local_db\<close>, \<open>quiet_db\<close>).
    \<open>Lock_Protocol\<close>: the same lock with any number of workers whose calls interleave.
  \<^item> \<open>Offchain_Host\<close>: keystore, signer, HTTP, clock, JSON, protobuf and SS58 as fields of \<open>Host\<close>, what
    the code relies on as the locale \<open>offchain_host\<close>; the node's state, with logs of what it posted, heard and
    sent; \<^verbatim>\<open>http_post\<close>.
    \<open>Delegate_Client\<close> and \<open>Task_Client\<close>: \<^verbatim>\<open>delegate.rs\<close> and \<^verbatim>\<open>task.rs\<close>. \<open>Offchain_Worker\<close>: the worker.
    \<open>Reference_Host\<close>: a host that computes, which interprets the locales.
  \<^item> \<open>Worker_Results\<close>, \<open>Worker_Delegates\<close>, \<open>Worker_Tasks\<close>: what each part of the worker sends, stores and
    leaves locked. \<open>Net_Address\<close>: UTF-8 against Unicode, and \<^verbatim>\<open>get_url\<close>. \<open>Posted_Urls\<close>: the addresses the
    worker posts to. \<open>Worker_Chain\<close>: what the calls a node sends do on the chain.

  \<^bold>\<open>Theories, both halves.\<close> \<open>Errand_Decision\<close>: a measure that every vote lowers. \<open>Joint_System\<close>: the chain and any
  number of nodes as one step relation, in which workers run on any state the chain has been in, the calls
  they sent are included once, at any later time, and accounts may also vote by hand (locale \<open>joint_system\<close>); \<open>node_step\<close>
  are the steps without such votes, which the theorems on progress use. \<open>Joint_Progress\<close>: what one node can do
  in it. \<open>Task_Journey\<close>: a task followed from \<^verbatim>\<open>begin_task\<close> to the payment.
  \<open>Delegate_Journey\<close>: a delegate followed from its request to its readiness, and what a payment in the joint system needs.

  \<^bold>\<open>Theories, runtime and node.\<close>
  \<^item> \<open>Runtime_Config\<close>: constants, parameters and \<^verbatim>\<open>create_transaction\<close> of \<^verbatim>\<open>runtime/src/lib.rs\<close>. \<open>Runtime_Api\<close>: its
    weights (with the contract of \<^verbatim>\<open>Perbill\<close>, locale \<open>perbill_laws\<close>), version, pallets and runtime APIs. \<open>Outer_Runtime\<close>:
    what the runtime plugs into each pallet, the outer calls with those sudo wraps and the root calls that write the
    storage under any key (locale \<open>sudo_pallet\<close>), as a step relation of the whole runtime that refines \<open>Chain\<close> until such a
    call is made, and the benchmark API. \<open>Mock_Runtime\<close>: the pallet's \<^verbatim>\<open>mock.rs\<close>.
  \<^item> \<open>Chain_Spec\<close>: \<^verbatim>\<open>node/src/chain_spec.rs\<close> and \<^verbatim>\<open>load_spec\<close> of \<^verbatim>\<open>node/src/command.rs\<close>. \<open>Genesis_Helper\<close>:
    \<^verbatim>\<open>runtime/src/genesis.rs\<close>.
  \<^item> \<open>Node_Service\<close>: \<^verbatim>\<open>node/src/service.rs\<close> and \<^verbatim>\<open>node/src/rpc.rs\<close> as sequences of calls of other crates, any of which may
    fail where the code has \<^verbatim>\<open>?\<close> or \<^verbatim>\<open>expect\<close>; each service is proved equal to a plan, the list of its calls.
    \<open>Node_Command\<close>: \<^verbatim>\<open>cli.rs\<close>, \<^verbatim>\<open>run\<close> of \<^verbatim>\<open>command.rs\<close> and \<^verbatim>\<open>main.rs\<close>. \<open>Dev_Node\<close>: service, genesis, worker and pallet
    composed (locale \<open>dev_keystore\<close>).

  \<^bold>\<open>What the theorems show.\<close> The refinement of the abstract errand and the end of voting (C1 to C3); a task
  followed from its begin to its payment, and a delegate from its request to its readiness (C4, C5); the invariants of
  every reachable state and that the runtime keeps them until the sudo key rewrites the storage (C6 to C8, C22); results
  from the service to the chain, and no payment without one or a vote signed by hand (C9 to C12, C23, C24); what a task records, balances and fees (C13 to C18); what sudo
  can do (C19); delegates (C21, C25); the lock and the local storage (C20, C28); the worker's calls, ids and
  addresses (C26, C27, C29, C30); the behaviour of the code where it is not what a user of it would expect (C31 to
  C35); genesis, the node's start and its commands, weights (C36 to C40).

  \<^bold>\<open>Bounds.\<close> Block numbers, fees and counters are words of their width. A balance is a natural number:
  the pallet only makes one from a \<^verbatim>\<open>u32\<close> fee and leaves its arithmetic to the currency. Every
  loop of the code is a structural recursion over a list, so no fuel is needed. The lock protocol has any
  number of workers, the joint system any number of nodes.

  \<^bold>\<open>Not modelled.\<close> Log output; signature checks, fees and nonces of extrinsics (\<open>dispatch\<close> starts where
  FRAME has established the origin; in \<open>Outer_Runtime\<close> they are among the changes other pallets may make); the derived
  serde and SCALE codecs and the \<^verbatim>\<open>app_crypto!\<close> types; the type parameters of the runtime, which are types of the
  model; the objects that the node's services hand from one crate to another; build scripts and tests. The theorems on
  \<open>Chain\<close> and \<open>Joint_System\<close> are about runs without root writes to raw storage keys (C8). The contract of the currency is on
  states in which every account has nothing or at least the minimum balance, as \<^verbatim>\<open>pallet_balances\<close> keeps them.
\<close>

section \<open>Invariants of every reachable state\<close>

text \<open>
  C6: in every state the chain can reach from genesis, the list of errands in progress names
  exactly the errands with status \<^verbatim>\<open>Processing\<close>, every errand is stored under its own description
  and belongs to the encoding of an account, and an errand has no result before it is done.
\<close>

theorem reachable_errands_consistent:
  assumes "reachable T config w"
  shows "(cid \<in> set (ProcessingErrands w) \<longleftrightarrow> fst (view w cid) = InProgress) \<and>
         (\<forall>e. Errands w cid = Some e \<longrightarrow>
            e_description_cid e = cid \<and> (\<exists>c. e_account_id e = encode T c) \<and>
            (e_status e = Processing \<longrightarrow> e_result e = []))"
proof -
  have "errand_inv T w" using errand.inv_reachable [OF assms] .
  moreover have "fst (view w cid) = InProgress \<longleftrightarrow> (\<exists>e. Errands w cid = Some e \<and> e_status e = Processing)"
    by (cases "Errands w cid") (auto simp: view_def split: ErrandStatus.splits)
  ultimately show ?thesis by (auto simp: errand_inv_def)
qed

theorem reachable_errands_consistent_witness:
  "reachable ref_trait prod_config demo_inited \<and> demo_cid \<in> set (ProcessingErrands demo_inited) \<and>
   fst (view demo_inited demo_cid) = InProgress"
proof -
  have "demo_cid \<in> set (ProcessingErrands demo_inited)" by code_simp
  with demo_reachable(4) reachable_errands_consistent [OF demo_reachable(4), of demo_cid]
  show ?thesis by simp
qed

text \<open>
  C7: in every reachable state every recorded vote is one of an account of the genesis list, and
  outside development mode an errand is only finished once the threshold of votes is on record.
\<close>

theorem reachable_votes_authorised:
  assumes "reachable T config w"
  shows "(\<forall>a \<in> set (votes w cid). length (encode T a) = 32 \<and>
            account_of (encode T a) \<in> set (update_result_accounts config)) \<and>
         (\<not> development_mode config \<and> view w cid = (Finished r, vs) \<longrightarrow>
            MIN_UPDATE_RESULT_ACCOUNT \<le> length vs)"
proof -
  have cfg: "config_inv config w" using cfg.inv_reachable [OF assms] .
  have inv: "vote_inv T w" using vote.inv_reachable [OF assms] .
  have "MIN_UPDATE_RESULT_ACCOUNT \<le> length vs"
    if "\<not> development_mode config" and "view w cid = (Finished r, vs)"
  proof -
    from that obtain e where "Errands w cid = Some e" and "e_status e = Done" and "vs = votes w cid"
      by (cases "Errands w cid") (auto simp: view_def split: ErrandStatus.splits)
    with inv cfg that show ?thesis by (auto simp: vote_inv_def config_inv_def)
  qed
  with cfg inv show ?thesis by (auto simp: vote_inv_def config_inv_def approver_def)
qed

theorem reachable_votes_authorised_witness:
  "reachable ref_trait prod_config demo_done \<and>
   view demo_done demo_cid = (Finished [2], [alice, carol]) \<and>
   MIN_UPDATE_RESULT_ACCOUNT \<le> length [alice, carol]"
proof -
  have v: "view demo_done demo_cid = (Finished [2], [alice, carol])" by code_simp
  have "\<not> development_mode prod_config" by code_simp
  with v demo_reachable(5) reachable_votes_authorised [OF demo_reachable(5), of demo_cid "[2]" "[alice, carol]"]
  show ?thesis by blast
qed

text \<open>
  C22: in every reachable state the task list of a block is never stored empty, names no description
  twice and holds only tasks with a positive fee; every client with a delegate has a positive fee on
  record.
\<close>

theorem reachable_tasks_wellformed:
  assumes "reachable T config w"
  shows "(Tasks w b = Some l \<longrightarrow> l \<noteq> [] \<and> distinct (map t_description_cid l) \<and> (\<forall>t \<in> set l. 0 < t_fee t)) \<and>
         (ClientDelegate w c = Some d \<longrightarrow> (\<exists>fee. ClientTaskFee w c = Some fee \<and> 0 < fee))"
  using task.inv_reachable [OF assms] by (auto simp: task_inv_def)

theorem reachable_tasks_wellformed_witness:
  "reachable ref_trait prod_config demo_begun \<and> ClientDelegate demo_begun alice = Some bob \<and>
   (\<exists>fee. ClientTaskFee demo_begun alice = Some fee \<and> 0 < fee)"
proof -
  have "ClientDelegate demo_begun alice = Some bob" by code_simp
  with demo_reachable(3) reachable_tasks_wellformed [OF demo_reachable(3), of 0 "[]" alice bob]
  show ?thesis by simp
qed

text \<open>
  In every reachable state an account is a delegate, or the account behind a name, only if a
  request of it (under that name) is on record in the list of some block.
\<close>

theorem reachable_delegates_requested:
  assumes "reachable T config w"
  shows "(Delegates w a \<noteq> None \<longrightarrow> (\<exists>n b. (n, a) \<in> set (storage_get [] (DelegatesApplys w) b))) \<and>
         (DelegateAccounts w n = Some a \<longrightarrow> (\<exists>b. (n, a) \<in> set (storage_get [] (DelegatesApplys w) b)))"
  using delegate.inv_reachable [OF assms] by (auto simp: delegate_inv_def requested_def)

theorem reachable_delegates_requested_witness:
  "reachable ref_trait prod_config demo_ready \<and> DelegateAccounts demo_ready demo_name = Some bob \<and>
   (\<exists>b. (demo_name, bob) \<in> set (storage_get [] (DelegatesApplys demo_ready) b))"
proof -
  have "DelegateAccounts demo_ready demo_name = Some bob" by code_simp
  with demo_reachable(2) reachable_delegates_requested [OF demo_reachable(2), of bob demo_name]
  show ?thesis by simp
qed

end
